(* ===== verification/Prelude.thy ===== *)
theory Prelude
  imports Main "HOL-Library.Word" "HOL-Library.Sublist"
begin

text \<open>
  Shared vocabulary of the development: C integers, C strings, the small string functions of the
  C library the sources call, and list lemmas about the fixed-capacity tables that most daemons of
  ServEcosys keep.  Conventions:

  \<^item> a C \<open>int\<close> or \<open>pid_t\<close> whose arithmetic cannot overflow is an \<open>int\<close>; conversions to and from
    \<open>unsigned int\<close> are written out with \<open>to_u32\<close> and \<open>to_s32\<close>;
  \<^item> bytes and words of the cryptographic code are \<open>8 word\<close>, \<open>32 word\<close>, \<open>64 word\<close>;
  \<^item> a NUL-terminated string is the list of its characters without the NUL; an \<open>n\<close>-byte buffer
    filled by \<open>snprintf\<close> or by \<open>strncpy\<close> plus terminator holds \<open>fit n s\<close>;
  \<^item> a table \<open>T tab[N]; int count;\<close> is the list of its first \<open>count\<close> elements.
\<close>

unbundle bit_operations_syntax

named_theorems tab_simps
named_theorems buf_simps

type_synonym pid_t = int
type_synonym u8 = "8 word"
type_synonym u32 = "32 word"
type_synonym u64 = "64 word"

section \<open>C integer conversions\<close>

definition to_u32 :: "int \<Rightarrow> int" where
  "to_u32 x = x mod 2 ^ 32"

definition to_s32 :: "int \<Rightarrow> int" where
  "to_s32 x = (x + 2 ^ 31) mod 2 ^ 32 - 2 ^ 31"

lemma to_u32_range: "0 \<le> to_u32 x" "to_u32 x < 2 ^ 32"
  by (simp_all add: to_u32_def)

lemma to_u32_id [simp]: "0 \<le> x \<Longrightarrow> x < 2 ^ 32 \<Longrightarrow> to_u32 x = x"
  by (simp add: to_u32_def)

lemma to_s32_range: "- (2 ^ 31) \<le> to_s32 x" "to_s32 x < 2 ^ 31"
proof -
  have "(x + 2 ^ 31) mod 2 ^ 32 < (2 ^ 32 :: int)" by (rule pos_mod_bound) simp
  then show "to_s32 x < 2 ^ 31" by (simp add: to_s32_def)
  have "0 \<le> (x + 2 ^ 31) mod (2 ^ 32 :: int)" by (rule pos_mod_sign) simp
  then show "- (2 ^ 31) \<le> to_s32 x" by (simp add: to_s32_def)
qed

lemma to_s32_id [simp]: "- (2 ^ 31) \<le> x \<Longrightarrow> x < 2 ^ 31 \<Longrightarrow> to_s32 x = x"
  by (simp add: to_s32_def)

lemma to_u32_neg: "- (2 ^ 31) \<le> x \<Longrightarrow> x < 0 \<Longrightarrow> to_u32 x = x + 2 ^ 32"
proof -
  assume x: "- (2 ^ 31) \<le> x" "x < 0"
  have "x mod 2 ^ 32 = (x + 2 ^ 32) mod 2 ^ 32" by simp
  also have "\<dots> = x + 2 ^ 32" using x by (intro mod_pos_pos_trivial) simp_all
  finally show ?thesis by (simp add: to_u32_def)
qed

lemma to_s32_small [simp]: "0 \<le> x \<Longrightarrow> x \<le> 11 \<Longrightarrow> to_s32 x = x"
  by (rule to_s32_id) simp_all

section \<open>C strings\<close>

abbreviation NUL :: char where "NUL \<equiv> CHR 0x00"
abbreviation LF :: char where "LF \<equiv> CHR 0x0A"
abbreviation CR :: char where "CR \<equiv> CHR 0x0D"
abbreviation TAB :: char where "TAB \<equiv> CHR 0x09"
abbreviation DQUOTE :: char where "DQUOTE \<equiv> CHR 0x22"
abbreviation BACKSLASH :: char where "BACKSLASH \<equiv> CHR 0x5C"

definition fit :: "nat \<Rightarrow> string \<Rightarrow> string" where
  "fit n s = take (n - 1) s"

lemma length_fit [simp]: "length (fit n s) = min (length s) (n - 1)"
  by (simp add: fit_def min.commute)

lemma fit_short [simp]: "length s < n \<Longrightarrow> fit n s = s"
  by (simp add: fit_def)

lemma fit_fit [simp]: "fit n (fit n s) = fit n s"
  by (simp add: fit_def)

lemma set_fit_subset: "set (fit n s) \<subseteq> set s"
  by (simp add: fit_def set_take_subset)

definition cstr :: "string \<Rightarrow> string" where
  "cstr s = takeWhile (\<lambda>c. c \<noteq> NUL) s"

text \<open>\<open>strstr\<close>, returning the suffix that starts at the first occurrence, and \<open>strchr\<close>.\<close>

fun strstr :: "string \<Rightarrow> string \<Rightarrow> string option" where
  "strstr [] pat = (if pat = [] then Some [] else None)"
| "strstr (c # cs) pat = (if prefix pat (c # cs) then Some (c # cs) else strstr cs pat)"

fun strchr :: "string \<Rightarrow> char \<Rightarrow> string option" where
  "strchr [] x = None"
| "strchr (c # cs) x = (if c = x then Some (c # cs) else strchr cs x)"

lemma strchr_None: "strchr s x = None \<longleftrightarrow> x \<notin> set s"
  by (induction s) auto

lemma strchr_Some_append:
  "x \<notin> set a \<Longrightarrow> strchr (a @ x # b) x = Some (x # b)"
  by (induction a) auto

lemma strstr_NoneD: "strstr s pat = None \<Longrightarrow> \<not> sublist pat s"
  by (induction s pat rule: strstr.induct) (auto split: if_splits simp: sublist_Cons_right)

lemma strstr_SomeD:
  "strstr s pat = Some r \<Longrightarrow> \<exists>pre. s = pre @ r \<and> prefix pat r"
proof (induction s pat rule: strstr.induct)
  case (2 c cs pat)
  then show ?case
    by (cases "prefix pat (c # cs)") (auto intro: exI [of _ "[]"] dest!: spec [of _ "c # _"])
qed (auto split: if_splits)

lemma strstr_iff: "strstr s pat \<noteq> None \<longleftrightarrow> sublist pat s"
proof
  assume "strstr s pat \<noteq> None"
  then obtain r where "strstr s pat = Some r" by auto
  then obtain pre where "s = pre @ r" "prefix pat r" by (blast dest: strstr_SomeD)
  then show "sublist pat s" by (auto simp: sublist_def prefix_def)
next
  assume "sublist pat s"
  then show "strstr s pat \<noteq> None" using strstr_NoneD by blast
qed

lemma strstr_skip:
  "hd pat \<notin> set a \<Longrightarrow> pat \<noteq> [] \<Longrightarrow> strstr (a @ b) pat = strstr b pat"
proof (induction a)
  case (Cons c a)
  then have "\<not> prefix pat (c # a @ b)" by (cases pat) auto
  with Cons show ?case by simp
qed simp

text \<open>Decimal rendering, the \<open>%d\<close> of \<open>printf\<close>.\<close>

definition digit :: "nat \<Rightarrow> char" where
  "digit d = char_of (48 + d)"

fun dec_nat :: "nat \<Rightarrow> string" where
  "dec_nat n = (if n < 10 then [digit n] else dec_nat (n div 10) @ [digit (n mod 10)])"

declare dec_nat.simps [simp del]

definition dec :: "int \<Rightarrow> string" where
  "dec i = (if i < 0 then CHR ''-'' # dec_nat (nat (- i)) else dec_nat (nat i))"

text \<open>The \<open>%x\<close> of \<open>printf\<close>.\<close>

definition hex_digit :: "nat \<Rightarrow> char" where
  "hex_digit d = char_of (if d < 10 then 48 + d else 87 + d)"

fun hex_nat :: "nat \<Rightarrow> string" where
  "hex_nat n = (if n < 16 then [hex_digit n] else hex_nat (n div 16) @ [hex_digit (n mod 16)])"

declare hex_nat.simps [simp del]

text \<open>
  \<open>atoi\<close>: white space, an optional sign, digits up to the first other character; the \<open>%d\<close> of
  \<open>sscanf\<close> reads the same but fails when there is no digit.
\<close>

fun digits_value :: "int \<Rightarrow> string \<Rightarrow> int" where
  "digits_value acc [] = acc"
| "digits_value acc (c # cs) =
     (let d = int (of_char c) in
      if 48 \<le> d \<and> d \<le> 57 then digits_value (acc * 10 + (d - 48)) cs else acc)"

definition is_space :: "char \<Rightarrow> bool" where
  "is_space c = (c \<in> {CHR '' '', TAB, LF, CHR 0x0B, CHR 0x0C, CR})"

definition is_digit :: "char \<Rightarrow> bool" where
  "is_digit c = (48 \<le> (of_char c :: nat) \<and> of_char c \<le> (57 :: nat))"

definition atoi :: "string \<Rightarrow> int" where
  "atoi s =
     (let t = dropWhile is_space s in
      case t of
        c # cs \<Rightarrow> if c = CHR ''-'' then to_s32 (- digits_value 0 cs)
                 else if c = CHR ''+'' then to_s32 (digits_value 0 cs)
                 else to_s32 (digits_value 0 t)
      | [] \<Rightarrow> 0)"

definition scan_d :: "string \<Rightarrow> int option" where
  "scan_d s =
     (let t = dropWhile is_space s;
          u = (case t of c # cs \<Rightarrow> if c = CHR ''-'' \<or> c = CHR ''+'' then cs else t | [] \<Rightarrow> [])
      in case u of c # _ \<Rightarrow> if is_digit c then Some (atoi s) else None | [] \<Rightarrow> None)"

text \<open>\<open>strrchr\<close>: the suffix that starts at the last occurrence.\<close>

fun strrchr :: "string \<Rightarrow> char \<Rightarrow> string option" where
  "strrchr [] x = None"
| "strrchr (c # cs) x =
     (case strrchr cs x of Some r \<Rightarrow> Some r | None \<Rightarrow> if c = x then Some (c # cs) else None)"

text \<open>The \<open>%-ns\<close> of \<open>printf\<close>: padding on the right, and no truncation.\<close>

definition padr :: "nat \<Rightarrow> string \<Rightarrow> string" where
  "padr n s = s @ replicate (n - length s) (CHR '' '')"

section \<open>Tables\<close>

text \<open>The scan \<open>for (i = 0; i < count; i++) if (P(tab[i])) return i;\<close>.\<close>

fun index_of :: "('a \<Rightarrow> bool) \<Rightarrow> 'a list \<Rightarrow> nat option" where
  "index_of P [] = None"
| "index_of P (x # xs) = (if P x then Some 0 else map_option Suc (index_of P xs))"

lemma index_of_None: "index_of P xs = None \<longleftrightarrow> (\<forall>x \<in> set xs. \<not> P x)"
  by (induction xs) auto

lemma index_of_SomeD:
  "index_of P xs = Some i \<Longrightarrow> i < length xs \<and> P (xs ! i) \<and> (\<forall>j < i. \<not> P (xs ! j))"
proof (induction xs arbitrary: i)
  case (Cons x xs)
  show ?case
  proof (cases "P x")
    case False
    with Cons.prems obtain k where k: "index_of P xs = Some k" "i = Suc k" by auto
    with Cons.IH [OF k(1)] False show ?thesis by (auto simp: less_Suc_eq_0_disj)
  qed (use Cons.prems in auto)
qed simp

lemma index_of_mem: "index_of P xs = Some i \<Longrightarrow> xs ! i \<in> set xs"
  by (simp add: index_of_SomeD)

lemma index_of_Ex: "\<exists>x \<in> set xs. P x \<Longrightarrow> \<exists>i. index_of P xs = Some i"
  using index_of_None [of P xs] by (metis not_None_eq)

text \<open>Closing the gap with \<open>memmove(&tab[i], &tab[i+1], ...)\<close> and decrementing the count.\<close>

definition remove_at :: "nat \<Rightarrow> 'a list \<Rightarrow> 'a list" where
  "remove_at i xs = take i xs @ drop (Suc i) xs"

lemma length_remove_at [tab_simps]: "i < length xs \<Longrightarrow> length (remove_at i xs) = length xs - 1"
  by (simp add: remove_at_def)

lemma set_remove_at_subset: "set (remove_at i xs) \<subseteq> set xs"
  by (auto simp: remove_at_def dest: in_set_takeD in_set_dropD)

lemma subseq_remove_at: "subseq (remove_at i xs) xs"
proof -
  have "subseq (drop 1 (drop i xs)) (drop i xs)" by (rule suffix_imp_subseq) (rule suffix_drop)
  then have "subseq (drop (Suc i) xs) (drop i xs)" by simp
  then have "subseq (take i xs @ drop (Suc i) xs) (take i xs @ drop i xs)"
    by (intro list_emb_append_mono) simp_all
  then show ?thesis by (simp add: remove_at_def)
qed

lemma remove_at_0 [simp]: "remove_at 0 (x # xs) = xs"
  by (simp add: remove_at_def)

lemma remove_at_Suc [simp]: "remove_at (Suc i) (x # xs) = x # remove_at i xs"
  by (simp add: remove_at_def)

lemma distinct_map_subseq: "subseq ys xs \<Longrightarrow> distinct (map f xs) \<Longrightarrow> distinct (map f ys)"
  by (auto simp: subseq_conv_nths nths_map intro!: distinct_nthsI simp flip: nths_map)

lemma subseq_set: "subseq ys xs \<Longrightarrow> set ys \<subseteq> set xs"
  by (auto simp: subseq_conv_nths dest: in_set_nthsD)

text \<open>An update of one entry that keeps its key.\<close>

lemma map_update_same:
  "i < length xs \<Longrightarrow> f y = f (xs ! i) \<Longrightarrow> map f (xs[i := y]) = map f xs"
  by (metis list_update_id map_update)

lemma index_of_key_update:
  "i < length xs \<Longrightarrow> key y = key (xs ! i) \<Longrightarrow>
   index_of (\<lambda>x. key x = k) (xs[i := y]) = index_of (\<lambda>x. key x = k) xs"
proof (induction xs arbitrary: i)
  case (Cons x xs)
  then show ?case by (cases i) auto
qed simp

lemma index_of_append_fresh:
  "\<forall>x \<in> set xs. \<not> P x \<Longrightarrow> P y \<Longrightarrow> index_of P (xs @ [y]) = Some (length xs)"
  by (induction xs) auto

lemma index_of_append_other:
  "\<not> P y \<Longrightarrow> index_of P (xs @ [y]) = index_of P xs"
  by (induction xs) auto

lemma index_of_unique:
  "distinct (map key xs) \<Longrightarrow> i < length xs \<Longrightarrow> index_of (\<lambda>x. key x = key (xs ! i)) xs = Some i"
proof (induction xs arbitrary: i)
  case (Cons x xs)
  show ?case
  proof (cases i)
    case (Suc j)
    with Cons.prems have "key x \<noteq> key (xs ! j)" by (metis distinct.simps(2) length_Cons
        length_map list.simps(9) not_less_eq nth_map nth_mem)
    with Suc Cons show ?thesis by simp
  qed simp
qed simp

end
