(* ===== verification/Selinux.thy ===== *)
theory Selinux
  imports Prelude
begin

text \<open>
  The in-process reference monitor \<open>backend/deps/selinux/selinux_wrap.c\<close> and the daemon around it,
  \<open>backend/sub_kernel/selinux_manager.c\<close>.  The allow table is copied rule by rule; a decision
  extracts the type from the source context and looks the triple up.  The files the monitor reads
  (\<open>/proc/<pid>/attr/current\<close>, the policy's \<open>stat\<close>) are parameters.
\<close>

section \<open>The allow table\<close>

type_synonym av_rule_t = "string \<times> string \<times> string"

definition allow_rules :: "av_rule_t list" where
  "allow_rules = [
   (''sys_dom_t'', ''process'', ''signal''),
   (''sys_dom_t'', ''process'', ''fork''),
   (''sys_dom_t'', ''process'', ''getattr''),
   (''sys_dom_t'', ''capability'', ''sys_admin''),
   (''sys_dom_t'', ''capability'', ''sys_rawio''),
   (''sys_dom_t'', ''capability'', ''sys_module''),
   (''sys_dom_t'', ''capability'', ''sys_boot''),
   (''sys_dom_t'', ''system'', ''module_load''),
   (''sys_dom_t'', ''system'', ''policy''),
   (''sys_dom_t'', ''security'', ''compute_av''),
   (''sys_dom_t'', ''security'', ''compute_create''),
   (''sys_dom_t'', ''security'', ''compute_member''),
   (''sys_dom_t'', ''security'', ''compute_relabel''),
   (''sys_dom_t'', ''module'', ''load''),
   (''sys_dom_t'', ''file'', ''read''),
   (''sys_dom_t'', ''file'', ''write''),
   (''sys_dom_t'', ''file'', ''open''),
   (''sys_dom_t'', ''file'', ''getattr''),
   (''sys_dom_t'', ''dir'', ''read''),
   (''sys_dom_t'', ''dir'', ''search''),
   (''sys_dom_t'', ''dir'', ''add_name''),
   (''sys_dom_t'', ''dir'', ''write''),
   (''sys_dom_t'', ''unix_dgram_socket'', ''sendto''),
   (''sys_dom_t'', ''unix_dgram_socket'', ''recvfrom''),
   (''sys_dom_t'', ''unix_stream_socket'', ''connectto''),
   (''sys_dom_t'', ''tcp_socket'', ''create''),
   (''sys_dom_t'', ''tcp_socket'', ''bind''),
   (''sys_dom_t'', ''tcp_socket'', ''connect''),
   (''sys_dom_t'', ''tcp_socket'', ''send_msg''),
   (''sys_dom_t'', ''tcp_socket'', ''recv_msg''),
   (''sys_dom_t'', ''udp_socket'', ''create''),
   (''sys_dom_t'', ''udp_socket'', ''bind''),
   (''sys_dom_t'', ''udp_socket'', ''send_msg''),
   (''sys_dom_t'', ''udp_socket'', ''recv_msg''),
   (''sys_dom_t'', ''sysfs'', ''read''),
   (''uid_dom_t'', ''process'', ''signal''),
   (''uid_dom_t'', ''process'', ''fork''),
   (''uid_dom_t'', ''process'', ''getattr''),
   (''uid_dom_t'', ''process'', ''transition''),
   (''uid_dom_t'', ''capability'', ''sys_tty_config''),
   (''uid_dom_t'', ''unix_dgram_socket'', ''sendto''),
   (''uid_dom_t'', ''unix_dgram_socket'', ''recvfrom''),
   (''uid_dom_t'', ''unix_stream_socket'', ''connectto''),
   (''uid_dom_t'', ''unix_stream_socket'', ''listen''),
   (''uid_dom_t'', ''unix_stream_socket'', ''accept''),
   (''uid_dom_t'', ''file'', ''read''),
   (''uid_dom_t'', ''file'', ''write''),
   (''uid_dom_t'', ''file'', ''open''),
   (''uid_dom_t'', ''file'', ''getattr''),
   (''uid_dom_t'', ''file'', ''create''),
   (''uid_dom_t'', ''file'', ''unlink''),
   (''uid_dom_t'', ''dir'', ''read''),
   (''uid_dom_t'', ''dir'', ''search''),
   (''uid_dom_t'', ''dir'', ''add_name''),
   (''uid_dom_t'', ''dir'', ''write''),
   (''uid_dom_t'', ''fd'', ''use''),
   (''app_sandbox_t'', ''process'', ''getattr''),
   (''app_sandbox_t'', ''file'', ''read''),
   (''app_sandbox_t'', ''file'', ''write''),
   (''app_sandbox_t'', ''file'', ''open''),
   (''app_sandbox_t'', ''file'', ''getattr''),
   (''app_sandbox_t'', ''dir'', ''read''),
   (''app_sandbox_t'', ''dir'', ''search''),
   (''app_sandbox_t'', ''unix_dgram_socket'', ''sendto''),
   (''oipes_client_t'', ''tcp_socket'', ''create''),
   (''oipes_client_t'', ''tcp_socket'', ''bind''),
   (''oipes_client_t'', ''tcp_socket'', ''connect''),
   (''oipes_client_t'', ''tcp_socket'', ''send_msg''),
   (''oipes_client_t'', ''tcp_socket'', ''recv_msg''),
   (''oipes_client_t'', ''file'', ''read''),
   (''oipes_client_t'', ''file'', ''write'')]"

record selinux_state_t =
  ss_context :: string
  ss_enforcing :: int

text \<open>\<open>selinux_init\<close> fills the caller's structure and copies it to the global \<open>g_state\<close>.\<close>

definition selinux_init :: selinux_state_t where
  "selinux_init = \<lparr>ss_context = fit 256 ''u:r:sys_dom_t:s0'', ss_enforcing = 1\<rparr>"

definition selinux_set_enforcing :: "int \<Rightarrow> selinux_state_t \<Rightarrow> int \<times> selinux_state_t" where
  "selinux_set_enforcing enforcing g =
     (0, g\<lparr>ss_enforcing := (if enforcing \<noteq> 0 then 1 else 0)\<rparr>)"

definition selinux_get_enforcing :: "selinux_state_t \<Rightarrow> int" where
  "selinux_get_enforcing g = ss_enforcing g"

section \<open>Extracting the type of a context\<close>

text \<open>The scan \<open>while (p[n] && p[n] != ':' && n + 1 < out_size) n++;\<close>.\<close>

fun scan_domain :: "string \<Rightarrow> nat \<Rightarrow> nat \<Rightarrow> nat" where
  "scan_domain [] n out_size = n"
| "scan_domain (c # cs) n out_size =
     (if c \<noteq> CHR '':'' \<and> n + 1 < out_size then scan_domain cs (n + 1) out_size else n)"

definition extract_domain :: "string \<Rightarrow> nat \<Rightarrow> string option" where
  "extract_domain ctx out_size =
     (case strstr ctx '':r:'' of
        None \<Rightarrow> None
      | Some q \<Rightarrow>
          let p = drop 3 q; n = scan_domain p 0 out_size in
          if n < length p \<and> p ! n = CHR '':'' then Some (take n p) else None)"

section \<open>Decisions\<close>

text \<open>
  \<open>0\<close> allowed, \<open>1\<close> denied, \<open>-1\<close> error.  A \<open>None\<close> argument is a NULL pointer.  Both branches on
  \<open>g_state.enforcing\<close> return 0, as in the source.
\<close>

fun scan_rules :: "selinux_state_t \<Rightarrow> string \<Rightarrow> string \<Rightarrow> string \<Rightarrow> av_rule_t list \<Rightarrow> int" where
  "scan_rules g domain tclass perm [] = 1"
| "scan_rules g domain tclass perm ((d, c, p) # rs) =
     (if domain = d \<and> tclass = c \<and> perm = p
      then (if ss_enforcing g = 0 then 0 else 0)
      else scan_rules g domain tclass perm rs)"

definition selinux_check ::
  "selinux_state_t \<Rightarrow> string option \<Rightarrow> string option \<Rightarrow> string option \<Rightarrow> string option \<Rightarrow> int" where
  "selinux_check g src_ctx tgt_ctx tclass perm =
     (case (src_ctx, tgt_ctx, tclass, perm) of
        (Some s, Some t, Some c, Some p) \<Rightarrow>
          (case extract_domain s 64 of
             None \<Rightarrow> -1
           | Some domain \<Rightarrow> scan_rules g domain c p allow_rules)
      | _ \<Rightarrow> -1)"

section \<open>Reading and writing a process context\<close>

text \<open>
  \<open>attr\<close> is what reading \<open>/proc/<pid>/attr/current\<close> yields: \<open>None\<close> when \<open>open\<close> or \<open>read\<close> fails.
  At most \<open>ctx_size - 1\<close> bytes are read, and trailing newlines and NULs are stripped.
\<close>

definition strip_tail :: "string \<Rightarrow> string" where
  "strip_tail s = rev (dropWhile (\<lambda>c. c = LF \<or> c = NUL) (rev s))"

definition selinux_get_context :: "string option \<Rightarrow> nat \<Rightarrow> string option" where
  "selinux_get_context attr ctx_size =
     (if ctx_size < 1 then None
      else case attr of
             None \<Rightarrow> None
           | Some bytes \<Rightarrow>
               let got = take (ctx_size - 1) bytes in
               if got = [] then None else Some (cstr (strip_tail got)))"

definition selinux_set_context :: "string option \<Rightarrow> bool \<Rightarrow> (string \<Rightarrow> int) \<Rightarrow> int" where
  "selinux_set_context ctx open_ok written =
     (case ctx of
        None \<Rightarrow> -1
      | Some s \<Rightarrow> if \<not> open_ok then -1 else if written s = int (length s) then 0 else -1)"

section \<open>The policy file and the manager daemon\<close>

text \<open>\<open>st\<close> is the result of \<open>stat\<close> on the policy path: its size, or \<open>None\<close>.\<close>

definition selinux_load_policy :: "string option \<Rightarrow> int option \<Rightarrow> int" where
  "selinux_load_policy policy_path st =
     (case policy_path of
        None \<Rightarrow> -1
      | Some _ \<Rightarrow> (case st of None \<Rightarrow> -1 | Some st_size \<Rightarrow> if st_size \<le> 0 then -1 else 0))"

definition selinux_reload_policy :: int where
  "selinux_reload_policy = 0"

definition load_selinux_policy :: "int option \<Rightarrow> int" where
  "load_selinux_policy st =
     (case st of
        None \<Rightarrow> -1
      | Some _ \<Rightarrow>
          if selinux_load_policy (Some ''/system/backend/etc/selinux/servecosys.pp'') st \<noteq> 0
          then -1 else 0)"

definition reload_policy :: int where
  "reload_policy = (if selinux_reload_policy \<noteq> 0 then -1 else 0)"

definition sed_check_permission ::
  "selinux_state_t \<Rightarrow> string option \<Rightarrow> string option \<Rightarrow> string option \<Rightarrow> string option \<Rightarrow> int" where
  "sed_check_permission g source_context target_context tclass perm =
     (let ret = selinux_check g source_context target_context tclass perm in
      if ret < 0 then -1 else if ret = 0 then 0 else 1)"

text \<open>
  The audit log: \<open>opens\<close> and \<open>streams\<close> are the outcomes of \<open>open\<close> and \<open>fdopen\<close>; a line is appended to
  what the file holds.
\<close>

definition init_audit_log :: "bool \<Rightarrow> bool \<Rightarrow> int \<Rightarrow> string \<Rightarrow> int \<times> string" where
  "init_audit_log opens streams now content =
     (if \<not> opens then (-1, content)
      else if \<not> streams then (-1, content)
      else (0, content @ ''=== SELinux Manager v0.1.0 started at '' @ dec now @ '' ==='' @ [LF]))"

definition print_policy_info :: "selinux_state_t \<Rightarrow> string" where
  "print_policy_info g =
     ''[SED] SELinux mode: '' @ (if ss_enforcing g \<noteq> 0 then ''enforcing'' else ''permissive'') @ [LF]"

text \<open>
  \<open>main\<close> up to its wait loop: the exit status 1 of a failed step, or the running daemon with its
  global state.  \<open>audit_ok\<close> stands for \<open>init_audit_log\<close> returning 0.
\<close>

datatype sed_outcome = Sed_exit int | Sed_running selinux_state_t

definition selinux_manager_main :: "bool \<Rightarrow> int option \<Rightarrow> sed_outcome" where
  "selinux_manager_main audit_ok st =
     (if \<not> audit_ok then Sed_exit 1
      else if load_selinux_policy st \<noteq> 0 then Sed_exit 1
      else Sed_running selinux_init)"

section \<open>Facts about the table and the decision\<close>

lemma scan_rules_eq:
  "scan_rules g d c p rs = (if (d, c, p) \<in> set rs then 0 else 1)"
proof (induction rs)
  case (Cons r rs)
  then show ?case by (cases r) simp
qed simp

lemma scan_domain_bound: "n \<le> scan_domain p n sz \<and> scan_domain p n sz \<le> n + length p"
proof (induction p arbitrary: n)
  case (Cons c p)
  from Cons.IH [of "n + 1"] show ?case by auto
qed simp

lemma scan_domain_colon:
  assumes "CHR '':'' \<notin> set d" "n + length d < sz"
  shows "scan_domain (d @ CHR '':'' # r) n sz = n + length d"
  using assms
proof (induction d arbitrary: n)
  case (Cons c d)
  then have "scan_domain (d @ CHR '':'' # r) (n + 1) sz = n + 1 + length d" by simp
  with Cons.prems show ?case by auto
qed simp

text \<open>A context written \<open>user:r:TYPE:rest\<close> has type \<open>TYPE\<close>.\<close>

definition se_context :: "string \<Rightarrow> string \<Rightarrow> string \<Rightarrow> string" where
  "se_context user domain rest = user @ '':r:'' @ domain @ '':'' @ rest"

lemma extract_domain_se_context:
  assumes "CHR '':'' \<notin> set user" "CHR '':'' \<notin> set domain" "length domain < 64"
  shows "extract_domain (se_context user domain rest) 64 = Some domain"
proof -
  have "strstr (se_context user domain rest) '':r:'' = strstr ('':r:'' @ domain @ '':'' @ rest) '':r:''"
    unfolding se_context_def by (rule strstr_skip) (use assms in simp_all)
  then have s: "strstr (se_context user domain rest) '':r:'' = Some ('':r:'' @ domain @ '':'' @ rest)"
    by simp
  have "scan_domain (domain @ CHR '':'' # rest) 0 64 = length domain"
    using scan_domain_colon [of domain 0 64 rest] assms by simp
  with s show ?thesis by (simp add: extract_domain_def Let_def nth_append)
qed

lemma selinux_check_Some:
  "selinux_check g (Some s) (Some t) (Some c) (Some p) =
     (case extract_domain s 64 of None \<Rightarrow> -1
      | Some d \<Rightarrow> if (d, c, p) \<in> set allow_rules then 0 else 1)"
  by (simp add: selinux_check_def scan_rules_eq split: option.split)

lemma selinux_check_zero:
  "selinux_check g src tgt c p = 0 \<longleftrightarrow>
     (\<exists>s t c' p' d. src = Some s \<and> tgt = Some t \<and> c = Some c' \<and> p = Some p' \<and>
        extract_domain s 64 = Some d \<and> (d, c', p') \<in> set allow_rules)"
  by (auto simp: selinux_check_def scan_rules_eq split: option.splits)

section \<open>Properties\<close>



text \<open>
  Confinement of the application sandbox: whatever the target and the monitor's mode,
  the only requests an \<open>app_sandbox_t\<close> source is granted are \<open>process:getattr\<close>, reading, writing,
  opening and stat-ing files, reading and searching directories, and \<open>unix_dgram_socket:sendto\<close>.
  In particular no network class, no capability and no signal is ever granted.
\<close>

theorem sandbox_confinement:
  assumes "extract_domain s 64 = Some ''app_sandbox_t''"
    and "selinux_check g (Some s) tgt (Some c) (Some p) = 0"
  shows "(c, p) \<in> {(''process'', ''getattr''), (''file'', ''read''), (''file'', ''write''),
                   (''file'', ''open''), (''file'', ''getattr''), (''dir'', ''read''),
                   (''dir'', ''search''), (''unix_dgram_socket'', ''sendto'')}"
proof -
  have "(''app_sandbox_t'', c, p) \<in> set allow_rules"
    using assms by (auto simp: selinux_check_zero)
  then show ?thesis by (simp add: allow_rules_def)
qed

theorem sandbox_confinement_witness:
  "(''file'', ''read'') \<in> {(''process'', ''getattr''), (''file'', ''read''), (''file'', ''write''),
                   (''file'', ''open''), (''file'', ''getattr''), (''dir'', ''read''),
                   (''dir'', ''search''), (''unix_dgram_socket'', ''sendto'')}"
proof (rule sandbox_confinement [of "''u:r:app_sandbox_t:s0''" selinux_init "Some ''t''"])
  show dom: "extract_domain ''u:r:app_sandbox_t:s0'' 64 = Some ''app_sandbox_t''"
    by (simp add: extract_domain_def)
  show "selinux_check selinux_init (Some ''u:r:app_sandbox_t:s0'') (Some ''t'') (Some ''file'')
          (Some ''read'') = 0"
    by (simp add: selinux_check_Some dom, simp add: allow_rules_def)
qed

text \<open>
  The monitor never looks at the target's type nor at its own enforcing flag.  The policy
  \<open>backend/security/servecosys.te\<close>, which the table says it mirrors, has
  \<open>neverallow app_sandbox_t sys_data_t:file *\<close>; the monitor grants that access.
\<close>

theorem selinux_target_blind:
  "selinux_check g src (Some t) c p = selinux_check g' src (Some t') c p \<and>
   selinux_check g (Some ''u:r:app_sandbox_t:s0'') (Some ''u:r:sys_data_t:s0'')
     (Some ''file'') (Some ''write'') = 0"
proof -
  have dom: "extract_domain ''u:r:app_sandbox_t:s0'' 64 = Some ''app_sandbox_t''"
    by (simp add: extract_domain_def)
  have "selinux_check g src (Some t) c p = selinux_check g' src (Some t') c p"
    by (simp add: selinux_check_def scan_rules_eq split: option.split)
  moreover have "selinux_check g (Some ''u:r:app_sandbox_t:s0'') (Some ''u:r:sys_data_t:s0'')
     (Some ''file'') (Some ''write'') = 0"
    by (simp add: selinux_check_Some dom, simp add: allow_rules_def)
  ultimately show ?thesis ..
qed

end
