(* ===== verification/Perm_Ladder.thy ===== *)
theory Perm_Ladder
  imports Prelude
begin

text \<open>
  The permission ladder 0 to 11 and the credential library \<open>backend/deps/perm/perm.c\<close>.
  \<open>perm_level_t\<close> has no negative enumerator, so it is an \<open>unsigned int\<close>: a level is an \<open>int\<close> in
  \<open>[0, 2^32)\<close>, obtained from a C \<open>int\<close> by \<open>to_u32\<close>.
\<close>

type_synonym perm_level_t = int

definition PERM_READONLY :: perm_level_t where "PERM_READONLY = 0"
definition PERM_SANDBOX :: perm_level_t where "PERM_SANDBOX = 1"
definition PERM_USER :: perm_level_t where "PERM_USER = 2"
definition PERM_DEBUG :: perm_level_t where "PERM_DEBUG = 3"
definition PERM_BL_UNLOCK :: perm_level_t where "PERM_BL_UNLOCK = 4"
definition PERM_ROOT_SPLIT :: perm_level_t where "PERM_ROOT_SPLIT = 5"
definition PERM_MODULE_ROOT :: perm_level_t where "PERM_MODULE_ROOT = 6"
definition PERM_KERNEL_ROOT :: perm_level_t where "PERM_KERNEL_ROOT = 7"
definition PERM_SELINUX :: perm_level_t where "PERM_SELINUX = 8"
definition PERM_KMOD_LOAD :: perm_level_t where "PERM_KMOD_LOAD = 9"
definition PERM_CUSTOM_KERNEL :: perm_level_t where "PERM_CUSTOM_KERNEL = 10"
definition PERM_BOOTLOADER :: perm_level_t where "PERM_BOOTLOADER = 11"

lemmas perm_levels =
  PERM_READONLY_def PERM_SANDBOX_def PERM_USER_def PERM_DEBUG_def PERM_BL_UNLOCK_def
  PERM_ROOT_SPLIT_def PERM_MODULE_ROOT_def PERM_KERNEL_ROOT_def PERM_SELINUX_def
  PERM_KMOD_LOAD_def PERM_CUSTOM_KERNEL_def PERM_BOOTLOADER_def

definition level_names :: "string list" where
  "level_names = [''readonly'', ''sandbox'', ''user'', ''debug'', ''bl_unlock'', ''root_split'',
     ''module_root'', ''kernel_root'', ''selinux_control'', ''kmod_load'', ''custom_kernel'',
     ''bootloader'']"

definition perm_level_name :: "perm_level_t \<Rightarrow> string" where
  "perm_level_name level =
     (if level < 0 \<or> level > PERM_BOOTLOADER then ''unknown'' else level_names ! nat level)"

definition perm_check :: "perm_level_t \<Rightarrow> perm_level_t \<Rightarrow> int" where
  "perm_check current required = (if current \<ge> required then 0 else -1)"

record perm_cred_t =
  cr_pid :: pid_t
  cr_level :: perm_level_t
  cr_signed :: int
  cr_self_signed :: int

text \<open>\<open>None\<close> is a NULL \<open>cred\<close>.\<close>

definition perm_cred_init ::
  "perm_cred_t option \<Rightarrow> pid_t \<Rightarrow> perm_level_t \<Rightarrow> int \<times> perm_cred_t option" where
  "perm_cred_init cred pid level =
     (case cred of
        None \<Rightarrow> (-1, None)
      | Some c \<Rightarrow> (0, Some (c\<lparr>cr_pid := pid, cr_level := level, cr_signed := 0, cr_self_signed := 0\<rparr>)))"

definition perm_can_set_level :: "perm_level_t \<Rightarrow> perm_level_t \<Rightarrow> int \<Rightarrow> int" where
  "perm_can_set_level current target is_self_signed =
     (if target \<le> current then 1
      else if target = PERM_SELINUX \<or> target = PERM_BOOTLOADER then 1
      else if target \<le> PERM_DEBUG then 1
      else if target \<le> PERM_ROOT_SPLIT \<and> is_self_signed \<noteq> 0 then 1
      else 0)"

definition perm_cred_set_level ::
  "perm_cred_t option \<Rightarrow> perm_level_t \<Rightarrow> int \<times> perm_cred_t option" where
  "perm_cred_set_level cred level =
     (case cred of
        None \<Rightarrow> (-1, None)
      | Some c \<Rightarrow>
          if level > PERM_BOOTLOADER then (-1, Some c)
          else if perm_can_set_level (cr_level c) level (cr_self_signed c) = 0 then (-1, Some c)
          else (0, Some (c\<lparr>cr_level := level\<rparr>)))"

definition perm_cred_get_level :: "perm_cred_t option \<Rightarrow> perm_level_t" where
  "perm_cred_get_level cred = (case cred of Some c \<Rightarrow> cr_level c | None \<Rightarrow> PERM_SANDBOX)"

text \<open>Folding \<open>perm_cred_set_level\<close> over a list of requested levels.\<close>

fun set_levels :: "perm_cred_t \<Rightarrow> perm_level_t list \<Rightarrow> perm_cred_t" where
  "set_levels c [] = c"
| "set_levels c (l # ls) =
     (case perm_cred_set_level (Some c) l of
        (_, Some c') \<Rightarrow> set_levels c' ls
      | (_, None) \<Rightarrow> c)"

lemma perm_can_set_level_bool: "perm_can_set_level a b s = 0 \<or> perm_can_set_level a b s = 1"
  by (simp add: perm_can_set_level_def)

lemma set_level_other:
  "perm_cred_set_level (Some c) l = (r, Some c') \<Longrightarrow>
   cr_pid c' = cr_pid c \<and> cr_signed c' = cr_signed c \<and> cr_self_signed c' = cr_self_signed c \<and>
   (r = 0 \<longrightarrow> cr_level c' = l) \<and> (r \<noteq> 0 \<longrightarrow> c' = c)"
  by (auto simp: perm_cred_set_level_def split: if_splits)

lemma set_levels_frame:
  "cr_level c \<le> 11 \<Longrightarrow> cr_level (set_levels c ls) \<le> 11 \<and>
   cr_self_signed (set_levels c ls) = cr_self_signed c \<and> cr_pid (set_levels c ls) = cr_pid c"
proof (induction ls arbitrary: c)
  case (Cons l ls)
  show ?case
  proof (cases "perm_cred_set_level (Some c) l")
    case (Pair r d)
    then obtain c' where d: "d = Some c'"
      by (auto simp: perm_cred_set_level_def split: if_splits)
    have "cr_level c' \<le> 11"
      using Pair Cons.prems d by (auto simp: perm_cred_set_level_def perm_levels split: if_splits)
    from Cons.IH [OF this] Pair d set_level_other [of c l r c'] show ?thesis by simp
  qed
qed simp

section \<open>Properties\<close>

text \<open>
  Which levels one call of the credential library reaches: a level above the current one
  is granted exactly when it is at most \<open>debug\<close>, one of the two sovereign levels 8 and 11, or, for a
  self-signed credential, at most \<open>root_split\<close>.  Everything else is refused and leaves the
  credential alone.
\<close>

theorem perm_cred_set_level_raise:
  assumes "cr_level c < l"
  shows "perm_cred_set_level (Some c) l =
           (if l \<le> 3 \<or> l = 8 \<or> l = 11 \<or> (l \<le> 5 \<and> cr_self_signed c \<noteq> 0)
            then (0, Some (c\<lparr>cr_level := l\<rparr>)) else (-1, Some c))"
  using assms by (auto simp: perm_cred_set_level_def perm_can_set_level_def perm_levels)

theorem perm_cred_set_level_raise_witness:
  "perm_cred_set_level (Some \<lparr>cr_pid = 7, cr_level = 1, cr_signed = 0, cr_self_signed = 0\<rparr>) 6 =
     (-1, Some \<lparr>cr_pid = 7, cr_level = 1, cr_signed = 0, cr_self_signed = 0\<rparr>)"
  using perm_cred_set_level_raise
    [of "\<lparr>cr_pid = 7, cr_level = 1, cr_signed = 0, cr_self_signed = 0\<rparr>" 6]
  by simp

text \<open>
  The signature rule of the credential library can be walked around: because level 11 is
  granted to anyone and going down is free, any credential reaches any level of the ladder in two
  calls, whether or not it is signed.
\<close>

theorem perm_ladder_bypass:
  assumes "cr_level c \<le> 11" "0 \<le> l" "l \<le> 11"
  shows "cr_level (set_levels c [11, l]) = l \<and> cr_signed (set_levels c [11, l]) = cr_signed c"
  using assms by (auto simp: perm_cred_set_level_def perm_can_set_level_def perm_levels)

theorem perm_ladder_bypass_witness:
  "cr_level (set_levels \<lparr>cr_pid = 7, cr_level = 1, cr_signed = 0, cr_self_signed = 0\<rparr> [11, 7]) = 7 \<and>
   perm_can_set_level 1 7 0 = 0"
  using perm_ladder_bypass [of "\<lparr>cr_pid = 7, cr_level = 1, cr_signed = 0, cr_self_signed = 0\<rparr>" 7]
  by (simp add: perm_can_set_level_def perm_levels)

end
