(* ===== verification/Arbiter.thy ===== *)
theory Arbiter
  imports Selinux Perm_Ladder
begin

text \<open>
  The permission adjudication service \<open>backend/sub_kernel/permission_arbiter.c\<close>.  Its state is the
  process table (\<open>proc_table\<close> up to \<open>proc_count\<close>) and the registered manager.  What the kernel
  answers is a parameter \<open>os_view\<close>: the outcome of \<open>kill(pid, 0)\<close> and the contents of
  \<open>/proc/<pid>/attr/current\<close>.  Messages to \<open>stdout\<close> are not modelled; the \<open>reason\<close> text of a
  response is.
\<close>

section \<open>Data\<close>

datatype kill_result = Kill_ok | Kill_eperm | Kill_esrch

record os_view =
  kill0 :: "pid_t \<Rightarrow> kill_result"
  attr_current :: "pid_t \<Rightarrow> string option"

definition MAX_REQUESTS :: nat where "MAX_REQUESTS = 1024"

datatype request_type_t =
    REQ_CHECK_PERM | REQ_GET_LEVEL | REQ_SET_LEVEL | REQ_QUERY_CAP
  | REQ_REGISTER_MANAGER | REQ_AUTHORIZE

definition request_types :: "request_type_t list" where
  "request_types =
     [REQ_CHECK_PERM, REQ_GET_LEVEL, REQ_SET_LEVEL, REQ_QUERY_CAP, REQ_REGISTER_MANAGER,
      REQ_AUTHORIZE]"

text \<open>The \<open>type\<close> field arrives as raw bytes: any other code reaches the \<open>default\<close> branch.\<close>

definition request_type_of :: "int \<Rightarrow> request_type_t option" where
  "request_type_of code =
     (if 0 \<le> code \<and> code < 6 then Some (request_types ! nat code) else None)"

record perm_request_t =
  rq_type :: int
  rq_pid :: pid_t
  rq_target_level :: int
  rq_capability :: string
  rq_resource :: string
  rq_request_id :: int

record perm_response_t =
  rs_status :: int
  rs_current_level :: int
  rs_request_id :: int
  rs_reason :: string

record proc_cred_t =
  pc_pid :: pid_t
  pc_level :: perm_level_t
  pc_context :: string
  pc_signed :: int
  pc_self_signed :: int
  pc_cap :: perm_level_t

record arbiter_t =
  proc_table :: "proc_cred_t list"
  manager_pid :: pid_t

definition arbiter_init :: arbiter_t where
  "arbiter_init = \<lparr>proc_table = [], manager_pid = -1\<rparr>"

text \<open>The arbiter never calls \<open>selinux_init\<close>: its copy of \<open>g_state\<close> is the zeroed static.\<close>

definition arb_monitor :: selinux_state_t where
  "arb_monitor = \<lparr>ss_context = [], ss_enforcing = 0\<rparr>"

definition arb_level_name :: "perm_level_t \<Rightarrow> string" where
  "arb_level_name level =
     (if level = 0 then ''readonly'' else if level = 1 then ''sandbox''
      else if level = 2 then ''user'' else if level = 3 then ''debug''
      else if level = 4 then ''bl_unlock'' else if level = 5 then ''root_split''
      else if level = 6 then ''module_root'' else if level = 7 then ''kernel_root''
      else if level = 8 then ''selinux_control'' else if level = 9 then ''kmod_load''
      else if level = 10 then ''custom_kernel'' else if level = 11 then ''bootloader''
      else ''unknown'')"

section \<open>The process table\<close>

definition find_process :: "pid_t \<Rightarrow> arbiter_t \<Rightarrow> nat option" where
  "find_process pid st = index_of (\<lambda>e. pc_pid e = pid) (proc_table st)"

definition update_entry :: "nat \<Rightarrow> (proc_cred_t \<Rightarrow> proc_cred_t) \<Rightarrow> arbiter_t \<Rightarrow> arbiter_t" where
  "update_entry i f st = st\<lparr>proc_table := (proc_table st)[i := f (proc_table st ! i)]\<rparr>"

definition context_of :: "os_view \<Rightarrow> pid_t \<Rightarrow> string" where
  "context_of os pid =
     (case selinux_get_context (attr_current os pid) 256 of
        Some ctx \<Rightarrow> ctx
      | None \<Rightarrow> fit 256 ''u:r:app_sandbox_t:s0'')"

definition register_process ::
  "os_view \<Rightarrow> pid_t \<Rightarrow> perm_level_t \<Rightarrow> arbiter_t \<Rightarrow> nat option \<times> arbiter_t" where
  "register_process os pid level st =
     (case find_process pid st of
        Some i \<Rightarrow> (Some i, update_entry i (\<lambda>e. e\<lparr>pc_level := level\<rparr>) st)
      | None \<Rightarrow>
          if length (proc_table st) \<ge> MAX_REQUESTS then (None, st)
          else (Some (length (proc_table st)),
                st\<lparr>proc_table := proc_table st @
                  [\<lparr>pc_pid = pid, pc_level = level, pc_context = context_of os pid,
                    pc_signed = 0, pc_self_signed = 0, pc_cap = PERM_READONLY\<rparr>]\<rparr>))"

text \<open>\<open>cred\<close> is what \<open>getsockopt(SO_PEERCRED)\<close> returns, \<open>None\<close> on failure.\<close>

definition get_peer_pid :: "pid_t option \<Rightarrow> pid_t" where
  "get_peer_pid cred =
     (case cred of None \<Rightarrow> -1 | Some pid \<Rightarrow> if pid = 0 then -1 else pid)"

definition process_alive :: "os_view \<Rightarrow> pid_t \<Rightarrow> bool" where
  "process_alive os pid = (kill0 os pid = Kill_ok \<or> kill0 os pid = Kill_eperm)"

text \<open>The loop of \<open>reap_dead_processes\<close>, with the index that advances only past live entries.\<close>

function reap_loop :: "os_view \<Rightarrow> nat \<Rightarrow> proc_cred_t list \<Rightarrow> proc_cred_t list" where
  "reap_loop os i tab =
     (if i < length tab then
        (let pid = pc_pid (tab ! i) in
         if pid > 0 \<and> process_alive os pid then reap_loop os (Suc i) tab
         else reap_loop os i (remove_at i tab))
      else tab)"
  by pat_completeness auto
termination
  by (relation "measure (\<lambda>(os, i, tab). length tab - i)") (auto simp: remove_at_def)

declare reap_loop.simps [simp del]

definition reap_dead_processes :: "os_view \<Rightarrow> arbiter_t \<Rightarrow> arbiter_t" where
  "reap_dead_processes os st = st\<lparr>proc_table := reap_loop os 0 (proc_table st)\<rparr>"

definition get_process_level :: "pid_t \<Rightarrow> arbiter_t \<Rightarrow> perm_level_t" where
  "get_process_level pid st =
     (case find_process pid st of Some i \<Rightarrow> pc_level (proc_table st ! i) | None \<Rightarrow> PERM_SANDBOX)"

definition check_permission :: "pid_t \<Rightarrow> perm_level_t \<Rightarrow> arbiter_t \<Rightarrow> int" where
  "check_permission pid required st =
     (if get_process_level pid st \<ge> required then 0 else -1)"

definition is_signed_by_official :: "pid_t \<Rightarrow> arbiter_t \<Rightarrow> bool" where
  "is_signed_by_official pid st =
     (case find_process pid st of
        Some i \<Rightarrow> pc_signed (proc_table st ! i) \<noteq> 0 \<and> pc_self_signed (proc_table st ! i) = 0
      | None \<Rightarrow> False)"

section \<open>The operations\<close>

text \<open>The code after the label \<open>apply\<close>.\<close>

definition apply_level ::
  "os_view \<Rightarrow> pid_t \<Rightarrow> perm_level_t \<Rightarrow> arbiter_t \<Rightarrow> int \<times> arbiter_t" where
  "apply_level os pid new_level st =
     (case register_process os pid new_level st of
        (Some i, st') \<Rightarrow> (0, update_entry i (\<lambda>e. e\<lparr>pc_level := new_level\<rparr>) st')
      | (None, st') \<Rightarrow> (-1, st'))"

definition set_process_level ::
  "os_view \<Rightarrow> pid_t \<Rightarrow> perm_level_t \<Rightarrow> pid_t \<Rightarrow> arbiter_t \<Rightarrow> int \<times> arbiter_t" where
  "set_process_level os pid new_level peer_pid st =
     (if new_level > PERM_BOOTLOADER \<or> new_level < PERM_READONLY then (-1, st)
      else if peer_pid \<noteq> pid then (-1, st)
      else if new_level \<le> get_process_level pid st then apply_level os pid new_level st
      else case find_process pid st of
        None \<Rightarrow> (-1, st)
      | Some idx \<Rightarrow>
          if new_level > pc_cap (proc_table st ! idx) then (-1, st)
          else if new_level > PERM_DEBUG \<and> new_level < PERM_SELINUX \<and>
                  \<not> is_signed_by_official pid st then (-1, st)
          else if selinux_check arb_monitor (Some (pc_context (proc_table st ! idx)))
                    (Some (pc_context (proc_table st ! idx))) (Some ''process'') (Some ''signal'') \<noteq> 0
               then (-1, st)
          else apply_level os pid new_level st)"

definition register_manager :: "os_view \<Rightarrow> pid_t \<Rightarrow> arbiter_t \<Rightarrow> int \<times> arbiter_t" where
  "register_manager os peer_pid st =
     (if manager_pid st \<ge> 0 \<and> process_alive os (manager_pid st) then (-1, st)
      else (0, st\<lparr>manager_pid := peer_pid\<rparr>))"

definition authorize_process ::
  "os_view \<Rightarrow> pid_t \<Rightarrow> perm_level_t \<Rightarrow> pid_t \<Rightarrow> arbiter_t \<Rightarrow> int \<times> arbiter_t" where
  "authorize_process os target_pid cap peer_pid st =
     (if peer_pid \<noteq> manager_pid st then (-1, st)
      else if cap > PERM_BOOTLOADER \<or> cap < PERM_READONLY then (-1, st)
      else case find_process target_pid st of
        Some idx \<Rightarrow> (0, update_entry idx (\<lambda>e. e\<lparr>pc_cap := cap\<rparr>) st)
      | None \<Rightarrow>
          (case register_process os target_pid PERM_USER st of
             (None, st') \<Rightarrow> (-1, st')
           | (Some idx, st') \<Rightarrow> (0, update_entry idx (\<lambda>e. e\<lparr>pc_cap := cap\<rparr>) st')))"

section \<open>Requests\<close>

definition response :: "int \<Rightarrow> int \<Rightarrow> int \<Rightarrow> string \<Rightarrow> perm_response_t" where
  "response status level rid text =
     \<lparr>rs_status = status, rs_current_level = level, rs_request_id = rid, rs_reason = fit 128 text\<rparr>"

definition may_query :: "perm_request_t \<Rightarrow> pid_t \<Rightarrow> arbiter_t \<Rightarrow> bool" where
  "may_query req peer_pid st = (peer_pid = rq_pid req \<or> peer_pid = manager_pid st)"

definition query_denied :: "perm_request_t \<Rightarrow> pid_t \<Rightarrow> perm_response_t" where
  "query_denied req peer_pid =
     response (-1) 0 (rq_request_id req)
       (''denied (may only query self, PID '' @ dec peer_pid @ '')'')"

definition handle_check :: "perm_request_t \<Rightarrow> arbiter_t \<Rightarrow> perm_response_t" where
  "handle_check req st =
     (let lvl = to_s32 (get_process_level (rq_pid req) st); rid = rq_request_id req in
      if check_permission (rq_pid req) (to_u32 (rq_target_level req)) st = 0 then
        response 0 0 rid (''granted (PID '' @ dec (rq_pid req) @ '' has level '' @ dec lvl @
          '' >= '' @ dec (rq_target_level req) @ '')'')
      else
        response (-1) 0 rid (''denied (PID '' @ dec (rq_pid req) @ '' level '' @ dec lvl @
          '' < '' @ dec (rq_target_level req) @ '')''))"

definition handle_get_level :: "perm_request_t \<Rightarrow> arbiter_t \<Rightarrow> perm_response_t" where
  "handle_get_level req st =
     (let lvl = to_s32 (get_process_level (rq_pid req) st) in
      response 0 lvl (rq_request_id req) (''current level: '' @ dec lvl))"

definition handle_set_level ::
  "os_view \<Rightarrow> perm_request_t \<Rightarrow> pid_t \<Rightarrow> arbiter_t \<Rightarrow> perm_response_t \<times> arbiter_t" where
  "handle_set_level os req peer_pid st =
     (let tl = rq_target_level req; rid = rq_request_id req;
          (r, st') = set_process_level os (rq_pid req) (to_u32 tl) peer_pid st in
      if r = 0 then
        (response 0 tl rid (''level set to '' @ dec tl @ '' ('' @ arb_level_name (to_u32 tl) @ '')''), st')
      else (response (-1) 0 rid (''failed to set level to '' @ dec tl), st'))"

definition handle_register_manager ::
  "os_view \<Rightarrow> perm_request_t \<Rightarrow> pid_t \<Rightarrow> arbiter_t \<Rightarrow> perm_response_t \<times> arbiter_t" where
  "handle_register_manager os req peer_pid st =
     (let (r, st') = register_manager os peer_pid st in
      (response (if r = 0 then 0 else -1) (to_s32 (get_process_level (rq_pid req) st'))
         (rq_request_id req)
         (if r = 0 then ''manager registered'' else ''manager already registered''), st'))"

definition handle_authorize ::
  "os_view \<Rightarrow> perm_request_t \<Rightarrow> pid_t \<Rightarrow> arbiter_t \<Rightarrow> perm_response_t \<times> arbiter_t" where
  "handle_authorize os req peer_pid st =
     (let (r, st') =
        authorize_process os (rq_pid req) (to_u32 (rq_target_level req)) peer_pid st in
      (response (if r = 0 then 0 else -1) 0 (rq_request_id req)
         (if r = 0 then ''process authorized up to level '' @ dec (rq_target_level req)
          else ''authorization denied''), st'))"

definition handle_request ::
  "os_view \<Rightarrow> perm_request_t \<Rightarrow> pid_t \<Rightarrow> arbiter_t \<Rightarrow> perm_response_t \<times> arbiter_t" where
  "handle_request os req peer_pid st =
     (case request_type_of (rq_type req) of
        Some REQ_CHECK_PERM \<Rightarrow>
          (if may_query req peer_pid st then (handle_check req st, st)
           else (query_denied req peer_pid, st))
      | Some REQ_GET_LEVEL \<Rightarrow>
          (if may_query req peer_pid st then (handle_get_level req st, st)
           else (query_denied req peer_pid, st))
      | Some REQ_SET_LEVEL \<Rightarrow> handle_set_level os req peer_pid st
      | Some REQ_REGISTER_MANAGER \<Rightarrow> handle_register_manager os req peer_pid st
      | Some REQ_AUTHORIZE \<Rightarrow> handle_authorize os req peer_pid st
      | _ \<Rightarrow> (response (-1) 0 (rq_request_id req) ''unknown request type'', st))"

text \<open>
  One iteration of the accept loop.  \<open>got\<close> is the request when the read loop filled it, \<open>None\<close> on a
  short read; \<open>cred\<close> is what \<open>SO_PEERCRED\<close> reports for the client.
\<close>

definition serve_client ::
  "os_view \<Rightarrow> perm_request_t option \<Rightarrow> pid_t option \<Rightarrow> arbiter_t \<Rightarrow>
   perm_response_t option \<times> arbiter_t" where
  "serve_client os got cred st =
     (case got of
        None \<Rightarrow> (None, st)
      | Some req \<Rightarrow>
          let (resp, st') = handle_request os req (get_peer_pid cred) (reap_dead_processes os st) in
          (Some resp, st'))"

text \<open>What \<open>main\<close> does before the loop: the arbiter registers itself at level 8.\<close>

definition arbiter_start :: "os_view \<Rightarrow> pid_t \<Rightarrow> arbiter_t" where
  "arbiter_start os self = snd (register_process os self PERM_SELINUX arbiter_init)"

end
