(* ===== verification/Privilege_Service.thy ===== *)
theory Privilege_Service
  imports Prelude
begin

text \<open>
  The contract between the permission arbiter and everyone who relies on its ladder: a service with
  a state, a step per served client, a level and an authorisation cap per process, and a ghost
  function that says which authorisation a step makes.  The laws are one-step laws; the lemmas say
  what they give for whole executions.
\<close>

text \<open>The ghost log of the authorisations made along an execution.\<close>

fun grant_log ::
  "('ev \<Rightarrow> 's \<Rightarrow> (pid_t \<times> int) option) \<Rightarrow> ('ev \<Rightarrow> 's \<Rightarrow> 's) \<Rightarrow> 's \<Rightarrow> 'ev list \<Rightarrow> (pid_t \<times> int) list" where
  "grant_log gr step s [] = []"
| "grant_log gr step s (ev # evs) =
     (case gr ev s of None \<Rightarrow> [] | Some g \<Rightarrow> [g]) @ grant_log gr step (step ev s) evs"

lemma grant_log_append:
  "grant_log gr step s (xs @ ys) = grant_log gr step s xs @ grant_log gr step (fold step xs s) ys"
  by (induction xs arbitrary: s) simp_all

lemma grant_log_event: "g \<in> set (grant_log gr step s evs) \<Longrightarrow> \<exists>ev \<in> set evs. \<exists>t. gr ev t = Some g"
  by (induction evs arbitrary: s) (auto split: option.splits)

locale privilege_service =
  fixes step :: "'ev \<Rightarrow> 's \<Rightarrow> 's"
    and grant_of :: "'ev \<Rightarrow> 's \<Rightarrow> (pid_t \<times> int) option"
    and level_of :: "pid_t \<Rightarrow> 's \<Rightarrow> int"
    and cap_of :: "pid_t \<Rightarrow> 's \<Rightarrow> int"
    and base :: int
    and inv :: "'s \<Rightarrow> bool"
  assumes inv_step: "inv s \<Longrightarrow> inv (step ev s)"
    and raise_law: "inv s \<Longrightarrow>
      level_of p (step ev s) \<le> base \<or> level_of p (step ev s) \<le> level_of p s \<or>
      level_of p (step ev s) \<le> cap_of p s"
    and cap_law: "inv s \<Longrightarrow>
      cap_of p (step ev s) \<le> 0 \<or> cap_of p (step ev s) = cap_of p s \<or>
      grant_of ev s = Some (p, cap_of p (step ev s))"
begin

lemma inv_run: "inv s \<Longrightarrow> inv (fold step evs s)"
  by (induction evs arbitrary: s) (auto intro: inv_step)

text \<open>
  A level above the base is at most the initial level, the initial cap or a cap some authorisation
  of the run granted to that very process.
\<close>

lemma run_level_authorised:
  "inv s \<Longrightarrow>
   level_of p (fold step evs s) \<le> max (max base 0) (max (level_of p s) (cap_of p s)) \<or>
   (\<exists>c. (p, c) \<in> set (grant_log grant_of step s evs) \<and> level_of p (fold step evs s) \<le> c)"
proof (induction evs arbitrary: s)
  case (Cons ev evs)
  let ?t = "step ev s"
  have inv': "inv ?t" using Cons.prems by (rule inv_step)
  have raise: "level_of p ?t \<le> base \<or> level_of p ?t \<le> level_of p s \<or> level_of p ?t \<le> cap_of p s"
    using Cons.prems by (rule raise_law)
  have cap: "cap_of p ?t \<le> 0 \<or> cap_of p ?t = cap_of p s \<or> grant_of ev s = Some (p, cap_of p ?t)"
    using Cons.prems by (rule cap_law)
  from Cons.IH [OF inv'] show ?case
  proof
    assume le: "level_of p (fold step evs ?t) \<le> max (max base 0) (max (level_of p ?t) (cap_of p ?t))"
    show ?case
    proof (cases "grant_of ev s = Some (p, cap_of p ?t)")
      case True
      then have mem: "(p, cap_of p ?t) \<in> set (grant_log grant_of step s (ev # evs))" by simp
      show ?thesis
      proof (cases "level_of p (fold step evs ?t) \<le> cap_of p ?t")
        case True
        with mem show ?thesis by auto
      next
        case False
        with le raise show ?thesis by auto
      qed
    next
      case False
      with le raise cap show ?thesis by auto
    qed
  next
    assume "\<exists>c. (p, c) \<in> set (grant_log grant_of step ?t evs) \<and> level_of p (fold step evs ?t) \<le> c"
    then show ?case by auto
  qed
qed simp

text \<open>With no authorisation for \<open>p\<close> in the run, \<open>p\<close> never climbs above where it may start.\<close>

lemma run_without_grant:
  "inv s \<Longrightarrow> \<forall>c. (p, c) \<notin> set (grant_log grant_of step s evs) \<Longrightarrow>
   level_of p (fold step evs s) \<le> max (max base 0) (max (level_of p s) (cap_of p s))"
  using run_level_authorised by blast

text \<open>Nor does its cap rise.\<close>

lemma run_cap_without_grant:
  "inv s \<Longrightarrow> \<forall>c. (p, c) \<notin> set (grant_log grant_of step s evs) \<Longrightarrow> cap_of p (fold step evs s) \<le> max 0 (cap_of p s)"
proof (induction evs arbitrary: s)
  case (Cons ev evs)
  let ?t = "step ev s"
  have "grant_of ev s \<noteq> Some (p, cap_of p ?t)" using Cons.prems(2) by auto
  with cap_law [OF Cons.prems(1), of p ev] have "cap_of p ?t \<le> max 0 (cap_of p s)" by auto
  moreover have "cap_of p (fold step evs ?t) \<le> max 0 (cap_of p ?t)"
    using Cons.IH [OF inv_step [OF Cons.prems(1)]] Cons.prems(2) by simp
  ultimately show ?case by simp
qed simp

end

end
