(* ===== verification/Arbiter_Facts.thy ===== *)
theory Arbiter_Facts
  imports Arbiter Privilege_Service
begin

text \<open>
  The arbiter's table as a map from process ids to entries, the map each operation computes, the
  table invariant, and the service contract \<open>privilege_service\<close> discharged for the arbiter.
\<close>

named_theorems arb_map

section \<open>Reaping is a filter\<close>

definition live_entry :: "os_view \<Rightarrow> proc_cred_t \<Rightarrow> bool" where
  "live_entry os e = (pc_pid e > 0 \<and> process_alive os (pc_pid e))"

lemma reap_loop_filter:
  "i \<le> length tab \<Longrightarrow> reap_loop os i tab = take i tab @ filter (live_entry os) (drop i tab)"
proof (induction os i tab rule: reap_loop.induct)
  case (1 os i tab)
  show ?case
  proof (cases "i < length tab")
    case True
    then have d: "drop i tab = tab ! i # drop (Suc i) tab" by (rule Cons_nth_drop_Suc [symmetric])
    show ?thesis
    proof (cases "live_entry os (tab ! i)")
      case live: True
      then have c: "pc_pid (tab ! i) > 0" "process_alive os (pc_pid (tab ! i))"
        by (simp_all add: live_entry_def)
      with True 1(1) have "reap_loop os (Suc i) tab =
          take (Suc i) tab @ filter (live_entry os) (drop (Suc i) tab)"
        by simp
      with True live c d show ?thesis
        by (simp add: reap_loop.simps [of os i tab] take_Suc_conv_app_nth)
    next
      case dead: False
      then have c: "\<not> (pc_pid (tab ! i) > 0 \<and> process_alive os (pc_pid (tab ! i)))"
        by (simp add: live_entry_def)
      have r: "drop i (remove_at i tab) = drop (Suc i) tab" "take i (remove_at i tab) = take i tab"
          "i \<le> length (remove_at i tab)"
        using True by (simp_all add: remove_at_def)
      with True c 1(2) have "reap_loop os i (remove_at i tab) =
          take i tab @ filter (live_entry os) (drop (Suc i) tab)"
        by simp
      moreover have "reap_loop os i tab = reap_loop os i (remove_at i tab)"
        by (subst reap_loop.simps) (use True c in \<open>auto simp: Let_def\<close>)
      ultimately show ?thesis using dead d by simp
    qed
  next
    case False
    with "1.prems" show ?thesis by (subst reap_loop.simps) simp
  qed
qed

lemma reap_table: "proc_table (reap_dead_processes os st) = filter (live_entry os) (proc_table st)"
  by (simp add: reap_dead_processes_def reap_loop_filter)

lemma reap_manager [simp]: "manager_pid (reap_dead_processes os st) = manager_pid st"
  by (simp add: reap_dead_processes_def)

section \<open>The table as a map\<close>

definition creds :: "arbiter_t \<Rightarrow> pid_t \<rightharpoonup> proc_cred_t" where
  "creds st pid = map_option (\<lambda>i. proc_table st ! i) (find_process pid st)"

lemma find_None_creds: "find_process pid st = None \<longleftrightarrow> creds st pid = None"
  by (simp add: creds_def)

lemma find_Some_creds:
  "find_process pid st = Some i \<Longrightarrow> creds st pid = Some (proc_table st ! i) \<and>
     i < length (proc_table st) \<and> pc_pid (proc_table st ! i) = pid"
  by (auto simp: creds_def find_process_def dest: index_of_SomeD)

lemma creds_pid: "creds st pid = Some e \<Longrightarrow> pc_pid e = pid \<and> e \<in> set (proc_table st)"
  by (auto simp: creds_def find_process_def dest: index_of_SomeD index_of_mem)

lemma dom_creds: "dom (creds st) = pc_pid ` set (proc_table st)"
  by (auto simp: dom_def creds_def find_process_def index_of_None image_iff
      dest!: index_of_SomeD intro: nth_mem)

lemma creds_mem:
  "distinct (map pc_pid (proc_table st)) \<Longrightarrow> e \<in> set (proc_table st) \<Longrightarrow> creds st (pc_pid e) = Some e"
  by (auto simp: creds_def find_process_def in_set_conv_nth index_of_unique)

lemma creds_manager [simp]: "creds (st\<lparr>manager_pid := m\<rparr>) = creds st"
  by (simp add: creds_def find_process_def fun_eq_iff)

lemma creds_update_entry [arb_map]:
  assumes i: "find_process pid st = Some i" and keep: "\<And>e. pc_pid (f e) = pc_pid e"
  shows "creds (update_entry i f st) = (creds st)(pid := map_option f (creds st pid))"
proof
  fix q
  have il: "i < length (proc_table st)" "pc_pid (proc_table st ! i) = pid"
    using find_Some_creds [OF i] by auto
  have find: "find_process q (update_entry i f st) = find_process q st"
    unfolding find_process_def update_entry_def
    by (simp add: index_of_key_update il(1) keep)
  show "creds (update_entry i f st) q = ((creds st)(pid := map_option f (creds st pid))) q"
  proof (cases "q = pid")
    case True
    with i find il show ?thesis by (simp add: creds_def update_entry_def)
  next
    case False
    show ?thesis
    proof (cases "find_process q st")
      case (Some j)
      with find_Some_creds [OF Some] il(2) False have "j \<noteq> i" by auto
      with Some find False show ?thesis by (simp add: creds_def update_entry_def)
    qed (use find False in \<open>simp add: creds_def\<close>)
  qed
qed

lemma update_entry_manager [simp]: "manager_pid (update_entry i f st) = manager_pid st"
  by (simp add: update_entry_def)

lemma find_update_entry:
  assumes "find_process pid st = Some i" "\<And>e. pc_pid (f e) = pc_pid e"
  shows "find_process q (update_entry i f st) = find_process q st"
  using assms find_Some_creds [OF assms(1)]
  by (simp add: find_process_def update_entry_def index_of_key_update)

lemma creds_append [arb_map]:
  "creds st (pc_pid e) = None \<Longrightarrow>
   creds (st\<lparr>proc_table := proc_table st @ [e]\<rparr>) = (creds st)(pc_pid e \<mapsto> e)"
proof
  fix q
  assume "creds st (pc_pid e) = None"
  then have none: "find_process (pc_pid e) st = None" by (simp add: find_None_creds)
  show "creds (st\<lparr>proc_table := proc_table st @ [e]\<rparr>) q = ((creds st)(pc_pid e \<mapsto> e)) q"
  proof (cases "q = pc_pid e")
    case True
    with none show ?thesis
      by (simp add: creds_def find_process_def index_of_None index_of_append_fresh)
  next
    case False
    then have "find_process q (st\<lparr>proc_table := proc_table st @ [e]\<rparr>) = find_process q st"
      by (simp add: find_process_def index_of_append_other)
    moreover have "find_process q st = Some i \<Longrightarrow> (proc_table st @ [e]) ! i = proc_table st ! i" for i
      by (drule find_Some_creds) (simp add: nth_append)
    ultimately show ?thesis using False by (cases "find_process q st") (simp_all add: creds_def)
  qed
qed

lemma creds_reap:
  assumes "distinct (map pc_pid (proc_table st))"
  shows "creds (reap_dead_processes os st) pid =
           (case creds st pid of None \<Rightarrow> None | Some e \<Rightarrow> if live_entry os e then Some e else None)"
proof (cases "creds st pid")
  case None
  then have "pid \<notin> pc_pid ` set (proc_table st)" by (simp add: domIff flip: dom_creds)
  then have "pid \<notin> dom (creds (reap_dead_processes os st))" by (auto simp: dom_creds reap_table)
  with None show ?thesis by (simp add: domIff)
next
  case (Some e)
  have e: "pc_pid e = pid" "e \<in> set (proc_table st)" using creds_pid [OF Some] by auto
  have dist: "distinct (map pc_pid (proc_table (reap_dead_processes os st)))"
    using assms by (simp add: reap_table distinct_map_filter)
  show ?thesis
  proof (cases "live_entry os e")
    case True
    with e have "e \<in> set (proc_table (reap_dead_processes os st))" by (simp add: reap_table)
    from creds_mem [OF dist this] e Some True show ?thesis by simp
  next
    case False
    have "pid \<notin> dom (creds (reap_dead_processes os st))"
    proof
      assume "pid \<in> dom (creds (reap_dead_processes os st))"
      then obtain d where d: "d \<in> set (proc_table st)" "live_entry os d" "pc_pid d = pid"
        by (auto simp: dom_creds reap_table)
      from creds_mem [OF assms d(1)] d(3) Some have "d = e" by simp
      with d False show False by simp
    qed
    with False Some show ?thesis by (simp add: domIff)
  qed
qed

section \<open>What each operation does to the map\<close>

lemma get_process_level_creds:
  "get_process_level pid st =
     (case creds st pid of Some e \<Rightarrow> pc_level e | None \<Rightarrow> PERM_SANDBOX)"
  by (simp add: get_process_level_def creds_def split: option.split)

lemma is_signed_creds:
  "is_signed_by_official pid st =
     (case creds st pid of Some e \<Rightarrow> pc_signed e \<noteq> 0 \<and> pc_self_signed e = 0 | None \<Rightarrow> False)"
  by (simp add: is_signed_by_official_def creds_def split: option.split)

definition fresh_entry :: "os_view \<Rightarrow> pid_t \<Rightarrow> perm_level_t \<Rightarrow> proc_cred_t" where
  "fresh_entry os pid level =
     \<lparr>pc_pid = pid, pc_level = level, pc_context = context_of os pid,
      pc_signed = 0, pc_self_signed = 0, pc_cap = 0\<rparr>"

definition has_room :: "arbiter_t \<Rightarrow> pid_t \<Rightarrow> bool" where
  "has_room st pid = (creds st pid \<noteq> None \<or> length (proc_table st) < MAX_REQUESTS)"

definition put_level :: "os_view \<Rightarrow> pid_t \<Rightarrow> perm_level_t \<Rightarrow> (pid_t \<rightharpoonup> proc_cred_t) \<Rightarrow> (pid_t \<rightharpoonup> proc_cred_t)" where
  "put_level os pid level m =
     (case m pid of
        Some e \<Rightarrow> m(pid \<mapsto> e\<lparr>pc_level := level\<rparr>)
      | None \<Rightarrow> m(pid \<mapsto> fresh_entry os pid level))"

lemma register_process_cases:
  assumes "register_process os pid level st = (r, st')"
  shows "manager_pid st' = manager_pid st"
    and "r = None \<Longrightarrow> st' = st \<and> \<not> has_room st pid"
    and "r = Some i \<Longrightarrow> has_room st pid \<and> find_process pid st' = Some i \<and>
           creds st' = put_level os pid level (creds st)"
proof -
  show "manager_pid st' = manager_pid st"
    using assms by (auto simp: register_process_def split: option.splits if_splits)
  show "r = None \<Longrightarrow> st' = st \<and> \<not> has_room st pid"
    using assms
    by (auto simp: register_process_def has_room_def find_None_creds split: option.splits if_splits)
  assume r: "r = Some i"
  show "has_room st pid \<and> find_process pid st' = Some i \<and>
           creds st' = put_level os pid level (creds st)"
  proof (cases "find_process pid st")
    case (Some j)
    with assms r have j: "j = i" "st' = update_entry i (\<lambda>e. e\<lparr>pc_level := level\<rparr>) st"
      by (auto simp: register_process_def)
    have "creds st pid = Some (proc_table st ! i)" using find_Some_creds Some j by simp
    with Some j show ?thesis
      by (simp add: has_room_def put_level_def creds_update_entry find_update_entry)
  next
    case None
    then have n: "creds st pid = None" by (simp add: find_None_creds)
    with None assms r have st': "st' = st\<lparr>proc_table := proc_table st @ [fresh_entry os pid level]\<rparr>"
        "length (proc_table st) < MAX_REQUESTS" "i = length (proc_table st)"
      by (auto simp: register_process_def fresh_entry_def PERM_READONLY_def split: if_splits)
    have "find_process pid st' = Some i"
      using None st' by (simp add: find_process_def index_of_None index_of_append_fresh fresh_entry_def)
    moreover have "creds st' = (creds st)(pid \<mapsto> fresh_entry os pid level)"
      using creds_append [of st "fresh_entry os pid level"] n st' by (simp add: fresh_entry_def)
    ultimately show ?thesis using n st' by (simp add: has_room_def put_level_def)
  qed
qed

lemma put_level_twice: "put_level os pid l (put_level os pid l m) = put_level os pid l m"
  by (auto simp: put_level_def fresh_entry_def fun_eq_iff split: option.splits)

lemma apply_level_map:
  assumes "apply_level os pid level st = (r, st')"
  shows "manager_pid st' = manager_pid st"
    and "r = (if has_room st pid then 0 else -1)"
    and "creds st' = (if has_room st pid then put_level os pid level (creds st) else creds st)"
proof -
  obtain o1 s1 where reg: "register_process os pid level st = (o1, s1)" by force
  note facts = register_process_cases [OF reg]
  show "manager_pid st' = manager_pid st"
    using assms reg facts(1) by (auto simp: apply_level_def split: option.splits)
  show "r = (if has_room st pid then 0 else -1)"
    using assms reg facts(2,3) by (cases o1) (auto simp: apply_level_def)
  show "creds st' = (if has_room st pid then put_level os pid level (creds st) else creds st)"
  proof (cases o1)
    case None
    with assms reg facts(2) show ?thesis by (auto simp: apply_level_def)
  next
    case (Some i)
    from facts(3) [OF Some] have f: "has_room st pid" "find_process pid s1 = Some i"
      "creds s1 = put_level os pid level (creds st)" by auto
    have "st' = update_entry i (\<lambda>e. e\<lparr>pc_level := level\<rparr>) s1"
      using assms reg Some by (simp add: apply_level_def)
    then have "creds st' = (creds s1)(pid := map_option (\<lambda>e. e\<lparr>pc_level := level\<rparr>) (creds s1 pid))"
      using creds_update_entry [OF f(2), of "\<lambda>e. e\<lparr>pc_level := level\<rparr>"] by simp
    also have "\<dots> = put_level os pid level (creds s1)"
      using find_Some_creds [OF f(2)] by (simp add: put_level_def)
    finally show ?thesis using f by (simp add: put_level_twice)
  qed
qed

section \<open>The invariant\<close>

definition entry_ok :: "proc_cred_t \<Rightarrow> bool" where
  "entry_ok e =
     (0 \<le> pc_level e \<and> pc_level e \<le> 11 \<and> 0 \<le> pc_cap e \<and> pc_cap e \<le> 11 \<and>
      pc_signed e = 0 \<and> pc_self_signed e = 0 \<and> length (pc_context e) < 256)"

definition arb_inv :: "arbiter_t \<Rightarrow> bool" where
  "arb_inv st =
     (distinct (map pc_pid (proc_table st)) \<and> length (proc_table st) \<le> MAX_REQUESTS \<and>
      (\<forall>e \<in> set (proc_table st). entry_ok e))"

lemma arb_inv_creds: "arb_inv st \<Longrightarrow> creds st pid = Some e \<Longrightarrow> entry_ok e"
  by (auto simp: arb_inv_def dest: creds_pid)

lemma arb_inv_manager [simp]: "arb_inv (st\<lparr>manager_pid := m\<rparr>) = arb_inv st"
  by (simp add: arb_inv_def)

lemma length_context_of: "length (context_of os pid) < 256"
proof -
  have "length (cstr (strip_tail (take 255 b))) < 256" for b
  proof -
    have "length (cstr (strip_tail (take 255 b))) \<le> length (strip_tail (take 255 b))"
      unfolding cstr_def by (rule length_takeWhile_le)
    also have "\<dots> \<le> length (take 255 b)"
      unfolding strip_tail_def using length_dropWhile_le [of _ "rev (take 255 b)"] by simp
    also have "\<dots> < 256" by simp
    finally show ?thesis .
  qed
  then show ?thesis
    by (auto simp: context_of_def selinux_get_context_def Let_def split: option.splits)
qed

lemma entry_ok_fresh: "0 \<le> level \<Longrightarrow> level \<le> 11 \<Longrightarrow> entry_ok (fresh_entry os pid level)"
  by (simp add: entry_ok_def fresh_entry_def length_context_of)

lemma arb_inv_update:
  assumes "arb_inv st" "find_process pid st = Some i" "\<And>e. pc_pid (f e) = pc_pid e"
    and "entry_ok (proc_table st ! i) \<Longrightarrow> entry_ok (f (proc_table st ! i))"
  shows "arb_inv (update_entry i f st)"
proof -
  have i: "i < length (proc_table st)" using find_Some_creds [OF assms(2)] by simp
  then have "entry_ok (f (proc_table st ! i))" using assms(1,4) by (auto simp: arb_inv_def)
  then show ?thesis using assms(1,3) i set_update_subset_insert [of "proc_table st" i]
    by (auto simp: arb_inv_def update_entry_def map_update_same dest!: subsetD)
qed

lemma arb_inv_register:
  assumes "arb_inv st" "0 \<le> level" "level \<le> 11" "register_process os pid level st = (r, st')"
  shows "arb_inv st'"
proof (cases "find_process pid st")
  case (Some i)
  with assms(4) have "st' = update_entry i (\<lambda>e. e\<lparr>pc_level := level\<rparr>) st"
    by (simp add: register_process_def)
  with arb_inv_update [OF assms(1) Some, of "\<lambda>e. e\<lparr>pc_level := level\<rparr>"] assms(2,3)
  show ?thesis by (simp add: entry_ok_def)
next
  case None
  then have "pid \<notin> pc_pid ` set (proc_table st)"
    by (auto simp: find_process_def index_of_None)
  with None assms entry_ok_fresh [of level os pid] show ?thesis
    by (auto simp: register_process_def arb_inv_def fresh_entry_def PERM_READONLY_def split: if_splits)
qed

lemma arb_inv_apply:
  assumes "arb_inv st" "0 \<le> level" "level \<le> 11"
  shows "arb_inv (snd (apply_level os pid level st))"
proof (cases "register_process os pid level st")
  case (Pair r st')
  have inv: "arb_inv st'" using arb_inv_register [OF assms Pair] .
  show ?thesis
  proof (cases r)
    case (Some i)
    then have "find_process pid st' = Some i" using register_process_cases(3) [OF Pair] by simp
    from arb_inv_update [OF inv this, of "\<lambda>e. e\<lparr>pc_level := level\<rparr>"] Pair Some assms(2,3)
    show ?thesis by (simp add: apply_level_def entry_ok_def)
  qed (use Pair inv in \<open>simp add: apply_level_def\<close>)
qed

lemma arb_inv_set_level: "arb_inv st \<Longrightarrow> arb_inv (snd (set_process_level os pid l peer st))"
  by (auto simp: set_process_level_def perm_levels split: option.split intro!: arb_inv_apply)

lemma arb_inv_authorize: "arb_inv st \<Longrightarrow> arb_inv (snd (authorize_process os pid cap peer st))"
proof -
  assume inv: "arb_inv st"
  have upd: "arb_inv s \<Longrightarrow> find_process pid s = Some i \<Longrightarrow> 0 \<le> cap \<Longrightarrow> cap \<le> 11 \<Longrightarrow>
      arb_inv (update_entry i (\<lambda>e. e\<lparr>pc_cap := cap\<rparr>) s)" for s i
    by (rule arb_inv_update) (simp_all add: entry_ok_def)
  obtain r s1 where reg: "register_process os pid PERM_USER st = (r, s1)" by force
  have "arb_inv s1" using arb_inv_register [OF inv _ _ reg] by (simp add: PERM_USER_def)
  with inv reg register_process_cases(3) [OF reg] show ?thesis
    by (auto simp: authorize_process_def perm_levels split: option.splits intro!: upd)
qed

lemma arb_inv_reap: "arb_inv st \<Longrightarrow> arb_inv (reap_dead_processes os st)"
  by (auto simp: arb_inv_def reap_table distinct_map_filter
      intro: order.trans [OF length_filter_le])

lemma arb_inv_manager_step: "arb_inv st \<Longrightarrow> arb_inv (snd (register_manager os peer st))"
  by (simp add: register_manager_def)

lemmas handler_defs =
  handle_request_def handle_set_level_def handle_register_manager_def handle_authorize_def

text \<open>The state part of a request, handler by handler.\<close>

lemma handle_request_state:
  "snd (handle_request os req peer st) =
     (case request_type_of (rq_type req) of
        Some REQ_SET_LEVEL \<Rightarrow>
          snd (set_process_level os (rq_pid req) (to_u32 (rq_target_level req)) peer st)
      | Some REQ_REGISTER_MANAGER \<Rightarrow> snd (register_manager os peer st)
      | Some REQ_AUTHORIZE \<Rightarrow>
          snd (authorize_process os (rq_pid req) (to_u32 (rq_target_level req)) peer st)
      | _ \<Rightarrow> st)"
  by (simp add: handler_defs Let_def case_prod_unfold split: option.split request_type_t.split)

lemma serve_client_state:
  "snd (serve_client os got cred st) =
     (case got of None \<Rightarrow> st
      | Some req \<Rightarrow> snd (handle_request os req (get_peer_pid cred) (reap_dead_processes os st)))"
  by (simp add: serve_client_def case_prod_unfold Let_def split: option.split)

lemma arb_inv_handle: "arb_inv st \<Longrightarrow> arb_inv (snd (handle_request os req peer st))"
  by (auto simp: handle_request_state arb_inv_set_level arb_inv_authorize arb_inv_manager_step
      split: option.split request_type_t.split)

lemma arb_inv_serve: "arb_inv st \<Longrightarrow> arb_inv (snd (serve_client os got cred st))"
  by (auto simp: serve_client_state arb_inv_handle arb_inv_reap split: option.split)

lemma arb_inv_start: "arb_inv (arbiter_start os self)"
proof -
  have "arb_inv arbiter_init" by (simp add: arb_inv_def arbiter_init_def)
  then show ?thesis
    unfolding arbiter_start_def
    by (rule arb_inv_register [OF _ _ _ prod.collapse [symmetric]]) (simp_all add: PERM_SELINUX_def)
qed

end
