(* ===== verification/Arbiter_Safety.thy ===== *)
theory Arbiter_Safety
  imports Arbiter_Facts
begin

text \<open>
  What the arbiter promises: an abstract ledger of levels, caps and contexts with the policy written
  as one predicate, the refinement of that ledger by the served requests, the contract
  \<open>privilege_service\<close>, and the properties of single requests and of whole executions.
\<close>

section \<open>The policy on an abstract ledger\<close>

datatype ledger_entry = Ledger (g_level: int) (g_cap: int) (g_context: string)

type_synonym ledger_t = "pid_t \<rightharpoonup> ledger_entry"

definition ledger :: "arbiter_t \<Rightarrow> ledger_t" where
  "ledger st pid = map_option (\<lambda>e. Ledger (pc_level e) (pc_cap e) (pc_context e)) (creds st pid)"

definition ledger_level :: "ledger_t \<Rightarrow> pid_t \<Rightarrow> int" where
  "ledger_level m pid = (case m pid of Some g \<Rightarrow> g_level g | None \<Rightarrow> 1)"

text \<open>Only the backend and the frontend domain may signal themselves, by the embedded table.\<close>

definition self_controlling :: "string \<Rightarrow> bool" where
  "self_controlling ctx =
     (extract_domain ctx 64 = Some ''sys_dom_t'' \<or> extract_domain ctx 64 = Some ''uid_dom_t'')"

definition may_set :: "ledger_t \<Rightarrow> pid_t \<Rightarrow> int \<Rightarrow> pid_t \<Rightarrow> bool" where
  "may_set m pid new peer =
     (0 \<le> new \<and> new \<le> 11 \<and> peer = pid \<and>
      (new \<le> ledger_level m pid \<or>
       (case m pid of
          None \<Rightarrow> False
        | Some g \<Rightarrow> new \<le> g_cap g \<and> \<not> (4 \<le> new \<and> new \<le> 7) \<and> self_controlling (g_context g))))"

definition ledger_room :: "ledger_t \<Rightarrow> pid_t \<Rightarrow> bool" where
  "ledger_room m pid = (pid \<in> dom m \<or> card (dom m) < 1024)"

definition ledger_put :: "os_view \<Rightarrow> pid_t \<Rightarrow> int \<Rightarrow> ledger_t \<Rightarrow> ledger_t" where
  "ledger_put os pid new m =
     (case m pid of
        Some g \<Rightarrow> m(pid \<mapsto> Ledger new (g_cap g) (g_context g))
      | None \<Rightarrow> m(pid \<mapsto> Ledger new 0 (context_of os pid)))"

definition ledger_authorize :: "os_view \<Rightarrow> pid_t \<Rightarrow> int \<Rightarrow> ledger_t \<Rightarrow> ledger_t" where
  "ledger_authorize os pid cap m =
     (case m pid of
        Some g \<Rightarrow> m(pid \<mapsto> Ledger (g_level g) cap (g_context g))
      | None \<Rightarrow> m(pid \<mapsto> Ledger 2 cap (context_of os pid)))"

definition ledger_reap :: "os_view \<Rightarrow> ledger_t \<Rightarrow> ledger_t" where
  "ledger_reap os m = (\<lambda>pid. if pid > 0 \<and> process_alive os pid then m pid else None)"

definition spec_request ::
  "os_view \<Rightarrow> perm_request_t \<Rightarrow> pid_t \<Rightarrow> ledger_t \<times> pid_t \<Rightarrow> ledger_t \<times> pid_t" where
  "spec_request os req peer s =
     (let (m, mgr) = s; pid = rq_pid req; l = to_u32 (rq_target_level req) in
      case request_type_of (rq_type req) of
        Some REQ_SET_LEVEL \<Rightarrow>
          if may_set m pid l peer \<and> ledger_room m pid then (ledger_put os pid l m, mgr) else s
      | Some REQ_REGISTER_MANAGER \<Rightarrow>
          if mgr \<ge> 0 \<and> process_alive os mgr then s else (m, peer)
      | Some REQ_AUTHORIZE \<Rightarrow>
          if peer = mgr \<and> l \<le> 11 \<and> ledger_room m pid then (ledger_authorize os pid l m, mgr) else s
      | _ \<Rightarrow> s)"

section \<open>The operations refine the policy\<close>

lemma selinux_self_check:
  "selinux_check g (Some ctx) (Some t) (Some ''process'') (Some ''signal'') = 0 \<longleftrightarrow>
   self_controlling ctx"
proof -
  have "(d, ''process'', ''signal'') \<in> set allow_rules \<longleftrightarrow> d = ''sys_dom_t'' \<or> d = ''uid_dom_t''" for d
    by (simp add: allow_rules_def)
  then show ?thesis by (auto simp: selinux_check_Some self_controlling_def split: option.split)
qed

lemma ledger_level_creds: "ledger_level (ledger st) pid = get_process_level pid st"
  by (simp add: ledger_level_def ledger_def get_process_level_creds PERM_SANDBOX_def
      split: option.split)

lemma ledger_room_creds: "arb_inv st \<Longrightarrow> ledger_room (ledger st) pid \<longleftrightarrow> has_room st pid"
proof -
  assume inv: "arb_inv st"
  have dom: "dom (ledger st) = pc_pid ` set (proc_table st)"
    using dom_creds [of st] by (auto simp: ledger_def dom_def)
  have "card (set (map pc_pid (proc_table st))) = length (map pc_pid (proc_table st))"
    using inv by (intro distinct_card) (simp add: arb_inv_def)
  then have "card (dom (ledger st)) = length (proc_table st)" using dom by simp
  then show ?thesis
    by (auto simp: ledger_room_def has_room_def MAX_REQUESTS_def ledger_def dom_def)
qed

lemma ledger_put_creds:
  "ledger_put os pid l (ledger st) =
     (\<lambda>q. map_option (\<lambda>e. Ledger (pc_level e) (pc_cap e) (pc_context e))
        (put_level os pid l (creds st) q))"
  by (auto simp: ledger_put_def ledger_def put_level_def fresh_entry_def fun_eq_iff
      split: option.split)

text \<open>Under the invariant the whole cascade of checks is the policy predicate.\<close>

lemma set_process_level_policy:
  assumes inv: "arb_inv st"
  shows "set_process_level os pid l peer st =
           (if may_set (ledger st) pid l peer then apply_level os pid l st else (-1, st))"
proof (cases "l \<le> get_process_level pid st \<or> \<not> (0 \<le> l \<and> l \<le> 11) \<or> peer \<noteq> pid")
  case True
  then show ?thesis
    by (auto simp: set_process_level_def may_set_def ledger_level_creds perm_levels)
next
  case False
  show ?thesis
  proof (cases "find_process pid st")
    case None
    then have "creds st pid = None" by (simp add: creds_def)
    with None False show ?thesis
      by (simp add: set_process_level_def may_set_def ledger_level_creds ledger_def perm_levels)
  next
    case (Some i)
    define e where "e = proc_table st ! i"
    have c: "creds st pid = Some e" using find_Some_creds [OF Some] by (simp add: e_def)
    then have "\<not> is_signed_by_official pid st"
      using arb_inv_creds [OF inv c] by (simp add: is_signed_creds entry_ok_def)
    with False Some c show ?thesis
      by (auto simp: set_process_level_def may_set_def ledger_level_creds ledger_def perm_levels
          selinux_self_check simp flip: e_def)
  qed
qed

lemma apply_level_ledger:
  assumes "arb_inv st" "apply_level os pid l st = (r, st')"
  shows "r = (if ledger_room (ledger st) pid then 0 else -1)"
    and "ledger st' = (if ledger_room (ledger st) pid then ledger_put os pid l (ledger st) else ledger st)"
    and "manager_pid st' = manager_pid st"
  using apply_level_map [OF assms(2)] assms(1)
  by (simp_all add: ledger_room_creds ledger_put_creds, auto simp: ledger_def fun_eq_iff)

lemma set_process_level_ledger:
  assumes inv: "arb_inv st" and set: "set_process_level os pid l peer st = (r, st')"
  shows "r = (if may_set (ledger st) pid l peer \<and> ledger_room (ledger st) pid then 0 else -1)"
    and "ledger st' = (if r = 0 then ledger_put os pid l (ledger st) else ledger st)"
    and "manager_pid st' = manager_pid st"
proof -
  obtain ra sa where app: "apply_level os pid l st = (ra, sa)" by force
  have st: "(r, st') = (if may_set (ledger st) pid l peer then (ra, sa) else (-1, st))"
    using set_process_level_policy [OF inv, of os pid l peer] set app by simp
  note a = apply_level_ledger [OF inv app]
  show "r = (if may_set (ledger st) pid l peer \<and> ledger_room (ledger st) pid then 0 else -1)"
    and "ledger st' = (if r = 0 then ledger_put os pid l (ledger st) else ledger st)"
    and "manager_pid st' = manager_pid st"
    using st a by (simp_all split: if_splits)
qed

lemma ledger_update_cap:
  assumes "find_process pid st = Some i"
  shows "ledger (update_entry i (\<lambda>e. e\<lparr>pc_cap := cap\<rparr>) st) =
           (ledger st)(pid := map_option (\<lambda>g. Ledger (g_level g) cap (g_context g)) (ledger st pid))"
  using creds_update_entry [OF assms, of "\<lambda>e. e\<lparr>pc_cap := cap\<rparr>"]
  by (auto simp: ledger_def fun_eq_iff option.map_comp comp_def)

lemma authorize_process_ledger:
  assumes inv: "arb_inv st" and auth: "authorize_process os pid cap peer st = (r, st')"
  shows "r = (if peer = manager_pid st \<and> 0 \<le> cap \<and> cap \<le> 11 \<and> ledger_room (ledger st) pid
              then 0 else -1)"
    and "ledger st' = (if r = 0 then ledger_authorize os pid cap (ledger st) else ledger st)"
    and "manager_pid st' = manager_pid st"
proof -
  obtain ro s1 where reg: "register_process os pid PERM_USER st = (ro, s1)" by force
  note f = register_process_cases [OF reg]
  have goal: "r = (if peer = manager_pid st \<and> 0 \<le> cap \<and> cap \<le> 11 \<and> has_room st pid then 0 else -1)
    \<and> ledger st' = (if r = 0 then ledger_authorize os pid cap (ledger st) else ledger st)
    \<and> manager_pid st' = manager_pid st"
  proof (cases "peer = manager_pid st \<and> 0 \<le> cap \<and> cap \<le> 11")
    case False
    with auth show ?thesis by (auto simp: authorize_process_def perm_levels split: if_splits)
  next
    case True
    show ?thesis
    proof (cases "find_process pid st")
      case (Some i)
      with auth True have "st' = update_entry i (\<lambda>e. e\<lparr>pc_cap := cap\<rparr>) st" "r = 0"
        by (auto simp: authorize_process_def perm_levels)
      with True find_Some_creds [OF Some] ledger_update_cap [OF Some, of cap] show ?thesis
        by (simp add: has_room_def ledger_authorize_def ledger_def)
    next
      case None
      show ?thesis
      proof (cases ro)
        case ro: None
        with auth True None reg f show ?thesis by (auto simp: authorize_process_def perm_levels)
      next
        case ro: (Some i)
        then have s1: "has_room st pid" "find_process pid s1 = Some i"
            "creds s1 = put_level os pid PERM_USER (creds st)" using f(3) by auto
        have st': "st' = update_entry i (\<lambda>e. e\<lparr>pc_cap := cap\<rparr>) s1" "r = 0"
          using auth True None reg ro by (auto simp: authorize_process_def perm_levels)
        have "creds st pid = None" using None by (simp add: find_None_creds)
        then have "ledger st' = ledger_authorize os pid cap (ledger st)"
          using st' ledger_update_cap [OF s1(2), of cap] s1(3)
          by (auto simp: ledger_authorize_def ledger_def put_level_def fresh_entry_def
              PERM_USER_def fun_eq_iff)
        with st' s1 f(1) True show ?thesis by simp
      qed
    qed
  qed
  then show "r = (if peer = manager_pid st \<and> 0 \<le> cap \<and> cap \<le> 11 \<and> ledger_room (ledger st) pid
              then 0 else -1)"
    and "ledger st' = (if r = 0 then ledger_authorize os pid cap (ledger st) else ledger st)"
    and "manager_pid st' = manager_pid st"
    by (simp_all add: ledger_room_creds [OF inv])
qed

lemma ledger_reap_creds:
  "arb_inv st \<Longrightarrow> ledger (reap_dead_processes os st) = ledger_reap os (ledger st)"
  by (auto simp: arb_inv_def ledger_def ledger_reap_def fun_eq_iff creds_reap live_entry_def
      split: option.split dest: creds_pid)

definition arb_abs :: "arbiter_t \<Rightarrow> ledger_t \<times> pid_t" where
  "arb_abs st = (ledger st, manager_pid st)"

lemma handle_request_abs:
  assumes "arb_inv st"
  shows "arb_abs (snd (handle_request os req peer st)) = spec_request os req peer (arb_abs st)"
proof -
  let ?l = "to_u32 (rq_target_level req)"
  have nonneg: "0 \<le> ?l" by (simp add: to_u32_range)
  note set = set_process_level_ledger [OF assms surjective_pairing, of os "rq_pid req" ?l peer]
  note auth = authorize_process_ledger [OF assms surjective_pairing, of os "rq_pid req" ?l peer]
  show ?thesis
  proof (cases "request_type_of (rq_type req)")
    case (Some ty)
    show ?thesis
    proof (cases ty)
      case REQ_SET_LEVEL
      with Some set show ?thesis
        by (simp add: handle_request_state spec_request_def arb_abs_def Let_def)
    next
      case REQ_AUTHORIZE
      with Some auth nonneg show ?thesis
        by (simp add: handle_request_state spec_request_def arb_abs_def Let_def)
    next
      case REQ_REGISTER_MANAGER
      with Some show ?thesis
        by (simp add: handle_request_state spec_request_def arb_abs_def Let_def register_manager_def
            ledger_def fun_eq_iff)
    qed (use Some in \<open>simp_all add: handle_request_state spec_request_def arb_abs_def\<close>)
  qed (simp add: handle_request_state spec_request_def arb_abs_def)
qed

section \<open>The service contract\<close>

type_synonym arb_event = "os_view \<times> perm_request_t option \<times> pid_t option"

fun arb_step :: "arb_event \<Rightarrow> arbiter_t \<Rightarrow> arbiter_t" where
  "arb_step (os, got, cred) st = snd (serve_client os got cred st)"

text \<open>The authorisation a step makes: only an accepted \<open>REQ_AUTHORIZE\<close> of the manager.\<close>

fun arb_grant :: "arb_event \<Rightarrow> arbiter_t \<Rightarrow> (pid_t \<times> int) option" where
  "arb_grant (os, got, cred) st =
     (case got of
        None \<Rightarrow> None
      | Some req \<Rightarrow>
          if request_type_of (rq_type req) = Some REQ_AUTHORIZE \<and>
             get_peer_pid cred = manager_pid st \<and> to_u32 (rq_target_level req) \<le> 11
          then Some (rq_pid req, to_u32 (rq_target_level req)) else None)"

definition ledger_cap :: "ledger_t \<Rightarrow> pid_t \<Rightarrow> int" where
  "ledger_cap m pid = (case m pid of Some g \<Rightarrow> g_cap g | None \<Rightarrow> 0)"

definition arb_cap :: "pid_t \<Rightarrow> arbiter_t \<Rightarrow> int" where
  "arb_cap pid st = ledger_cap (ledger st) pid"

lemma spec_request_level:
  assumes "spec_request os req peer (m, mgr) = (m', mgr')"
  shows "ledger_level m' p \<le> 2 \<or> ledger_level m' p \<le> ledger_level m p \<or>
         ledger_level m' p \<le> ledger_cap m p"
  using assms
  by (auto simp: spec_request_def Let_def may_set_def ledger_put_def ledger_authorize_def
      ledger_level_def ledger_cap_def split: option.splits request_type_t.splits if_splits)

lemma spec_request_cap:
  assumes "spec_request os req peer (m, mgr) = (m', mgr')"
  shows "ledger_cap m' p \<le> 0 \<or> ledger_cap m' p = ledger_cap m p \<or>
         (request_type_of (rq_type req) = Some REQ_AUTHORIZE \<and> peer = mgr \<and>
          to_u32 (rq_target_level req) \<le> 11 \<and> p = rq_pid req \<and>
          ledger_cap m' p = to_u32 (rq_target_level req))"
  using assms
  by (auto simp: spec_request_def Let_def ledger_put_def ledger_authorize_def ledger_cap_def
      split: option.splits request_type_t.splits if_splits)

lemma ledger_reap_bounds:
  "ledger_level (ledger_reap os m) p = ledger_level m p \<or> ledger_level (ledger_reap os m) p = 1"
  "ledger_cap (ledger_reap os m) p = ledger_cap m p \<or> ledger_cap (ledger_reap os m) p = 0"
  by (auto simp: ledger_level_def ledger_cap_def ledger_reap_def)

lemma serve_request_abs:
  assumes "arb_inv st"
  shows "arb_abs (snd (serve_client os (Some req) cred st)) =
           spec_request os req (get_peer_pid cred) (ledger_reap os (ledger st), manager_pid st)"
  using handle_request_abs [OF arb_inv_reap [OF assms]] assms
  by (simp add: serve_client_state arb_abs_def ledger_reap_creds)

interpretation arb: privilege_service arb_step arb_grant get_process_level arb_cap 2 arb_inv
proof
  fix s :: arbiter_t and ev :: arb_event and p :: pid_t
  assume inv: "arb_inv s"
  obtain os got cred where ev: "ev = (os, got, cred)" by (cases ev) auto
  show "arb_inv (arb_step ev s)" using inv ev by (simp add: arb_inv_serve)
  show "get_process_level p (arb_step ev s) \<le> 2 \<or>
        get_process_level p (arb_step ev s) \<le> get_process_level p s \<or>
        get_process_level p (arb_step ev s) \<le> arb_cap p s"
  proof (cases got)
    case (Some req)
    obtain m' mgr' where sp: "spec_request os req (get_peer_pid cred)
        (ledger_reap os (ledger s), manager_pid s) = (m', mgr')" by force
    then have "ledger (arb_step ev s) = m'"
      using serve_request_abs [OF inv, of os req cred] ev Some by (simp add: arb_abs_def)
    with spec_request_level [OF sp, of p] ledger_reap_bounds [of os "ledger s" p] show ?thesis
      by (auto simp: arb_cap_def simp flip: ledger_level_creds)
  qed (use ev in \<open>simp add: serve_client_state\<close>)
  show "arb_cap p (arb_step ev s) \<le> 0 \<or> arb_cap p (arb_step ev s) = arb_cap p s \<or>
        arb_grant ev s = Some (p, arb_cap p (arb_step ev s))"
  proof (cases got)
    case (Some req)
    obtain m' mgr' where sp: "spec_request os req (get_peer_pid cred)
        (ledger_reap os (ledger s), manager_pid s) = (m', mgr')" by force
    then have "ledger (arb_step ev s) = m'"
      using serve_request_abs [OF inv, of os req cred] ev Some by (simp add: arb_abs_def)
    with spec_request_cap [OF sp, of p] ledger_reap_bounds [of os "ledger s" p] ev Some show ?thesis
      by (auto simp: arb_cap_def)
  qed (use ev in \<open>simp add: serve_client_state\<close>)
qed

text \<open>
  A small execution that the witnesses below evaluate: process 20 becomes manager, authorises
  process 30 up to level 8, and process 30, running in \<open>uid_dom_t\<close>, takes level 8.
\<close>

definition demo_os :: os_view where
  "demo_os = \<lparr>kill0 = (\<lambda>_. Kill_ok), attr_current = (\<lambda>_. Some ''u:r:uid_dom_t:s0'')\<rparr>"

definition demo_req :: "int \<Rightarrow> pid_t \<Rightarrow> int \<Rightarrow> perm_request_t" where
  "demo_req code pid l =
     \<lparr>rq_type = code, rq_pid = pid, rq_target_level = l, rq_capability = [], rq_resource = [],
      rq_request_id = 1\<rparr>"

definition demo_events :: "arb_event list" where
  "demo_events =
     [(demo_os, Some (demo_req 4 20 0), Some 20),
      (demo_os, Some (demo_req 5 30 8), Some 20),
      (demo_os, Some (demo_req 2 30 8), Some 30)]"

definition demo_state :: arbiter_t where
  "demo_state = fold arb_step (take 2 demo_events) (arbiter_start demo_os 10)"

lemma demo_level: "get_process_level 30 (fold arb_step demo_events (arbiter_start demo_os 10)) = 8"
  by code_simp

lemma demo_inv: "arb_inv demo_state"
  unfolding demo_state_def by (rule arb.inv_run [OF arb_inv_start])

lemma demo_entry:
  "creds demo_state 30 = Some \<lparr>pc_pid = 30, pc_level = 2, pc_context = ''u:r:uid_dom_t:s0'',
     pc_signed = 0, pc_self_signed = 0, pc_cap = 8\<rparr>"
  by code_simp

lemma demo_manager: "manager_pid demo_state = 20"
  by code_simp

lemma demo_domain: "self_controlling ''u:r:uid_dom_t:s0''"
  by code_simp

section \<open>Properties of the arbiter\<close>

lemma run_levels_authorised:
  assumes "p \<noteq> self" "get_process_level p (fold arb_step evs (arbiter_start os self)) > 2"
  shows "\<exists>c. (p, c) \<in> set (grant_log arb_grant arb_step (arbiter_start os self) evs) \<and>
             get_process_level p (fold arb_step evs (arbiter_start os self)) \<le> c"
proof -
  have st: "proc_table (arbiter_start os self) = [fresh_entry os self 8]"
    by (simp add: arbiter_start_def register_process_def find_process_def arbiter_init_def
        MAX_REQUESTS_def fresh_entry_def perm_levels)
  then have "find_process p (arbiter_start os self) = None"
    using assms(1) by (simp add: find_process_def fresh_entry_def)
  then have "creds (arbiter_start os self) p = None" by (simp add: creds_def)
  then have "get_process_level p (arbiter_start os self) = 1" "arb_cap p (arbiter_start os self) = 0"
    by (simp_all add: get_process_level_creds PERM_SANDBOX_def arb_cap_def ledger_cap_def ledger_def)
  with arb.run_level_authorised [OF arb_inv_start [of os self], where p = p and evs = evs] assms(2) show ?thesis
    by auto
qed

text \<open>
  Claim C2.  Complete mediation.  Start the arbiter and let it serve any sequence of clients (any
  requests, any peers, any answers of the kernel).  A process other than the arbiter itself that
  holds a level above \<open>user\<close> was authorised, earlier in that very execution, by a \<open>REQ_AUTHORIZE\<close> of
  the process registered as manager, up to at least the level it holds.
\<close>

theorem levels_are_authorised:
  assumes "p \<noteq> self" "get_process_level p (fold arb_step evs (arbiter_start os self)) > 2"
  shows "\<exists>c. (p, c) \<in> set (grant_log arb_grant arb_step (arbiter_start os self) evs) \<and>
             get_process_level p (fold arb_step evs (arbiter_start os self)) \<le> c"
  using assms by (rule run_levels_authorised)

theorem levels_are_authorised_witness:
  "\<exists>c. (30, c) \<in> set (grant_log arb_grant arb_step (arbiter_start demo_os 10) demo_events) \<and>
       get_process_level 30 (fold arb_step demo_events (arbiter_start demo_os 10)) \<le> c"
  by (rule levels_are_authorised) (simp_all add: demo_level)

text \<open>
  Claim C3.  Refinement.  On every state satisfying the table invariant, serving a client changes
  the table the way the abstract policy changes the ledger (dead processes leave it first, then the
  request is decided by \<open>may_set\<close> and the manager rule), and the invariant holds again.
\<close>

theorem serve_client_refines:
  assumes "arb_inv st"
  shows "arb_abs (snd (serve_client os got cred st)) =
           (case got of
              None \<Rightarrow> arb_abs st
            | Some req \<Rightarrow> spec_request os req (get_peer_pid cred)
                            (ledger_reap os (ledger st), manager_pid st)) \<and>
         arb_inv (snd (serve_client os got cred st))"
  using assms arb_inv_serve [OF assms, of os got cred]
  by (cases got) (simp_all add: serve_request_abs, simp add: serve_client_state)

theorem serve_client_refines_witness:
  "arb_inv (snd (serve_client demo_os (Some (demo_req 2 30 8)) (Some 30) demo_state))"
  using serve_client_refines [OF demo_inv] by blast

text \<open>
  Reaping: the in-place loop over the table, with its \<open>memmove\<close> and its index that
  advances only past survivors, keeps exactly the entries whose process still answers
  \<open>kill(pid, 0)\<close> (or refuses it with \<open>EPERM\<close>), in their order, and nothing else.
\<close>

lemma reap_exact:
  "proc_table (reap_dead_processes os st) =
     filter (\<lambda>e. pc_pid e > 0 \<and> (kill0 os (pc_pid e) = Kill_ok \<or> kill0 os (pc_pid e) = Kill_eperm))
       (proc_table st) \<and>
   manager_pid (reap_dead_processes os st) = manager_pid st"
proof -
  have "live_entry os = (\<lambda>e. pc_pid e > 0 \<and>
      (kill0 os (pc_pid e) = Kill_ok \<or> kill0 os (pc_pid e) = Kill_eperm))"
    by (simp add: fun_eq_iff live_entry_def process_alive_def)
  then show ?thesis by (simp add: reap_table)
qed

text \<open>
  Claim C5.  When a process may raise its level: exactly when it asks for itself, it is registered,
  the level is within the cap the user authorised, the level is not one of the four that need an
  official signature (nothing in the service ever sets the signature flags), and its domain may
  signal itself.  So no application in \<open>app_sandbox_t\<close> is ever raised.
\<close>

theorem raise_decision:
  assumes "arb_inv st" "get_process_level pid st < l" "0 \<le> l"
  shows "fst (set_process_level os pid l peer st) = 0 \<longleftrightarrow>
           peer = pid \<and> l \<le> 11 \<and>
           (\<exists>e. creds st pid = Some e \<and> l \<le> pc_cap e \<and> \<not> (4 \<le> l \<and> l \<le> 7) \<and>
                self_controlling (pc_context e))"
proof -
  have room: "creds st pid = Some e \<Longrightarrow> ledger_room (ledger st) pid" for e
    by (auto simp: ledger_room_def ledger_def)
  show ?thesis
    using set_process_level_ledger(1) [OF assms(1) surjective_pairing, of os pid l peer] assms(2,3) room
    by (auto simp: may_set_def ledger_level_creds ledger_def split: option.splits)
qed

theorem raise_decision_witness:
  "fst (set_process_level demo_os 30 8 30 demo_state) = 0 \<and>
   fst (set_process_level demo_os 30 5 30 demo_state) \<noteq> 0 \<and>
   fst (set_process_level demo_os 30 9 30 demo_state) \<noteq> 0"
proof -
  have l: "get_process_level 30 demo_state = 2" by (simp add: get_process_level_creds demo_entry)
  show ?thesis
    using raise_decision [OF demo_inv, of 30 8 demo_os 30] raise_decision [OF demo_inv, of 30 5 demo_os 30]
      raise_decision [OF demo_inv, of 30 9 demo_os 30]
    by (simp add: l demo_entry demo_domain)
qed

text \<open>
  The signature rule for levels 4 to 7 can be walked around.  A process whose cap is at
  least 8 is refused such a level directly, but may take level 8 and then step down to it, because
  lowering is never checked.
\<close>

lemma signature_gate_bypass:
  assumes inv: "arb_inv st" and e: "creds st p = Some e" "8 \<le> pc_cap e" "self_controlling (pc_context e)"
    and l: "pc_level e < l" "4 \<le> l" "l \<le> 7"
  shows "fst (set_process_level os p l p st) = -1 \<and>
    fst (set_process_level os p 8 p st) = 0 \<and>
    fst (set_process_level os p l p (snd (set_process_level os p 8 p st))) = 0 \<and>
    get_process_level p (snd (set_process_level os p l p (snd (set_process_level os p 8 p st)))) = l"
proof -
  have led: "ledger st p = Some (Ledger (pc_level e) (pc_cap e) (pc_context e))"
    using e(1) by (simp add: ledger_def)
  note first = set_process_level_ledger [OF inv surjective_pairing, of os p]
  define s1 where "s1 = snd (set_process_level os p 8 p st)"
  have no: "fst (set_process_level os p l p st) = -1"
    using first(1) [of l p] l led by (simp add: may_set_def ledger_level_def)
  have room: "ledger_room (ledger st) p" using led by (auto simp: ledger_room_def)
  have ok8: "fst (set_process_level os p 8 p st) = 0"
    using first(1) [of 8 p] l e led room by (simp add: may_set_def ledger_level_def)
  have led1: "ledger s1 p = Some (Ledger 8 (pc_cap e) (pc_context e))"
    using first(2) [of 8 p] ok8 led by (simp add: s1_def ledger_put_def)
  have inv1: "arb_inv s1" using arb_inv_set_level [OF inv] by (simp add: s1_def)
  note second = set_process_level_ledger [OF inv1 surjective_pairing, of os p l p]
  have ok: "fst (set_process_level os p l p s1) = 0"
    using second(1) led1 l by (auto simp: may_set_def ledger_level_def ledger_room_def)
  have "ledger_level (ledger (snd (set_process_level os p l p s1))) p = l"
    using second(2) ok led1 by (simp add: ledger_put_def ledger_level_def)
  then show ?thesis using no ok8 ok by (simp add: s1_def ledger_level_creds)
qed

lemma signature_gate_bypass_witness:
  "fst (set_process_level demo_os 30 5 30 demo_state) = -1 \<and>
   get_process_level 30 (snd (set_process_level demo_os 30 5 30
     (snd (set_process_level demo_os 30 8 30 demo_state)))) = 5"
  using signature_gate_bypass [OF demo_inv demo_entry, of 5 demo_os] by (simp add: demo_domain)

text \<open>
  Claim C4.  Who may manage.  The registered manager changes only by a registration request, only
  to the process that sent it, and only when the old manager is unset or no longer alive; and a cap
  changes to something positive only by a request of the process that is manager at that moment.
\<close>

theorem manager_exclusive:
  assumes "arb_inv st"
  shows "(manager_pid (arb_step (os, got, cred) st) = manager_pid st \<or>
          ((\<exists>req. got = Some req \<and> request_type_of (rq_type req) = Some REQ_REGISTER_MANAGER) \<and>
           manager_pid (arb_step (os, got, cred) st) = get_peer_pid cred \<and>
           (manager_pid st < 0 \<or> \<not> process_alive os (manager_pid st)))) \<and>
         (arb_cap p (arb_step (os, got, cred) st) \<le> 0 \<or>
          arb_cap p (arb_step (os, got, cred) st) = arb_cap p st \<or>
          get_peer_pid cred = manager_pid st)"
proof (cases got)
  case None
  then show ?thesis by (simp add: serve_client_state)
next
  case (Some req)
  let ?s' = "arb_step (os, got, cred) st"
  have abs: "(ledger ?s', manager_pid ?s') =
      spec_request os req (get_peer_pid cred) (ledger_reap os (ledger st), manager_pid st)"
    using serve_request_abs [OF assms, of os req cred] Some by (simp add: arb_abs_def)
  have mgr: "manager_pid ?s' = manager_pid st \<or>
      (request_type_of (rq_type req) = Some REQ_REGISTER_MANAGER \<and>
       manager_pid ?s' = get_peer_pid cred \<and>
       (manager_pid st < 0 \<or> \<not> process_alive os (manager_pid st)))"
    using abs
    by (auto simp: spec_request_def Let_def split: option.splits request_type_t.splits if_splits)
  have "arb_cap p ?s' \<le> 0 \<or> arb_cap p ?s' = arb_cap p st \<or> get_peer_pid cred = manager_pid st"
    using spec_request_cap [OF abs [symmetric], of p] ledger_reap_bounds(2) [of os "ledger st" p]
    by (auto simp: arb_cap_def)
  with mgr Some show ?thesis by blast
qed

theorem manager_exclusive_witness:
  "manager_pid (arb_step (demo_os, Some (demo_req 4 30 0), Some 30) demo_state) = 20"
proof -
  have "process_alive demo_os 20" by (simp add: process_alive_def demo_os_def)
  with manager_exclusive [OF demo_inv, of demo_os "Some (demo_req 4 30 0)" "Some 30" 30] demo_manager
  show ?thesis by auto
qed

text \<open>
  Claim C15.  Level queries.  A check is answered with status 0 exactly when the caller may ask about
  that process (it is that process, or the manager) and the recorded level reaches the requested
  one, where a negative request is never satisfied; the table does not change.
\<close>

theorem check_request_correct:
  assumes "arb_inv st" "request_type_of (rq_type req) = Some REQ_CHECK_PERM"
    "- (2 ^ 31) \<le> rq_target_level req" "rq_target_level req < 2 ^ 31"
  shows "snd (handle_request os req peer st) = st \<and>
         (rs_status (fst (handle_request os req peer st)) = 0 \<longleftrightarrow>
            (peer = rq_pid req \<or> peer = manager_pid st) \<and>
            0 \<le> rq_target_level req \<and> rq_target_level req \<le> get_process_level (rq_pid req) st)"
proof -
  have lvl: "get_process_level (rq_pid req) st \<le> 11"
    using arb_inv_creds [OF assms(1), of "rq_pid req"]
    by (auto simp: get_process_level_creds PERM_SANDBOX_def entry_ok_def split: option.split)
  have "check_permission (rq_pid req) (to_u32 (rq_target_level req)) st = 0 \<longleftrightarrow>
      0 \<le> rq_target_level req \<and> rq_target_level req \<le> get_process_level (rq_pid req) st"
  proof (cases "0 \<le> rq_target_level req")
    case True
    with assms(4) show ?thesis by (simp add: check_permission_def)
  next
    case False
    with assms(3) lvl show ?thesis by (simp add: check_permission_def to_u32_neg)
  qed
  with assms(2) show ?thesis
    by (simp add: handle_request_def may_query_def handle_check_def query_denied_def response_def
        Let_def)
qed

theorem check_request_correct_witness:
  "rs_status (fst (handle_request demo_os (demo_req 0 30 2) 30 demo_state)) = 0 \<and>
   rs_status (fst (handle_request demo_os (demo_req 0 30 3) 30 demo_state)) \<noteq> 0 \<and>
   rs_status (fst (handle_request demo_os (demo_req 0 30 2) 31 demo_state)) \<noteq> 0 \<and>
   rs_status (fst (handle_request demo_os (demo_req 0 30 (-1)) 30 demo_state)) \<noteq> 0"
proof -
  have l: "get_process_level 30 demo_state = 2" by (simp add: get_process_level_creds demo_entry)
  have ty: "request_type_of (rq_type (demo_req 0 30 x)) = Some REQ_CHECK_PERM" for x
    by (simp add: demo_req_def request_type_of_def request_types_def)
  have q: "rq_pid (demo_req 0 30 x) = 30" "rq_target_level (demo_req 0 30 x) = x" for x
    by (simp_all add: demo_req_def)
  show ?thesis
    using check_request_correct [OF demo_inv ty, of 2 demo_os 30]
      check_request_correct [OF demo_inv ty, of 3 demo_os 30]
      check_request_correct [OF demo_inv ty, of 2 demo_os 31]
      check_request_correct [OF demo_inv ty, of "-1" demo_os 30]
    by (simp add: l q demo_manager)
qed

text \<open>
  The level of any process leaks: the answer to a manager registration carries the level
  recorded for the process id in the request, whoever asks and whether or not the registration is
  accepted, although the same caller is refused that level by a level query.
\<close>

theorem register_answer_leaks_level:
  assumes "request_type_of (rq_type req) = Some REQ_REGISTER_MANAGER"
  shows "rs_current_level (fst (handle_request os req peer st)) =
           to_s32 (get_process_level (rq_pid req) st) \<and>
         (peer \<noteq> rq_pid req \<and> peer \<noteq> manager_pid st \<longrightarrow>
            handle_request os (req\<lparr>rq_type := 1\<rparr>) peer st = (query_denied req peer, st))"
  using assms
  by (simp add: handle_request_def handle_register_manager_def register_manager_def response_def
      get_process_level_creds request_type_of_def [of 1] request_types_def
      may_query_def query_denied_def)

theorem register_answer_leaks_level_witness:
  "rs_current_level (fst (handle_request demo_os (demo_req 4 30 0) 77 demo_state)) = 2 \<and>
   rs_status (fst (handle_request demo_os ((demo_req 4 30 0)\<lparr>rq_type := 1\<rparr>) 77 demo_state)) = -1"
proof -
  have l: "get_process_level 30 demo_state = 2" by (simp add: get_process_level_creds demo_entry)
  have ty: "request_type_of (rq_type (demo_req 4 30 0)) = Some REQ_REGISTER_MANAGER"
    by (simp add: demo_req_def request_type_of_def request_types_def)
  have q: "rq_pid (demo_req 4 30 0) = 30" by (simp add: demo_req_def)
  show ?thesis using register_answer_leaks_level [OF ty, of demo_os 77 demo_state]
    by (simp add: l q demo_manager query_denied_def response_def)
qed

text \<open>
  An unidentified peer is treated as the manager as long as none is registered: the pid
  of a client whose credentials cannot be read is -1, and so is the unset manager.  Its
  authorisation of any process to the top of the ladder is accepted.
\<close>

theorem unidentified_peer_authorizes:
  "manager_pid (arbiter_start os self) = get_peer_pid None \<and>
   fst (authorize_process os self 11 (get_peer_pid None) (arbiter_start os self)) = 0 \<and>
   arb_cap self (snd (authorize_process os self 11 (get_peer_pid None) (arbiter_start os self))) = 11"
proof -
  let ?st = "arbiter_start os self"
  have st: "proc_table ?st = [fresh_entry os self 8]" and m: "manager_pid ?st = -1"
    by (simp_all add: arbiter_start_def register_process_def find_process_def arbiter_init_def
        MAX_REQUESTS_def fresh_entry_def perm_levels)
  then have led: "ledger ?st self = Some (Ledger 8 0 (context_of os self))"
    by (simp add: ledger_def creds_def find_process_def fresh_entry_def)
  then have room: "ledger_room (ledger ?st) self" by (auto simp: ledger_room_def)
  have ok: "fst (authorize_process os self 11 (-1) ?st) = 0"
    using authorize_process_ledger(1) [OF arb_inv_start [of os self] surjective_pairing, of os self 11 "-1"]
      room m by simp
  moreover have "ledger (snd (authorize_process os self 11 (-1) ?st)) self =
      Some (Ledger 8 11 (context_of os self))"
    using authorize_process_ledger(2) [OF arb_inv_start [of os self] surjective_pairing, of os self 11 "-1"]
      ok led by (simp add: ledger_authorize_def)
  ultimately show ?thesis using m by (simp add: get_peer_pid_def arb_cap_def ledger_cap_def)
qed

end
