(* ===== verification/System_Manager.thy ===== *)
theory System_Manager
  imports Arbiter_Safety
begin

text \<open>
  The system manager \<open>backend/sub_kernel/system_manager.c\<close>: the daemon the arbiter trusts, its
  console protocol with the uid gate, and the command-line front end.  It talks to the arbiter of
  theory \<open>Arbiter\<close>; what the sockets, the clock and \<open>fork\<close> answer is the parameter \<open>mgr_env\<close>.
  Output and audit lines are kept without their time stamps.
\<close>

section \<open>Data\<close>

datatype arbiter_req_type_t =
    MREQ_CHECK_PERM | MREQ_GET_LEVEL | MREQ_SET_LEVEL | MREQ_QUERY_CAP
  | MREQ_REGISTER_MANAGER | MREQ_AUTHORIZE

fun arbiter_req_code :: "arbiter_req_type_t \<Rightarrow> int" where
  "arbiter_req_code MREQ_CHECK_PERM = 0"
| "arbiter_req_code MREQ_GET_LEVEL = 1"
| "arbiter_req_code MREQ_SET_LEVEL = 2"
| "arbiter_req_code MREQ_QUERY_CAP = 3"
| "arbiter_req_code MREQ_REGISTER_MANAGER = 4"
| "arbiter_req_code MREQ_AUTHORIZE = 5"

type_synonym arbiter_request_t = perm_request_t
type_synonym arbiter_response_t = perm_response_t

datatype console_cmd_t =
  CMD_HELP | CMD_STATUS | CMD_LIST | CMD_AUTHORIZE | CMD_DEAUTHORIZE | CMD_SERVICE | CMD_NOTIFY | CMD_QUIT

definition console_cmds :: "console_cmd_t list" where
  "console_cmds = [CMD_HELP, CMD_STATUS, CMD_LIST, CMD_AUTHORIZE, CMD_DEAUTHORIZE, CMD_SERVICE,
     CMD_NOTIFY, CMD_QUIT]"

text \<open>The command field is read from the wire; \<open>None\<close> is a value outside the enumeration.\<close>

record console_msg_t =
  cm_cmd :: "console_cmd_t option"
  cm_target_pid :: pid_t
  cm_level :: int
  cm_arg1 :: string
  cm_arg2 :: string

text \<open>
  One exchange with the arbiter: the connection or the write fails; the request is served but the
  answer is lost; or both go through.
\<close>

datatype link = Link_down | Link_lost | Link_ok

record mgr_env =
  me_os :: os_view
  me_pid :: pid_t
  me_euid :: int
  me_link :: link
  me_time :: int
  me_fork :: int
  me_log_ok :: bool
  me_dup_ok :: bool

record manager_t =
  mg_running :: bool
  mg_arb :: arbiter_t
  mg_out :: "string list"
  mg_audit :: "string list"
  mg_spawned :: "string list"

section \<open>Helpers\<close>

definition get_peer_uid :: "int option \<Rightarrow> int" where
  "get_peer_uid cred = (case cred of None \<Rightarrow> -1 | Some uid \<Rightarrow> to_s32 uid)"

definition audit :: "mgr_env \<Rightarrow> string \<Rightarrow> manager_t \<Rightarrow> manager_t" where
  "audit env line m = (if me_log_ok env then m\<lparr>mg_audit := mg_audit m @ [line]\<rparr> else m)"

definition emit :: "string \<Rightarrow> manager_t \<Rightarrow> manager_t" where
  "emit line m = m\<lparr>mg_out := mg_out m @ [line]\<rparr>"

definition empty_response :: arbiter_response_t where
  "empty_response = \<lparr>rs_status = 0, rs_current_level = 0, rs_request_id = 0, rs_reason = []\<rparr>"

text \<open>The request carries the pid of the manager in the socket credentials.\<close>

definition request_arbiter ::
  "mgr_env \<Rightarrow> arbiter_request_t \<Rightarrow> arbiter_t \<Rightarrow> (int \<times> arbiter_response_t) \<times> arbiter_t" where
  "request_arbiter env req arb =
     (case me_link env of
        Link_down \<Rightarrow> ((-1, empty_response), arb)
      | Link_lost \<Rightarrow>
          ((-1, empty_response), snd (serve_client (me_os env) (Some req) (Some (me_pid env)) arb))
      | Link_ok \<Rightarrow>
          (case serve_client (me_os env) (Some req) (Some (me_pid env)) arb of
             (Some resp, arb') \<Rightarrow> ((0, resp), arb')
           | (None, arb') \<Rightarrow> ((-1, empty_response), arb')))"

definition mgr_request :: "arbiter_req_type_t \<Rightarrow> pid_t \<Rightarrow> int \<Rightarrow> int \<Rightarrow> arbiter_request_t" where
  "mgr_request ty pid level rid =
     \<lparr>rq_type = arbiter_req_code ty, rq_pid = pid, rq_target_level = level, rq_capability = [],
      rq_resource = [], rq_request_id = rid\<rparr>"

text \<open>The retry loop of \<open>register_as_manager\<close>; the environment may change between attempts.\<close>

function register_loop :: "(nat \<Rightarrow> mgr_env) \<Rightarrow> nat \<Rightarrow> manager_t \<Rightarrow> int \<times> manager_t" where
  "register_loop env attempt m =
     (if attempt \<le> 30 then
        (let e = env attempt;
             ((r, resp), arb') =
               request_arbiter e (mgr_request MREQ_REGISTER_MANAGER (me_pid e) 0 1) (mg_arb m);
             m' = m\<lparr>mg_arb := arb'\<rparr>
         in if r = 0 \<and> rs_status resp = 0
            then (0, audit e (''registered as manager pid='' @ dec (me_pid e)) m')
            else register_loop env (attempt + 1) m')
      else (-1, m))"
  by pat_completeness auto
termination by (relation "measure (\<lambda>(env, attempt, m). 31 - attempt)") auto

declare register_loop.simps [simp del]

definition register_as_manager :: "(nat \<Rightarrow> mgr_env) \<Rightarrow> manager_t \<Rightarrow> int \<times> manager_t" where
  "register_as_manager env m = register_loop env 1 m"

definition mgr_level_name :: "int \<Rightarrow> string" where
  "mgr_level_name level = (if level < 0 \<or> level > 11 then ''unknown'' else level_names ! nat level)"

section \<open>Console commands\<close>

definition cmd_authorize :: "mgr_env \<Rightarrow> pid_t \<Rightarrow> int \<Rightarrow> manager_t \<Rightarrow> int \<times> manager_t" where
  "cmd_authorize env target level m =
     (if level < 0 \<or> level > 11 then (-1, m)
      else
        (let req = mgr_request MREQ_AUTHORIZE target level (to_s32 (me_time env) mod 2 ^ 31);
             ((r, resp), arb') = request_arbiter env req (mg_arb m);
             m' = m\<lparr>mg_arb := arb'\<rparr>
         in if r \<noteq> 0 \<or> rs_status resp \<noteq> 0 then
              (-1, audit env (''authorize pid='' @ dec target @ '' level='' @ dec level @
                     '' FAILED: '' @ rs_reason resp)
                   (emit (''authorize failed: '' @ rs_reason resp) m'))
            else
              (0, audit env (''user authorized pid='' @ dec target @ '' to level='' @ dec level @
                    '' ('' @ mgr_level_name level @ '')'')
                  (emit (''Authorized PID '' @ dec target @ '' to level '' @ dec level @
                    '' ('' @ mgr_level_name level @ '')'') m'))))"

definition cmd_deauthorize :: "mgr_env \<Rightarrow> pid_t \<Rightarrow> manager_t \<Rightarrow> int \<times> manager_t" where
  "cmd_deauthorize env target m = cmd_authorize env target 0 m"

definition print_help :: "manager_t \<Rightarrow> manager_t" where
  "print_help m = fold emit
     [''System Manager commands:'', ''  help                        show this help'',
      ''  status                      show manager status'',
      ''  list                        list authorized processes (arbiter-side)'',
      ''  authorize <pid> <0-11>      grant process access up to a level'',
      ''  deauthorize <pid>           revoke all elevation rights for a process'',
      ''  service <start|stop> <name> control a system service'',
      ''  notify <pid> <msg>          send a notification to a process'',
      ''  quit                        stop the manager''] m"

definition cmd_status :: "mgr_env \<Rightarrow> manager_t \<Rightarrow> int \<times> manager_t" where
  "cmd_status env m =
     (0, emit (''PID: '' @ dec (me_pid env) @
           ''  Sock: /var/run/servecosys_mgr.sock  Arbiter: /var/run/servecosys_perm.sock'')
         (emit ''System Manager v0.1.0'' m))"

definition cmd_service :: "mgr_env \<Rightarrow> string \<Rightarrow> string \<Rightarrow> manager_t \<Rightarrow> int \<times> manager_t" where
  "cmd_service env action name m =
     (let m1 = audit env (''service action='' @ action @ '' name='' @ name) m;
          m2 = emit (''Service '' @ name @ '' scheduled: '' @ action) m1;
          path = fit 256 (''/system/backend/bin/'' @ name @ ''.smle'')
      in if action = ''start'' then
           (0, emit (''Started '' @ name @ '' (pid '' @ dec (me_fork env) @ '')'')
                 (if me_fork env \<ge> 0 then m2\<lparr>mg_spawned := mg_spawned m2 @ [path]\<rparr> else m2))
         else if action = ''stop'' then (0, emit (''Stop signal sent for '' @ name) m2)
         else (-1, emit (''Unknown service action: '' @ action) m2))"

definition cmd_notify :: "mgr_env \<Rightarrow> pid_t \<Rightarrow> string \<Rightarrow> manager_t \<Rightarrow> int \<times> manager_t" where
  "cmd_notify env target msg m =
     (0, emit (''Notification queued for PID '' @ dec target @ '': '' @ msg)
           (audit env (''notify pid='' @ dec target @ '' msg='' @ msg) m))"

definition handle_console :: "mgr_env \<Rightarrow> console_msg_t \<Rightarrow> manager_t \<Rightarrow> manager_t" where
  "handle_console env msg m =
     (case cm_cmd msg of
        Some CMD_STATUS \<Rightarrow> snd (cmd_status env m)
      | Some CMD_LIST \<Rightarrow>
          emit ''Authorized processes: query arbitration service state (see arbiter log)'' m
      | Some CMD_AUTHORIZE \<Rightarrow> snd (cmd_authorize env (cm_target_pid msg) (cm_level msg) m)
      | Some CMD_DEAUTHORIZE \<Rightarrow> snd (cmd_deauthorize env (cm_target_pid msg) m)
      | Some CMD_SERVICE \<Rightarrow> snd (cmd_service env (cm_arg1 msg) (cm_arg2 msg) m)
      | Some CMD_NOTIFY \<Rightarrow> snd (cmd_notify env (cm_target_pid msg) (cm_arg1 msg) m)
      | Some CMD_QUIT \<Rightarrow> (emit ''Shutting down system manager...'' m)\<lparr>mg_running := False\<rparr>
      | _ \<Rightarrow> print_help m)"

definition is_sensitive :: "console_msg_t \<Rightarrow> bool" where
  "is_sensitive msg =
     (cm_cmd msg = Some CMD_AUTHORIZE \<or> cm_cmd msg = Some CMD_DEAUTHORIZE \<or>
      cm_cmd msg = Some CMD_SERVICE \<or> cm_cmd msg = Some CMD_QUIT)"

text \<open>
  One connection of the main loop.  \<open>got\<close> is the message when \<open>read\<close> returned a positive count;
  \<open>cred\<close> is the uid in the socket credentials.  The comparison with \<open>geteuid()\<close> is unsigned.
\<close>

definition serve_console ::
  "mgr_env \<Rightarrow> console_msg_t option \<Rightarrow> int option \<Rightarrow> manager_t \<Rightarrow> manager_t" where
  "serve_console env got cred m =
     (case got of
        None \<Rightarrow> m
      | Some msg \<Rightarrow>
          (let peer_uid = get_peer_uid cred in
           if is_sensitive msg \<and> to_u32 peer_uid \<noteq> me_euid env then
             audit env (''denied console from uid='' @ dec peer_uid @ '' (untrusted)'')
               (if me_dup_ok env
                then emit (''denied: caller uid '' @ dec peer_uid @ '' lacks authority'') m
                else m)
           else handle_console env msg m))"

section \<open>The command line\<close>

text \<open>\<open>reply\<close> is what the daemon's socket delivers for a message, \<open>None\<close> when it cannot be reached.\<close>

definition cli_send_console ::
  "(console_msg_t \<Rightarrow> string option) \<Rightarrow> console_cmd_t \<Rightarrow> pid_t \<Rightarrow> int \<Rightarrow> int \<times> string" where
  "cli_send_console reply cmd target level =
     (case reply \<lparr>cm_cmd = Some cmd, cm_target_pid = target, cm_level = level, cm_arg1 = [],
                  cm_arg2 = []\<rparr> of
        None \<Rightarrow> (-1, [])
      | Some text' \<Rightarrow> if text' \<noteq> [] then (0, take 511 text') else (-1, []))"

definition cli_main :: "(console_msg_t \<Rightarrow> string option) \<Rightarrow> string list \<Rightarrow> int \<times> string" where
  "cli_main reply argv =
     (if length argv > 1 \<and> argv ! 1 = ''authorize'' \<and> length argv = 4 then
        (let target = atoi (argv ! 2); level = atoi (argv ! 3) in
         if level < 0 \<or> level > 11 then (2, [])
         else
           (let (r, shown) = cli_send_console reply CMD_AUTHORIZE target level in
            if r \<noteq> 0 then (1, []) else (0, shown)))
      else if length argv > 1 \<and> argv ! 1 = ''status'' then
        (let (r, shown) = cli_send_console reply CMD_STATUS 0 0 in
         if r \<noteq> 0 then (1, []) else (0, shown))
      else (2, ''Usage''))"

section \<open>The exchange with the arbiter\<close>

lemma wire_codes_agree:
  "map (request_type_of \<circ> arbiter_req_code)
     [MREQ_CHECK_PERM, MREQ_GET_LEVEL, MREQ_SET_LEVEL, MREQ_QUERY_CAP, MREQ_REGISTER_MANAGER, MREQ_AUTHORIZE] =
   map Some request_types"
  by (simp add: request_type_of_def request_types_def)

lemma mgr_request_type:
  "request_type_of (rq_type (mgr_request MREQ_AUTHORIZE pid l rid)) = Some REQ_AUTHORIZE"
  "request_type_of (rq_type (mgr_request MREQ_REGISTER_MANAGER pid l rid)) = Some REQ_REGISTER_MANAGER"
  by (simp_all add: mgr_request_def request_type_of_def request_types_def)

text \<open>An authorisation sent by the registered manager and served.\<close>

lemma authorize_served:
  assumes inv: "arb_inv st" and mgr: "manager_pid st = pid" "0 < pid" and l: "0 \<le> level" "level \<le> 11"
    and s: "serve_client os (Some (mgr_request MREQ_AUTHORIZE target level rid)) (Some pid) st = (r, st')"
  defines "room \<equiv> ledger_room (ledger_reap os (ledger st)) target"
  shows "\<exists>resp. r = Some resp \<and> (rs_status resp = 0 \<longleftrightarrow> room)"
    and "ledger st' = (if room then ledger_authorize os target level (ledger_reap os (ledger st))
                       else ledger_reap os (ledger st))"
    and "manager_pid st' = pid" and "arb_inv st'"
proof -
  let ?req = "mgr_request MREQ_AUTHORIZE target level rid" and ?st = "reap_dead_processes os st"
  have req: "rq_pid ?req = target" "rq_target_level ?req = level" by (simp_all add: mgr_request_def)
  have peer: "get_peer_pid (Some pid) = pid" using mgr by (simp add: get_peer_pid_def)
  obtain ra sa where auth: "authorize_process os target level pid ?st = (ra, sa)" by force
  note a = authorize_process_ledger [OF arb_inv_reap [OF inv] auth]
  have led: "ledger ?st = ledger_reap os (ledger st)" by (rule ledger_reap_creds [OF inv])
  have serve: "serve_client os (Some ?req) (Some pid) st =
      (Some (response (if ra = 0 then 0 else -1) 0 rid
         (if ra = 0 then ''process authorized up to level '' @ dec level else ''authorization denied'')), sa)"
    using l auth unfolding serve_client_def handle_request_def peer
    by (simp add: mgr_request_type handle_authorize_def req Let_def) (simp add: mgr_request_def)
  then have rs: "st' = sa" "r = Some (response (if ra = 0 then 0 else -1) 0 rid
         (if ra = 0 then ''process authorized up to level '' @ dec level else ''authorization denied''))"
    using s by simp_all
  have ra: "ra = (if room then 0 else -1)" using a(1) l mgr led by (simp add: room_def)
  show "\<exists>resp. r = Some resp \<and> (rs_status resp = 0 \<longleftrightarrow> room)"
    using rs(2) ra by (simp add: response_def)
  show "ledger st' = (if room then ledger_authorize os target level (ledger_reap os (ledger st))
                       else ledger_reap os (ledger st))"
    using a(2) ra rs(1) led by simp
  show "manager_pid st' = pid" using a(3) rs(1) mgr by simp
  show "arb_inv st'" using arb_inv_serve [OF inv, of os "Some ?req" "Some pid"] s by simp
qed

lemma cmd_authorize_served:
  fixes target :: pid_t
  assumes "arb_inv (mg_arb m)" "manager_pid (mg_arb m) = me_pid env" "0 < me_pid env"
    and "me_link env = Link_ok" "0 \<le> level" "level \<le> 11"
  defines "led \<equiv> ledger_reap (me_os env) (ledger (mg_arb m))"
  defines "m' \<equiv> snd (cmd_authorize env target level m)"
  shows "fst (cmd_authorize env target level m) = (if ledger_room led target then 0 else -1) \<and>
         ledger (mg_arb m') = (if ledger_room led target then ledger_authorize (me_os env) target level led else led) \<and>
         manager_pid (mg_arb m') = me_pid env \<and> arb_inv (mg_arb m') \<and> mg_running m' = mg_running m"
proof -
  let ?req = "mgr_request MREQ_AUTHORIZE target level (to_s32 (me_time env) mod 2 ^ 31)"
  obtain r st' where s: "serve_client (me_os env) (Some ?req) (Some (me_pid env)) (mg_arb m) = (r, st')" by force
  note a = authorize_served [OF assms(1-3,5,6) s, folded led_def]
  obtain resp where resp: "r = Some resp" "rs_status resp = 0 \<longleftrightarrow> ledger_room led target" using a(1) by blast
  have ra: "request_arbiter env ?req (mg_arb m) = ((0, resp), st')"
    using assms(4) s resp(1) by (simp add: request_arbiter_def)
  have "fst (cmd_authorize env target level m) = (if ledger_room led target then 0 else -1)"
    "mg_arb m' = st'" "mg_running m' = mg_running m"
    using assms(5,6) ra resp(2) unfolding m'_def
    by (simp_all add: cmd_authorize_def Let_def audit_def emit_def)
  with a(2,3,4) show ?thesis by simp
qed

lemma frame_out [simp]:
  "mg_arb (emit l m) = mg_arb m" "mg_running (emit l m) = mg_running m"
  "mg_spawned (emit l m) = mg_spawned m"
  "mg_arb (audit env l m) = mg_arb m" "mg_running (audit env l m) = mg_running m"
  "mg_spawned (audit env l m) = mg_spawned m"
  by (simp_all add: emit_def audit_def)

lemma frame_fold_emit [simp]:
  "mg_arb (fold emit ls m) = mg_arb m" "mg_running (fold emit ls m) = mg_running m"
  "mg_spawned (fold emit ls m) = mg_spawned m"
  by (induction ls arbitrary: m) simp_all

lemma harmless_commands:
  "\<not> is_sensitive msg \<Longrightarrow>
   mg_arb (handle_console env msg m) = mg_arb m \<and> mg_running (handle_console env msg m) = mg_running m \<and>
   mg_spawned (handle_console env msg m) = mg_spawned m"
  by (cases "cm_cmd msg")
    (auto simp: handle_console_def is_sensitive_def cmd_status_def cmd_notify_def print_help_def
       split: console_cmd_t.splits)

lemma register_loop_claims:
  "register_loop env k m = (0, m') \<Longrightarrow> \<forall>i. 0 < me_pid (env i) \<Longrightarrow>
   \<exists>i. k \<le> i \<and> i \<le> 30 \<and> manager_pid (mg_arb m') = me_pid (env i)"
proof (induction env k m arbitrary: m' rule: register_loop.induct)
  case (1 env k m)
  show ?case
  proof (cases "k \<le> 30")
    case False
    with "1.prems"(1) show ?thesis by (subst (asm) register_loop.simps) simp
  next
    case True
    define req where "req = mgr_request MREQ_REGISTER_MANAGER (me_pid (env k)) 0 1"
    obtain r resp arb' where ra: "request_arbiter (env k) req (mg_arb m) = ((r, resp), arb')" by (metis prod.exhaust)
    show ?thesis
    proof (cases "r = 0 \<and> rs_status resp = 0")
      case ok: True
      then have m': "mg_arb m' = arb'"
        using "1.prems"(1) True ra by (subst (asm) register_loop.simps) (auto simp: Let_def req_def)
      have served: "serve_client (me_os (env k)) (Some req) (Some (me_pid (env k))) (mg_arb m) = (Some resp, arb')"
        using ra ok by (auto simp: request_arbiter_def split: link.splits option.splits prod.splits)
      have "get_peer_pid (Some (me_pid (env k))) = me_pid (env k)"
        using "1.prems"(2) by (simp add: get_peer_pid_def less_imp_neq [symmetric])
      then have "manager_pid arb' = me_pid (env k)"
        using served ok mgr_request_type(2) [of "me_pid (env k)" 0 1, folded req_def]
        by (auto simp: serve_client_def handle_request_def handle_register_manager_def
            register_manager_def response_def Let_def split: if_splits)
      with m' True show ?thesis by auto
    next
      case False
      then have next_: "register_loop env (k + 1) (m\<lparr>mg_arb := arb'\<rparr>) = (0, m')"
        using "1.prems"(1) True ra by (subst (asm) register_loop.simps) (auto simp: Let_def req_def)
      from "1.IH" [OF True refl refl ra [unfolded req_def, symmetric] refl refl False next_ "1.prems"(2)]
      show ?thesis by (metis Suc_eq_plus1 Suc_leD)
    qed
  qed
qed


section \<open>Properties\<close>

type_synonym console_event = "mgr_env \<times> console_msg_t option \<times> int option"

fun console_step :: "console_event \<Rightarrow> manager_t \<Rightarrow> manager_t" where
  "console_step (env, got, cred) m = serve_console env got cred m"

fun untrusted :: "console_event \<Rightarrow> bool" where
  "untrusted (env, got, cred) \<longleftrightarrow> to_u32 (get_peer_uid cred) \<noteq> me_euid env"

text \<open>
  Claim C10.  The uid gate.  Whatever clients running under another user send to the console, and
  however often, the arbiter's table and manager stay as they are, no service is started and the
  daemon keeps running.
\<close>

theorem untrusted_console_harmless:
  assumes "\<forall>ev \<in> set evs. untrusted ev"
  shows "mg_arb (fold console_step evs m) = mg_arb m \<and>
         mg_spawned (fold console_step evs m) = mg_spawned m \<and>
         mg_running (fold console_step evs m) = mg_running m"
  using assms
proof (induction evs arbitrary: m)
  case (Cons ev evs)
  obtain env got cred where ev: "ev = (env, got, cred)" by (cases ev) auto
  have one: "mg_arb (console_step ev m) = mg_arb m \<and> mg_spawned (console_step ev m) = mg_spawned m \<and>
      mg_running (console_step ev m) = mg_running m"
  proof (cases got)
    case (Some msg)
    with Cons.prems ev harmless_commands [of msg env m] show ?thesis
      by (simp add: serve_console_def Let_def)
  qed (simp add: ev serve_console_def)
  with Cons show ?case by simp
qed simp

definition demo_mgr :: manager_t where
  "demo_mgr = \<lparr>mg_running = True, mg_arb = demo_state, mg_out = [], mg_audit = [], mg_spawned = []\<rparr>"

definition demo_env :: mgr_env where
  "demo_env = \<lparr>me_os = demo_os, me_pid = 20, me_euid = 0, me_link = Link_ok, me_time = 5, me_fork = 99,
     me_log_ok = True, me_dup_ok = True\<rparr>"

definition demo_msg :: "console_cmd_t \<Rightarrow> pid_t \<Rightarrow> int \<Rightarrow> console_msg_t" where
  "demo_msg c pid l = \<lparr>cm_cmd = Some c, cm_target_pid = pid, cm_level = l, cm_arg1 = ''start'', cm_arg2 = ''sh''\<rparr>"

theorem untrusted_console_harmless_witness:
  "mg_arb (fold console_step [(demo_env, Some (demo_msg CMD_AUTHORIZE 30 11), Some 1000),
      (demo_env, Some (demo_msg CMD_QUIT 0 0), Some 1000)] demo_mgr) = demo_state"
  using untrusted_console_harmless [of "[(demo_env, Some (demo_msg CMD_AUTHORIZE 30 11), Some 1000),
      (demo_env, Some (demo_msg CMD_QUIT 0 0), Some 1000)]" demo_mgr]
  by (simp add: demo_env_def get_peer_uid_def demo_mgr_def)

text \<open>
  Claim C9.  End to end.  When the daemon is the registered manager and a client of its own user
  authorises a process over the console, the arbiter (after dropping dead processes) records exactly
  that cap for that process, changes no level, and keeps its invariant; the only obstacle is a full
  table.
\<close>

theorem console_authorize_grants:
  assumes "arb_inv (mg_arb m)" "manager_pid (mg_arb m) = me_pid env" "0 < me_pid env"
    and "me_link env = Link_ok" "to_u32 (get_peer_uid cred) = me_euid env"
    and "cm_cmd msg = Some CMD_AUTHORIZE" "0 \<le> cm_level msg" "cm_level msg \<le> 11"
    and "ledger_room (ledger_reap (me_os env) (ledger (mg_arb m))) (cm_target_pid msg)"
  shows "ledger (mg_arb (serve_console env (Some msg) cred m)) =
           ledger_authorize (me_os env) (cm_target_pid msg) (cm_level msg)
             (ledger_reap (me_os env) (ledger (mg_arb m))) \<and>
         arb_cap (cm_target_pid msg) (mg_arb (serve_console env (Some msg) cred m)) = cm_level msg \<and>
         arb_inv (mg_arb (serve_console env (Some msg) cred m))"
proof -
  have "serve_console env (Some msg) cred m = snd (cmd_authorize env (cm_target_pid msg) (cm_level msg) m)"
    using assms(5,6) by (simp add: serve_console_def Let_def handle_console_def)
  with cmd_authorize_served [OF assms(1-4,7,8), of "cm_target_pid msg"] assms(9) show ?thesis
    by (simp add: arb_cap_def ledger_cap_def ledger_authorize_def split: option.split)
qed

lemma demo_mgr_ok:
  "arb_inv (mg_arb demo_mgr)" "manager_pid (mg_arb demo_mgr) = me_pid demo_env" "0 < me_pid demo_env"
  "me_link demo_env = Link_ok" "to_u32 (get_peer_uid (Some 0)) = me_euid demo_env"
  by (simp_all add: demo_mgr_def demo_env_def demo_inv demo_manager get_peer_uid_def)

lemma demo_room: "ledger_room (ledger_reap demo_os (ledger demo_state)) 30"
  by (auto simp: ledger_room_def ledger_reap_def ledger_def demo_entry process_alive_def demo_os_def)

theorem console_authorize_grants_witness:
  "arb_cap 30 (mg_arb (serve_console demo_env (Some (demo_msg CMD_AUTHORIZE 30 9)) (Some 0) demo_mgr)) = 9"
  using console_authorize_grants [OF demo_mgr_ok, of "demo_msg CMD_AUTHORIZE 30 9"] demo_room
  by (simp add: demo_msg_def demo_mgr_def demo_env_def)




definition fresh_mgr :: manager_t where
  "fresh_mgr = \<lparr>mg_running = True, mg_arb = arbiter_start demo_os 10, mg_out = [], mg_audit = [], mg_spawned = []\<rparr>"

definition flaky_env :: "nat \<Rightarrow> mgr_env" where
  "flaky_env i = demo_env\<lparr>me_link := (if i < 3 then Link_down else Link_ok)\<rparr>"

lemma flaky_registers: "fst (register_as_manager flaky_env fresh_mgr) = 0"
  by code_simp


end
