(* ===== verification/Sub_Kernel.thy ===== *)
theory Sub_Kernel
  imports System_Manager
begin

text \<open>
  The arbiter and the system manager together: the manager serves its console and sends requests to the arbiter
  (\<open>system_manager.c\<close>), every other process talks to the arbiter itself (\<open>permission_arbiter.c\<close>), in any order.  A run
  is observed while the manager lives, so the kernel reports its pid as alive and nobody else has it.
\<close>

section \<open>The system\<close>

datatype sys_event =
    Sys_console mgr_env "console_msg_t option" "int option"
  | Sys_client os_view "perm_request_t option" "pid_t option"

definition alive_view :: "pid_t \<Rightarrow> os_view \<Rightarrow> os_view" where
  "alive_view self os = os\<lparr>kill0 := (kill0 os)(self := Kill_ok)\<rparr>"

definition mgr_view :: "pid_t \<Rightarrow> mgr_env \<Rightarrow> mgr_env" where
  "mgr_view self env = env\<lparr>me_pid := self, me_os := alive_view self (me_os env)\<rparr>"

text \<open>One event; after the manager's end nothing is observed any more.\<close>

fun sys_step :: "pid_t \<Rightarrow> sys_event \<Rightarrow> manager_t \<Rightarrow> manager_t" where
  "sys_step self (Sys_console env got uid) m =
     (if mg_running m then serve_console (mgr_view self env) got uid m else m)"
| "sys_step self (Sys_client os got cred) m =
     (if mg_running m \<and> get_peer_pid cred \<noteq> self
      then m\<lparr>mg_arb := snd (serve_client (alive_view self os) got cred (mg_arb m))\<rparr> else m)"

text \<open>What the operator grants: an authorisation by a console client of the manager's own user.\<close>

fun sys_grant :: "sys_event \<Rightarrow> manager_t \<Rightarrow> (pid_t \<times> int) option" where
  "sys_grant (Sys_console env (Some msg) uid) m =
     (if cm_cmd msg = Some CMD_AUTHORIZE \<and> to_u32 (get_peer_uid uid) = me_euid env
      then Some (cm_target_pid msg, cm_level msg) else None)"
| "sys_grant _ m = None"

definition sys_inv :: "pid_t \<Rightarrow> manager_t \<Rightarrow> bool" where
  "sys_inv self m \<longleftrightarrow> 0 < self \<and> arb_inv (mg_arb m) \<and> manager_pid (mg_arb m) = self"

section \<open>One step\<close>

lemma alive_self [simp]: "process_alive (alive_view self os) self"
  by (simp add: alive_view_def process_alive_def)

lemma spec_request_manager:
  "spec_request os req peer (led, mgr) = (led', mgr') \<Longrightarrow> 0 \<le> mgr \<Longrightarrow> process_alive os mgr \<Longrightarrow> mgr' = mgr"
  by (auto simp: spec_request_def Let_def split: option.splits request_type_t.splits if_splits)

lemma manager_stays:
  assumes "arb_inv st" "manager_pid st = self" "0 < self"
  shows "manager_pid (arb_step (alive_view self os, got, cred) st) = self"
proof (cases got)
  case None
  with assms show ?thesis by (simp add: serve_client_def)
next
  case (Some req)
  obtain led mgr where sp: "spec_request (alive_view self os) req (get_peer_pid cred)
      (ledger_reap (alive_view self os) (ledger st), manager_pid st) = (led, mgr)" by force
  with serve_request_abs [OF assms(1), of "alive_view self os" req cred]
  have "manager_pid (arb_step (alive_view self os, got, cred) st) = mgr" by (simp add: Some arb_abs_def)
  with spec_request_manager [OF sp] assms show ?thesis by simp
qed

text \<open>A console client makes the manager send at most one authorisation, and only a trusted one does.\<close>

lemma console_request:
  "mg_arb (serve_console env (Some msg) uid m) = mg_arb m \<or>
   (\<exists>level rid. to_u32 (get_peer_uid uid) = me_euid env \<and> 0 \<le> level \<and> level \<le> 11 \<and>
      (cm_cmd msg = Some CMD_AUTHORIZE \<and> level = cm_level msg \<or> cm_cmd msg = Some CMD_DEAUTHORIZE \<and> level = 0) \<and>
      mg_arb (serve_console env (Some msg) uid m) =
        arb_step (me_os env, Some (mgr_request MREQ_AUTHORIZE (cm_target_pid msg) level rid), Some (me_pid env)) (mg_arb m))"
proof -
  have req: "snd (request_arbiter env req arb) =
      (if me_link env = Link_down then arb else arb_step (me_os env, Some req, Some (me_pid env)) arb)" for req arb
    by (auto simp: request_arbiter_def split: link.split option.split prod.split)
  have "mg_arb (snd (cmd_authorize env target level m)) =
      (if level < 0 \<or> level > 11 then mg_arb m
       else snd (request_arbiter env (mgr_request MREQ_AUTHORIZE target level (to_s32 (me_time env) mod 2 ^ 31)) (mg_arb m)))"
    for target level by (auto simp: cmd_authorize_def Let_def split: prod.split)
  then have auth: "mg_arb (snd (cmd_authorize env target level m)) = mg_arb m \<or>
      (0 \<le> level \<and> level \<le> 11 \<and> (\<exists>rid. mg_arb (snd (cmd_authorize env target level m)) =
        arb_step (me_os env, Some (mgr_request MREQ_AUTHORIZE target level rid), Some (me_pid env)) (mg_arb m)))" for target level
    unfolding req by (auto simp del: arb_step.simps)
  show ?thesis
  proof (cases "is_sensitive msg")
    case False
    then show ?thesis using harmless_commands [OF False, of env m] by (simp add: serve_console_def Let_def)
  next
    case True
    show ?thesis
    proof (cases "to_u32 (get_peer_uid uid) = me_euid env")
      case False
      with True show ?thesis by (simp add: serve_console_def Let_def)
    next
      case trusted: True
      then have s: "serve_console env (Some msg) uid m = handle_console env msg m" by (simp add: serve_console_def Let_def)
      from True consider (a) "cm_cmd msg = Some CMD_AUTHORIZE" | (d) "cm_cmd msg = Some CMD_DEAUTHORIZE"
        | (o) "cm_cmd msg = Some CMD_SERVICE \<or> cm_cmd msg = Some CMD_QUIT" by (auto simp: is_sensitive_def)
      then show ?thesis
      proof cases
        case a
        with auth [of "cm_target_pid msg" "cm_level msg"] trusted show ?thesis by (auto simp: s handle_console_def)
      next
        case d
        with auth [of "cm_target_pid msg" 0] trusted show ?thesis by (auto simp: s handle_console_def cmd_deauthorize_def)
      next
        case o
        then show ?thesis by (auto simp: s handle_console_def cmd_service_def Let_def)
      qed
    qed
  qed
qed

text \<open>An event of the system is at most one event of the arbiter, and what that one grants was granted by the operator.\<close>

lemma sys_step_arb:
  assumes "sys_inv self m"
  shows "mg_arb (sys_step self ev m) = mg_arb m \<or>
    (\<exists>os got cred. mg_arb (sys_step self ev m) = arb_step (alive_view self os, got, cred) (mg_arb m) \<and>
       (\<forall>p c. arb_grant (alive_view self os, got, cred) (mg_arb m) = Some (p, c) \<longrightarrow> c \<le> 0 \<or> sys_grant ev m = Some (p, c)))"
proof (cases ev)
  case (Sys_client os got cred)
  show ?thesis
  proof (cases "mg_running m \<and> get_peer_pid cred \<noteq> self")
    case True
    then have "arb_grant (alive_view self os, got, cred) (mg_arb m) = None"
      using assms by (auto simp: sys_inv_def split: option.split)
    with True Sys_client show ?thesis by (auto intro!: exI [of _ os] exI [of _ got] exI [of _ cred])
  next
    case False
    then have "sys_step self ev m = m" by (auto simp: Sys_client)
    then show ?thesis by simp
  qed
next
  case (Sys_console env got uid)
  show ?thesis
  proof (cases "mg_running m \<and> got \<noteq> None")
    case False
    then show ?thesis by (auto simp: Sys_console serve_console_def)
  next
    case True
    then obtain msg where got: "got = Some msg" by auto
    let ?env = "mgr_view self env"
    have step: "mg_arb (sys_step self ev m) = mg_arb (serve_console ?env (Some msg) uid m)"
      using True by (simp add: Sys_console got)
    from console_request [of ?env msg uid m] show ?thesis
    proof
      assume "\<exists>level rid. to_u32 (get_peer_uid uid) = me_euid ?env \<and> 0 \<le> level \<and> level \<le> 11 \<and>
        (cm_cmd msg = Some CMD_AUTHORIZE \<and> level = cm_level msg \<or> cm_cmd msg = Some CMD_DEAUTHORIZE \<and> level = 0) \<and>
        mg_arb (serve_console ?env (Some msg) uid m) =
          arb_step (me_os ?env, Some (mgr_request MREQ_AUTHORIZE (cm_target_pid msg) level rid), Some (me_pid ?env)) (mg_arb m)"
      then obtain level rid where l: "to_u32 (get_peer_uid uid) = me_euid env" "0 \<le> level" "level \<le> 11"
        "cm_cmd msg = Some CMD_AUTHORIZE \<and> level = cm_level msg \<or> cm_cmd msg = Some CMD_DEAUTHORIZE \<and> level = 0"
        "mg_arb (sys_step self ev m) = arb_step (alive_view self (me_os env),
           Some (mgr_request MREQ_AUTHORIZE (cm_target_pid msg) level rid), Some self) (mg_arb m)"
        unfolding step by (auto simp: mgr_view_def)
      have "c \<le> 0 \<or> sys_grant ev m = Some (p, c)"
        if "arb_grant (alive_view self (me_os env), Some (mgr_request MREQ_AUTHORIZE (cm_target_pid msg) level rid), Some self)
            (mg_arb m) = Some (p, c)" for p c
        using that l(1-4) by (auto simp: Sys_console got mgr_request_def split: if_splits)
      with l(5) show ?thesis by blast
    qed (simp add: step)
  qed
qed

text \<open>The system is a privilege service whose authorisations are the operator's.\<close>

lemma sys_laws:
  assumes "sys_inv self m"
  shows "sys_inv self (sys_step self ev m)"
    and "get_process_level p (mg_arb (sys_step self ev m)) \<le> 2 \<or>
      get_process_level p (mg_arb (sys_step self ev m)) \<le> get_process_level p (mg_arb m) \<or>
      get_process_level p (mg_arb (sys_step self ev m)) \<le> arb_cap p (mg_arb m)"
    and "arb_cap p (mg_arb (sys_step self ev m)) \<le> 0 \<or> arb_cap p (mg_arb (sys_step self ev m)) = arb_cap p (mg_arb m) \<or>
      sys_grant ev m = Some (p, arb_cap p (mg_arb (sys_step self ev m)))"
proof -
  have inv: "arb_inv (mg_arb m)" "manager_pid (mg_arb m) = self" "0 < self" using assms by (simp_all add: sys_inv_def)
  show "sys_inv self (sys_step self ev m)"
    using sys_step_arb [OF assms, of ev] inv arb.inv_step [OF inv(1)] manager_stays [OF inv] by (auto simp: sys_inv_def)
  show "get_process_level p (mg_arb (sys_step self ev m)) \<le> 2 \<or>
      get_process_level p (mg_arb (sys_step self ev m)) \<le> get_process_level p (mg_arb m) \<or>
      get_process_level p (mg_arb (sys_step self ev m)) \<le> arb_cap p (mg_arb m)"
    using sys_step_arb [OF assms, of ev] arb.raise_law [OF inv(1), where p = p] by (metis order_refl)
  show "arb_cap p (mg_arb (sys_step self ev m)) \<le> 0 \<or> arb_cap p (mg_arb (sys_step self ev m)) = arb_cap p (mg_arb m) \<or>
      sys_grant ev m = Some (p, arb_cap p (mg_arb (sys_step self ev m)))"
    using sys_step_arb [OF assms, of ev] arb.cap_law [OF inv(1), where p = p] by metis
qed

interpretation sys: privilege_service "sys_step self" sys_grant
  "\<lambda>p m. get_process_level p (mg_arb m)" "\<lambda>p m. arb_cap p (mg_arb m)" 2 "sys_inv self" for self
  by unfold_locales (rule sys_laws; assumption)+

section \<open>Start-up\<close>

text \<open>The registration loop only sends registrations, which authorise nobody.\<close>

lemma register_loop_events:
  "register_loop env k m = (r, m') \<Longrightarrow>
   \<exists>evs. mg_arb m' = fold arb_step evs (mg_arb m) \<and> (\<forall>ev \<in> set evs. \<forall>st. arb_grant ev st = None)"
proof (induction env k m arbitrary: r m' rule: register_loop.induct)
  case (1 env k m)
  show ?case
  proof (cases "k \<le> 30")
    case False
    with "1.prems" have "m' = m" by (subst (asm) register_loop.simps) simp
    then show ?thesis by (intro exI [of _ "[]"]) simp
  next
    case True
    define req where "req = mgr_request MREQ_REGISTER_MANAGER (me_pid (env k)) 0 1"
    obtain r1 resp arb' where ra: "request_arbiter (env k) req (mg_arb m) = ((r1, resp), arb')" by (metis prod.exhaust)
    then have "arb' = mg_arb m \<or> arb' = arb_step (me_os (env k), Some req, Some (me_pid (env k))) (mg_arb m)"
      by (auto simp: request_arbiter_def split: link.splits option.splits prod.splits)
    moreover have "arb_grant (me_os (env k), Some req, Some (me_pid (env k))) st = None" for st
      by (simp add: req_def mgr_request_type)
    ultimately obtain ev1 where ev1: "arb' = fold arb_step ev1 (mg_arb m)" "\<forall>ev \<in> set ev1. \<forall>st. arb_grant ev st = None"
      by (metis fold_simps set_ConsD empty_iff list.set(1))
    show ?thesis
    proof (cases "r1 = 0 \<and> rs_status resp = 0")
      case ok: True
      then have "mg_arb m' = arb'"
        using "1.prems"(1) True ra by (subst (asm) register_loop.simps) (auto simp: Let_def req_def)
      with ev1 show ?thesis by metis
    next
      case False
      then have next_: "register_loop env (k + 1) (m\<lparr>mg_arb := arb'\<rparr>) = (r, m')"
        using "1.prems"(1) True ra by (subst (asm) register_loop.simps) (auto simp: Let_def req_def)
      from "1.IH" [OF True refl refl ra [unfolded req_def, symmetric] refl refl False next_]
      obtain ev2 where "mg_arb m' = fold arb_step ev2 arb'" "\<forall>ev \<in> set ev2. \<forall>st. arb_grant ev st = None" by auto
      with ev1 show ?thesis by (intro exI [of _ "ev1 @ ev2"]) auto
    qed
  qed
qed

lemma fresh_arbiter:
  assumes "p \<noteq> arb"
  shows "get_process_level p (arbiter_start os arb) = 1" "arb_cap p (arbiter_start os arb) = 0"
proof -
  have "find_process p (arbiter_start os arb) = None"
    using assms by (simp add: find_process_def arbiter_start_def register_process_def arbiter_init_def MAX_REQUESTS_def
        perm_levels)
  then have "creds (arbiter_start os arb) p = None" by (simp add: creds_def)
  then show "get_process_level p (arbiter_start os arb) = 1" "arb_cap p (arbiter_start os arb) = 0"
    by (simp_all add: get_process_level_creds PERM_SANDBOX_def arb_cap_def ledger_cap_def ledger_def)
qed

lemma registered_start:
  assumes "mg_arb m0 = arbiter_start os arb" "register_as_manager env m0 = (0, m)"
    and "\<forall>i. me_pid (env i) = self" "0 < self"
  shows "sys_inv self m" and "p \<noteq> arb \<Longrightarrow> get_process_level p (mg_arb m) \<le> 2 \<and> arb_cap p (mg_arb m) \<le> 0"
proof -
  obtain evs where evs: "mg_arb m = fold arb_step evs (arbiter_start os arb)" "\<forall>ev \<in> set evs. \<forall>st. arb_grant ev st = None"
    using register_loop_events assms(1,2) by (metis register_as_manager_def)
  have "manager_pid (mg_arb m) = self"
    using register_loop_claims [of env 1 m0 m] assms(2-4) by (auto simp: register_as_manager_def)
  then show "sys_inv self m" using evs(1) arb.inv_run [OF arb_inv_start] assms(4) by (simp add: sys_inv_def)
  have none: "\<forall>c. (p, c) \<notin> set (grant_log arb_grant arb_step (arbiter_start os arb) evs)"
    using evs(2) grant_log_event by fastforce
  assume "p \<noteq> arb"
  with arb.run_without_grant [OF arb_inv_start none] arb.run_cap_without_grant [OF arb_inv_start none] fresh_arbiter [of p arb os]
  show "get_process_level p (mg_arb m) \<le> 2 \<and> arb_cap p (mg_arb m) \<le> 0" by (simp add: evs(1))
qed

section \<open>Properties\<close>

text \<open>
  Claim C1.  Nobody rises without the operator.  The arbiter starts, the system manager registers with it, and then its
  console and the arbiter serve any clients in any order, with any requests, any answers of the kernel and any failures of
  the manager's connections.  A process other than the arbiter that holds a level above \<open>user\<close> at any moment of the
  manager's life was authorised over the console, by a client running under the manager's own user id, up to at least
  that level.
\<close>

theorem no_rise_without_operator:
  assumes "mg_arb m0 = arbiter_start os arb" "register_as_manager env m0 = (0, m)"
    and "\<forall>i. me_pid (env i) = self" "0 < self" "p \<noteq> arb"
    and "get_process_level p (mg_arb (fold (sys_step self) evs m)) > 2"
  shows "\<exists>cenv msg uid. Sys_console cenv (Some msg) uid \<in> set evs \<and> cm_cmd msg = Some CMD_AUTHORIZE \<and>
    cm_target_pid msg = p \<and> to_u32 (get_peer_uid uid) = me_euid cenv \<and>
    get_process_level p (mg_arb (fold (sys_step self) evs m)) \<le> cm_level msg"
proof -
  note start = registered_start [OF assms(1-4)]
  obtain c where c: "(p, c) \<in> set (grant_log sys_grant (sys_step self) m evs)"
    "get_process_level p (mg_arb (fold (sys_step self) evs m)) \<le> c"
    using sys.run_level_authorised [OF start(1), of p evs] start(2) [OF assms(5)] assms(6) by fastforce
  then obtain ev t where "ev \<in> set evs" "sys_grant ev t = Some (p, c)" using grant_log_event by metis
  with c(2) show ?thesis by (cases "(ev, t)" rule: sys_grant.cases) (auto split: if_splits)
qed

definition demo_sys :: "sys_event list" where
  "demo_sys =
     [Sys_client demo_os (Some (demo_req 5 30 11)) (Some 30),
      Sys_console demo_env (Some (demo_msg CMD_AUTHORIZE 30 8)) (Some 0),
      Sys_client demo_os (Some (demo_req 2 30 8)) (Some 30)]"

lemma demo_sys_level:
  "get_process_level 30 (mg_arb (fold (sys_step 20) demo_sys (snd (register_as_manager flaky_env fresh_mgr)))) = 8"
  by code_simp

theorem no_rise_without_operator_witness:
  "\<exists>cenv msg uid. Sys_console cenv (Some msg) uid \<in> set demo_sys \<and> cm_cmd msg = Some CMD_AUTHORIZE \<and>
    cm_target_pid msg = 30 \<and> to_u32 (get_peer_uid uid) = me_euid cenv \<and>
    get_process_level 30 (mg_arb (fold (sys_step 20) demo_sys (snd (register_as_manager flaky_env fresh_mgr)))) \<le> cm_level msg"
proof (rule no_rise_without_operator)
  show "mg_arb fresh_mgr = arbiter_start demo_os 10" by (simp add: fresh_mgr_def)
  show "register_as_manager flaky_env fresh_mgr = (0, snd (register_as_manager flaky_env fresh_mgr))"
    using flaky_registers by (simp add: prod_eq_iff)
  show "2 < get_process_level 30 (mg_arb (fold (sys_step 20) demo_sys (snd (register_as_manager flaky_env fresh_mgr))))"
    unfolding demo_sys_level by simp
qed (simp_all add: flaky_env_def demo_env_def)

text \<open>
  The registration itself is open to everyone: before the manager has registered, or after it has died, any process
  becomes the one that authorises, itself included, and takes level 11.
\<close>

lemma anyone_may_register:
  "get_process_level 30 (fold arb_step
     [(demo_os, Some (demo_req 4 30 0), Some 30), (demo_os, Some (demo_req 5 30 11), Some 30),
      (demo_os, Some (demo_req 2 30 11), Some 30)] (arbiter_start demo_os 10)) = 11"
  by code_simp

end
