(* ===== verification/Bignum.thy ===== *)
theory Bignum
  imports Prelude
begin

text \<open>
  The fixed-width big integers of \<open>boot/crypto.c\<close>: little-endian arrays of 32-bit limbs, with the
  carries and borrows of the C code in 64-bit arithmetic.  The loops over an index are folds over
  the index range; an array is the list of all its limbs.
\<close>

section \<open>Operations\<close>

definition BN :: nat where "BN = 64"
definition BN_PROD :: nat where "BN_PROD = 128"

fun bn_cmp :: "u32 list \<Rightarrow> u32 list \<Rightarrow> nat \<Rightarrow> int" where
  "bn_cmp a b 0 = 0"
| "bn_cmp a b (Suc i) =
     (if a ! i > b ! i then 1 else if a ! i < b ! i then -1 else bn_cmp a b i)"

definition sub_step :: "u32 list \<Rightarrow> nat \<Rightarrow> u32 list \<times> u64 \<Rightarrow> u32 list \<times> u64" where
  "sub_step b i = (\<lambda>(a, borrow).
     let cur = ucast (a ! i) - ucast (b ! i) - borrow in
     (a[i := ucast cur], ucast ((ucast (drop_bit 32 cur) :: u32) AND 1)))"

definition bn_sub :: "u32 list \<Rightarrow> u32 list \<Rightarrow> nat \<Rightarrow> u32 list" where
  "bn_sub a b n = fst (fold (sub_step b) [0..<n] (a, 0))"

definition shl_step :: "nat \<Rightarrow> u32 list \<times> u32 \<Rightarrow> u32 list \<times> u32" where
  "shl_step i = (\<lambda>(r, carry).
     let cur = push_bit 1 (ucast (r ! i) :: u64) OR ucast carry in
     (r[i := ucast cur], ucast (drop_bit 32 cur)))"

definition bn_shl1 :: "u32 list \<Rightarrow> nat \<Rightarrow> u32 \<Rightarrow> u32 list" where
  "bn_shl1 r n bv = fst (fold shl_step [0..<n] (r, if bv \<noteq> 0 then 1 else 0))"

definition mul_step :: "u32 list \<Rightarrow> u32 list \<Rightarrow> nat \<Rightarrow> nat \<Rightarrow> u32 list \<times> u32 \<Rightarrow> u32 list \<times> u32" where
  "mul_step a b i j = (\<lambda>(out, carry).
     let cur = (ucast (out ! (i + j)) :: u64) + ucast (a ! i) * ucast (b ! j) + ucast carry in
     (out[i + j := ucast cur], ucast (drop_bit 32 cur)))"

definition mul_row :: "u32 list \<Rightarrow> u32 list \<Rightarrow> nat \<Rightarrow> nat \<Rightarrow> u32 list \<Rightarrow> u32 list" where
  "mul_row a b n i out =
     (let (out', carry) = fold (mul_step a b i) [0..<n] (out, 0) in out'[i + n := carry])"

definition bn_mul :: "u32 list \<Rightarrow> u32 list \<Rightarrow> nat \<Rightarrow> u32 list" where
  "bn_mul a b n = fold (mul_row a b n) [0..<n] (replicate (2 * n) 0)"

text \<open>\<open>in\<close> is the input of \<open>bn_reduce\<close>, scanned from its highest bit.\<close>

definition reduce_step :: "u32 list \<Rightarrow> u32 list \<Rightarrow> nat \<Rightarrow> nat \<Rightarrow> u32 list \<Rightarrow> u32 list" where
  "reduce_step inp m mn i r =
     (let bv = drop_bit (i mod 32) (inp ! (i div 32)) AND 1;
          top = drop_bit 31 (r ! (mn - 1)) AND 1;
          r1 = bn_shl1 r mn bv
      in if top \<noteq> 0 \<or> bn_cmp r1 m mn \<ge> 0 then bn_sub r1 m mn else r1)"

definition bn_reduce :: "u32 list \<Rightarrow> nat \<Rightarrow> u32 list \<Rightarrow> nat \<Rightarrow> u32 list" where
  "bn_reduce inp in_limbs m mn =
     fold (reduce_step inp m mn) (rev [0..<in_limbs * 32]) (replicate mn 0)"

definition bn_mul_mod :: "u32 list \<Rightarrow> u32 list \<Rightarrow> u32 list \<Rightarrow> u32 list" where
  "bn_mul_mod a b m = bn_reduce (bn_mul a b BN) BN_PROD m BN"

lemma halve_less: "(e :: u32) \<noteq> 0 \<Longrightarrow> unat (drop_bit 1 e) < unat e"
proof -
  assume "e \<noteq> 0"
  then have "0 < unat e" by (simp add: unat_gt_0)
  then show "unat (drop_bit 1 e) < unat e"
    unfolding unat_drop_bit_eq drop_bit_eq_div [where 'a = nat] by simp
qed

function modexp_loop :: "u32 list \<Rightarrow> u32 list \<Rightarrow> u32 \<Rightarrow> u32 list \<Rightarrow> u32 list" where
  "modexp_loop result b e m =
     (if e \<noteq> 0 then
        (let result' = (if e AND 1 \<noteq> 0 then bn_mul_mod result b m else result);
             e' = drop_bit 1 e;
             b' = (if e' \<noteq> 0 then bn_mul_mod b b m else b)
         in modexp_loop result' b' e' m)
      else result)"
  by pat_completeness auto
termination by (relation "measure (\<lambda>(result, b, e, m). unat e)") (simp_all add: halve_less del: One_nat_def)

declare modexp_loop.simps [simp del]

definition bn_modexp :: "u32 list \<Rightarrow> u32 \<Rightarrow> u32 list \<Rightarrow> u32 list" where
  "bn_modexp base e m = modexp_loop ((replicate BN 0)[0 := 1]) base e m"

text \<open>\<open>limb\<close> and \<open>sh\<close> of the byte conversions; \<open>b\<close> counts from the most significant byte.\<close>

definition byte_limb :: "nat \<Rightarrow> nat \<Rightarrow> nat" where
  "byte_limb nbytes b = (nbytes - 1 - b) div 4"

definition byte_shift :: "nat \<Rightarrow> nat" where
  "byte_shift b = 24 - (b mod 4) * 8"

definition bn_from_bytes :: "u8 list \<Rightarrow> nat \<Rightarrow> u32 list" where
  "bn_from_bytes bytes nbytes =
     fold (\<lambda>b out. out[byte_limb nbytes b :=
                out ! byte_limb nbytes b OR push_bit (byte_shift b) (ucast (bytes ! b))])
       [0..<nbytes] (replicate BN 0)"

definition bn_to_bytes :: "u32 list \<Rightarrow> nat \<Rightarrow> u8 list" where
  "bn_to_bytes inp nbytes =
     map (\<lambda>b. ucast (drop_bit (byte_shift b) (inp ! byte_limb nbytes b))) [0..<nbytes]"

section \<open>Values\<close>

definition limb_base :: nat where "limb_base = 2 ^ 32"

primrec bn_val :: "u32 list \<Rightarrow> nat" where
  "bn_val [] = 0"
| "bn_val (x # xs) = unat x + limb_base * bn_val xs"

lemma limb_base_pos [simp]: "0 < limb_base"
  by (simp add: limb_base_def)

lemma unat_u32: "unat (x :: u32) < limb_base"
  using unsigned_less [of x] by (simp add: limb_base_def)

lemma bn_val_append: "bn_val (xs @ ys) = bn_val xs + limb_base ^ length xs * bn_val ys"
  by (induction xs) (simp_all add: algebra_simps)

lemma bn_val_less: "bn_val xs < limb_base ^ length xs"
proof (induction xs)
  case (Cons x xs)
  have "unat x + limb_base * bn_val xs < limb_base * (bn_val xs + 1)" using unat_u32 [of x] by simp
  also have "\<dots> \<le> limb_base * limb_base ^ length xs" using Cons by (intro mult_le_mono2) simp
  finally show ?case by simp
qed simp

lemma bn_val_replicate_0 [simp]: "bn_val (replicate n 0) = 0"
  by (induction n) simp_all

lemma bn_val_update:
  "i < length xs \<Longrightarrow>
   bn_val (xs[i := v]) + limb_base ^ i * unat (xs ! i) = bn_val xs + limb_base ^ i * unat v"
proof (induction xs arbitrary: i)
  case (Cons x xs)
  show ?case
  proof (cases i)
    case (Suc j)
    with Cons.prems Cons.IH [of j] have
      "limb_base * (bn_val (xs[j := v]) + limb_base ^ j * unat (xs ! j)) =
       limb_base * (bn_val xs + limb_base ^ j * unat v)" by simp
    with Suc show ?thesis by (simp add: algebra_simps)
  qed simp
qed simp

lemma bn_val_take_Suc:
  "i < length xs \<Longrightarrow> bn_val (take (Suc i) xs) = bn_val (take i xs) + limb_base ^ i * unat (xs ! i)"
  by (simp add: take_Suc_conv_app_nth bn_val_append)

lemma bn_val_take_less: "i \<le> length xs \<Longrightarrow> bn_val (take i xs) < limb_base ^ i"
  using bn_val_less [of "take i xs"] by simp

lemma bn_val_inj: "length a = length b \<Longrightarrow> bn_val a = bn_val b \<Longrightarrow> a = b"
proof (induction a b rule: list_induct2)
  case (Cons x xs y ys)
  have "(unat x + limb_base * bn_val xs) mod limb_base = (unat y + limb_base * bn_val ys) mod limb_base"
    using Cons.prems by simp
  then have "unat x = unat y" using unat_u32 [of x] unat_u32 [of y] by simp
  then have "x = y" by (rule unsigned_word_eqI)
  with Cons show ?case by (simp add: less_imp_neq [OF limb_base_pos, symmetric])
qed simp

section \<open>One limb\<close>

lemma unat_low: "unat (ucast (w :: u64) :: u32) = unat w mod limb_base"
  by (simp add: unsigned_ucast_eq take_bit_eq_mod limb_base_def)

lemma unat_high: "unat (ucast (drop_bit 32 (w :: u64)) :: u32) = unat w div limb_base"
proof -
  have "unat (drop_bit 32 w) = unat w div limb_base"
    unfolding unat_drop_bit_eq drop_bit_eq_div [where 'a = nat] limb_base_def ..
  moreover have "unat w div limb_base < limb_base"
    using unsigned_less [of w, where 'a = nat] by (simp add: limb_base_def less_mult_imp_div_less)
  ultimately show ?thesis by (simp only: unsigned_ucast_eq take_bit_eq_mod) (simp add: limb_base_def)
qed

lemma unat_widen: "unat (ucast (x :: u32) :: u64) = unat x"
  using unat_u32 [of x] by (simp add: unsigned_ucast_eq take_bit_eq_mod limb_base_def)

lemma low_high: "unat (ucast (w :: u64) :: u32) + limb_base * unat (ucast (drop_bit 32 w) :: u32) = unat w"
  unfolding unat_high unfolding unat_low by simp

lemma unat_plus64: "unat (x :: u64) + unat y < limb_base * limb_base \<Longrightarrow> unat (x + y) = unat x + unat y"
  by (simp add: unat_word_ariths limb_base_def)

lemma unat_times64: "unat (x :: u64) * unat y < limb_base * limb_base \<Longrightarrow> unat (x * y) = unat x * unat y"
  by (simp add: unat_word_ariths limb_base_def)

text \<open>The multiply-accumulate of \<open>bn_mul\<close> never overflows 64 bits.\<close>

lemma mul_add_bound:
  fixes a b c d :: nat
  assumes "a < B" "b < B" "c < B" "d < B"
  shows "c + a * b + d < B * B"
proof -
  have "a * b \<le> (B - 1) * (B - 1)" using assms by (intro mult_le_mono) simp_all
  moreover have "c + d \<le> 2 * (B - 1)" using assms by simp
  ultimately have "c + a * b + d \<le> (B - 1) * (B - 1) + 2 * (B - 1)" by linarith
  also have "\<dots> < B * B" using assms by (cases B) simp_all
  finally show ?thesis .
qed

lemma unat_mul_add:
  fixes x y o' k :: u32
  shows "unat ((ucast o' :: u64) + ucast x * ucast y + ucast k) =
           unat o' + unat x * unat y + unat k"
proof -
  note b = mul_add_bound [OF unat_u32 [of x] unat_u32 [of y] unat_u32 [of o'] unat_u32 [of k]]
  have m: "unat ((ucast x :: u64) * ucast y) = unat x * unat y"
    using b by (subst unat_times64) (simp_all add: unat_widen)
  have s: "unat ((ucast o' :: u64) + ucast x * ucast y) = unat o' + unat x * unat y"
    using b by (subst unat_plus64) (simp_all add: unat_widen m)
  show ?thesis using b by (subst unat_plus64) (simp_all add: unat_widen s)
qed

text \<open>The borrow of \<open>bn_sub\<close>.\<close>

lemma borrow_arith:
  fixes z B :: int
  assumes z: "- B \<le> z" "z < B" and B: "0 < B" "even B"
  shows "z mod (B * B) mod B = z + B * (z mod (B * B) div B mod 2)"
proof (cases "0 \<le> z")
  case True
  have "B * 1 \<le> B * B" using B by (intro mult_left_mono) simp_all
  then have "z < B * B" using z by linarith
  with True have "z mod (B * B) = z" by (intro mod_pos_pos_trivial)
  with True z show ?thesis by simp
next
  case False
  have "B * 1 \<le> B * B" using B by (intro mult_left_mono) simp_all
  then have "0 \<le> z + B * B" "z + B * B < B * B" using z False by linarith+
  then have "(z + B * B) mod (B * B) = z + B * B" by (rule mod_pos_pos_trivial)
  then have m: "z mod (B * B) = (z + B) + B * (B - 1)" by (simp add: algebra_simps)
  have zB: "0 \<le> z + B" "z + B < B" using False z by simp_all
  have "z mod (B * B) mod B = z + B"
    unfolding m mod_mult_self2 using zB by (rule mod_pos_pos_trivial)
  moreover have "z mod (B * B) div B = B - 1"
    unfolding m using zB B by (simp only: div_mult_self2 div_pos_pos_trivial)
  moreover have "(B - 1) mod 2 = 1" using B by (simp add: odd_iff_mod_2_eq_one [symmetric])
  ultimately show ?thesis by simp
qed

lemma sub_limb:
  fixes x y :: u32 and c :: u64
  assumes c: "unat c \<le> 1"
  defines "cur \<equiv> ucast x - ucast y - c"
  defines "br \<equiv> ucast ((ucast (drop_bit 32 cur) :: u32) AND 1) :: u64"
  shows "int (unat (ucast cur :: u32)) + int (unat y) + int (unat c) =
           int (unat x) + int limb_base * int (unat br)"
    and "unat br \<le> 1"
proof -
  let ?B = "int limb_base"
  define z where "z = int (unat x) - int (unat y) - int (unat c)"
  have z: "- ?B \<le> z" "z < ?B"
    using unat_u32 [of x] unat_u32 [of y] c unfolding z_def by linarith+
  have cur: "int (unat cur) = z mod (?B * ?B)"
  proof -
    have "uint cur = (uint (ucast x :: u64) - uint (ucast y :: u64) - uint c) mod 2 ^ 64"
      unfolding cur_def by (simp add: uint_word_ariths mod_diff_left_eq)
    also have "\<dots> = (int (unat (ucast x :: u64)) - int (unat (ucast y :: u64)) - int (unat c)) mod 2 ^ 64"
      by simp
    also have "\<dots> = z mod 2 ^ 64" unfolding unat_widen z_def ..
    finally show ?thesis by (simp add: limb_base_def)
  qed
  have br: "unat br = unat cur div limb_base mod 2"
  proof -
    have "unat br = unat ((ucast (drop_bit 32 cur) :: u32) AND 1)" unfolding br_def unat_widen ..
    also have "\<dots> = unat (ucast (drop_bit 32 cur) :: u32) AND 1"
      unfolding unsigned_and_eq unsigned_1 ..
    also have "\<dots> = unat (ucast (drop_bit 32 cur) :: u32) mod 2" by (rule and_one_eq)
    finally show ?thesis unfolding unat_high .
  qed
  have "int (unat (ucast cur :: u32)) = z mod (?B * ?B) mod ?B"
    unfolding unat_low zmod_int cur ..
  also have "\<dots> = z + ?B * (z mod (?B * ?B) div ?B mod 2)"
    using z by (intro borrow_arith) (simp_all add: limb_base_def)
  also have "z mod (?B * ?B) div ?B mod 2 = int (unat br)"
    unfolding br zmod_int zdiv_int cur by simp
  finally show "int (unat (ucast cur :: u32)) + int (unat y) + int (unat c) =
           int (unat x) + ?B * int (unat br)"
    unfolding z_def by linarith
  show "unat br \<le> 1" unfolding br by simp
qed

end
