(* ===== verification/Bignum_Facts.thy ===== *)
theory Bignum_Facts
  imports Bignum
begin

text \<open>
  The number each big-integer routine computes.  Every loop has one invariant relating the values of
  its arrays before and after \<open>i\<close> turns and its pending carry or borrow.
\<close>

lemma fold_upt_Suc: "fold f [0..<Suc i] s = f i (fold f [0..<i] s)"
  by simp

section \<open>Comparison\<close>

lemma digit_less:
  fixes x y u v P :: nat
  assumes "x < P" "u < v"
  shows "x + P * u < y + P * v"
proof -
  have "P * u + P \<le> P * v" using assms(2) mult_le_mono2 [of "Suc u" v P] by simp
  with assms(1) show ?thesis by linarith
qed

lemma bn_cmp_val:
  "n \<le> length a \<Longrightarrow> n \<le> length b \<Longrightarrow>
   bn_cmp a b n = (let x = bn_val (take n a); y = bn_val (take n b) in
     if x > y then 1 else if x < y then -1 else 0)"
proof (induction n)
  case (Suc i)
  have a: "bn_val (take (Suc i) a) = bn_val (take i a) + limb_base ^ i * unat (a ! i)"
   and b: "bn_val (take (Suc i) b) = bn_val (take i b) + limb_base ^ i * unat (b ! i)"
    using Suc.prems by (simp_all add: bn_val_take_Suc)
  have la: "bn_val (take i a) < limb_base ^ i" and lb: "bn_val (take i b) < limb_base ^ i"
    using Suc.prems by (simp_all add: bn_val_take_less)
  consider "unat (a ! i) < unat (b ! i)" | "unat (b ! i) < unat (a ! i)" | "unat (a ! i) = unat (b ! i)"
    by linarith
  then show ?case
  proof cases
    case 1
    then have "a ! i < b ! i" by (simp add: word_less_nat_alt)
    moreover have "bn_val (take (Suc i) a) < bn_val (take (Suc i) b)"
      unfolding a b using la 1 by (rule digit_less)
    ultimately show ?thesis by (auto simp: Let_def)
  next
    case 2
    then have "b ! i < a ! i" by (simp add: word_less_nat_alt)
    moreover have "bn_val (take (Suc i) b) < bn_val (take (Suc i) a)"
      unfolding a b using lb 2 by (rule digit_less)
    ultimately show ?thesis by (auto simp: Let_def)
  next
    case 3
    then have "a ! i = b ! i" by (rule unsigned_word_eqI)
    with Suc show ?thesis by (simp add: a b Let_def)
  qed
qed simp

lemma bn_cmp_ge: "length a = n \<Longrightarrow> length b = n \<Longrightarrow> 0 \<le> bn_cmp a b n \<longleftrightarrow> bn_val b \<le> bn_val a"
  by (simp add: bn_cmp_val Let_def)

section \<open>Subtraction\<close>

lemma sub_fold:
  assumes "length a = n" "length b = n" "i \<le> n" "fold (sub_step b) [0..<i] (a, 0) = (a', c)"
  shows "length a' = n \<and> (\<forall>k. i \<le> k \<longrightarrow> a' ! k = a ! k) \<and> unat c \<le> 1 \<and>
         bn_val a' + bn_val (take i b) = bn_val a + limb_base ^ i * unat c"
  using assms(3,4)
proof (induction i arbitrary: a' c)
  case 0
  then show ?case using assms(1) by simp
next
  case (Suc i)
  obtain a1 c1 where f: "fold (sub_step b) [0..<i] (a, 0) = (a1, c1)" by force
  from Suc.IH [OF _ f] Suc.prems(1) have ih: "length a1 = n" "\<forall>k. i \<le> k \<longrightarrow> a1 ! k = a ! k"
    "unat c1 \<le> 1" "bn_val a1 + bn_val (take i b) = bn_val a + limb_base ^ i * unat c1" by simp_all
  define cur where "cur = ucast (a1 ! i) - ucast (b ! i) - c1"
  have step: "a' = a1[i := ucast cur]" "c = ucast ((ucast (drop_bit 32 cur) :: u32) AND 1)"
  proof -
    have "sub_step b i (a1, c1) = (a', c)" using Suc.prems(2) f by simp
    then show "a' = a1[i := ucast cur]" "c = ucast ((ucast (drop_bit 32 cur) :: u32) AND 1)"
      by (simp_all only: sub_step_def Let_def prod.case prod.inject cur_def)
  qed
  note limb = sub_limb [OF ih(3), of "a1 ! i" "b ! i", folded cur_def, folded step(2)]
  then have "int (unat (ucast cur :: u32) + unat (b ! i) + unat c1) = int (unat (a1 ! i) + limb_base * unat c)"
    by (simp only: of_nat_add of_nat_mult)
  then have l: "unat (ucast cur :: u32) + unat (b ! i) + unat c1 = unat (a1 ! i) + limb_base * unat c"
    by (simp only: of_nat_eq_iff)
  have len: "i < length a1" "i < length b" using Suc.prems(1) ih(1) assms(2) by simp_all
  have u: "bn_val a' + limb_base ^ i * unat (a1 ! i) = bn_val a1 + limb_base ^ i * unat (ucast cur :: u32)"
    unfolding step by (rule bn_val_update [OF len(1)])
  have t: "bn_val (take (Suc i) b) = bn_val (take i b) + limb_base ^ i * unat (b ! i)"
    by (rule bn_val_take_Suc [OF len(2)])
  have "limb_base ^ i * (unat (ucast cur :: u32) + unat (b ! i) + unat c1) =
        limb_base ^ i * (unat (a1 ! i) + limb_base * unat c)" by (simp only: l)
  with u t ih(4) have "bn_val a' + bn_val (take (Suc i) b) = bn_val a + limb_base ^ Suc i * unat c"
    by (simp add: algebra_simps)
  with ih limb(2) step show ?case by simp
qed

lemma bn_sub_val:
  assumes "length a = n" "length b = n"
  shows "length (bn_sub a b n) = n \<and>
         (\<exists>c \<le> 1. bn_val (bn_sub a b n) + bn_val b = bn_val a + limb_base ^ n * c)"
proof -
  obtain a' c where f: "fold (sub_step b) [0..<n] (a, 0) = (a', c)" by force
  with sub_fold [OF assms order.refl f] assms show ?thesis by (auto simp: bn_sub_def)
qed

section \<open>Doubling\<close>

lemma even_or_bit: "(c :: nat) \<le> 1 \<Longrightarrow> push_bit 1 x OR c = 2 * x + c"
proof -
  assume "c \<le> 1"
  then consider "c = 0" | "c = 1" by linarith
  then show ?thesis by cases (simp_all only: push_bit_eq_mult or_one_eq, simp_all)
qed

lemma unat_shl_or:
  fixes x k :: u32
  assumes "unat k \<le> 1"
  shows "unat (push_bit 1 (ucast x :: u64) OR ucast k) = 2 * unat x + unat k"
proof -
  have "2 * unat x < limb_base * limb_base"
    using unat_u32 [of x] by (simp add: limb_base_def)
  then have "take_bit LENGTH(64) (push_bit 1 (unat x)) = push_bit 1 (unat x)"
    by (simp add: take_bit_eq_mod push_bit_eq_mult limb_base_def)
  then have "unat (push_bit 1 (ucast x :: u64)) = push_bit 1 (unat x)"
    unfolding unsigned_push_bit_eq unat_widen .
  then show ?thesis unfolding unsigned_or_eq unat_widen using assms by (simp only: even_or_bit)
qed

lemma shl_fold:
  assumes "length r = n" "i \<le> n" "unat k0 \<le> 1" "fold shl_step [0..<i] (r, k0) = (r', k)"
  shows "length r' = n \<and> (\<forall>j. i \<le> j \<longrightarrow> r' ! j = r ! j) \<and> unat k \<le> 1 \<and>
         bn_val r' + limb_base ^ i * unat k = bn_val r + bn_val (take i r) + unat k0"
  using assms(2,4)
proof (induction i arbitrary: r' k)
  case 0
  then show ?case using assms(1,3) by simp
next
  case (Suc i)
  obtain r1 k1 where f: "fold shl_step [0..<i] (r, k0) = (r1, k1)" by force
  from Suc.IH [OF _ f] Suc.prems(1) have ih: "length r1 = n" "\<forall>j. i \<le> j \<longrightarrow> r1 ! j = r ! j"
    "unat k1 \<le> 1" "bn_val r1 + limb_base ^ i * unat k1 = bn_val r + bn_val (take i r) + unat k0"
    by simp_all
  define cur where "cur = push_bit 1 (ucast (r1 ! i) :: u64) OR ucast k1"
  have step: "r' = r1[i := ucast cur]" "k = ucast (drop_bit 32 cur)"
  proof -
    have "shl_step i (r1, k1) = (r', k)" using Suc.prems(2) f by simp
    then show "r' = r1[i := ucast cur]" "k = ucast (drop_bit 32 cur)"
      by (simp_all only: shl_step_def Let_def prod.case prod.inject cur_def)
  qed
  have cur: "unat cur = 2 * unat (r1 ! i) + unat k1" unfolding cur_def by (rule unat_shl_or [OF ih(3)])
  have l: "unat (ucast cur :: u32) + limb_base * unat k = 2 * unat (r1 ! i) + unat k1"
    unfolding step(2) low_high cur ..
  have "unat k = (2 * unat (r1 ! i) + unat k1) div limb_base" unfolding step(2) unat_high cur ..
  also have "\<dots> < 2" using unat_u32 [of "r1 ! i"] ih(3) by (intro less_mult_imp_div_less) simp
  finally have k: "unat k \<le> 1" by simp
  have len: "i < length r1" "i < length r" using Suc.prems(1) ih(1) assms(1) by simp_all
  have u: "bn_val r' + limb_base ^ i * unat (r1 ! i) = bn_val r1 + limb_base ^ i * unat (ucast cur :: u32)"
    unfolding step by (rule bn_val_update [OF len(1)])
  have t: "bn_val (take (Suc i) r) = bn_val (take i r) + limb_base ^ i * unat (r1 ! i)"
    using bn_val_take_Suc [OF len(2)] ih(2) by simp
  have "limb_base ^ i * (unat (ucast cur :: u32) + limb_base * unat k) =
        limb_base ^ i * (2 * unat (r1 ! i) + unat k1)" by (simp only: l)
  with u t ih(4) have "bn_val r' + limb_base ^ Suc i * unat k = bn_val r + bn_val (take (Suc i) r) + unat k0"
    by (simp add: algebra_simps)
  with ih k step show ?case by simp
qed

lemma bn_shl1_val:
  assumes "length r = n"
  shows "length (bn_shl1 r n bv) = n \<and>
         (\<exists>k \<le> 1. bn_val (bn_shl1 r n bv) + limb_base ^ n * k = 2 * bn_val r + (if bv \<noteq> 0 then 1 else 0))"
proof -
  define k0 :: u32 where "k0 = (if bv \<noteq> 0 then 1 else 0)"
  obtain r' k where f: "fold shl_step [0..<n] (r, k0) = (r', k)" by force
  have k0: "unat k0 = (if bv \<noteq> 0 then 1 else 0)" by (simp add: k0_def)
  have r': "bn_shl1 r n bv = r'" unfolding bn_shl1_def k0_def [symmetric] f by simp
  have "unat k0 \<le> 1" by (simp add: k0)
  from shl_fold [OF assms order.refl this f] assms
  have "length r' = n" "unat k \<le> 1" "bn_val r' + limb_base ^ n * unat k = 2 * bn_val r + unat k0" by simp_all
  then show ?thesis unfolding r' k0 by blast
qed

section \<open>Multiplication\<close>

lemma mul_fold:
  assumes "length out = N" "i + n \<le> N" "length b = n" "j \<le> n"
    and "fold (mul_step a b i) [0..<j] (out, 0) = (out', c)"
  shows "length out' = N \<and> (\<forall>k. i + j \<le> k \<longrightarrow> out' ! k = out ! k) \<and>
         bn_val out' + limb_base ^ (i + j) * unat c =
           bn_val out + limb_base ^ i * unat (a ! i) * bn_val (take j b)"
  using assms(4,5)
proof (induction j arbitrary: out' c)
  case 0
  then show ?case using assms(1) by simp
next
  case (Suc j)
  obtain o1 c1 where f: "fold (mul_step a b i) [0..<j] (out, 0) = (o1, c1)" by force
  from Suc.IH [OF _ f] Suc.prems(1) have ih: "length o1 = N" "\<forall>k. i + j \<le> k \<longrightarrow> o1 ! k = out ! k"
    "bn_val o1 + limb_base ^ (i + j) * unat c1 =
       bn_val out + limb_base ^ i * unat (a ! i) * bn_val (take j b)" by simp_all
  define cur where "cur = (ucast (o1 ! (i + j)) :: u64) + ucast (a ! i) * ucast (b ! j) + ucast c1"
  have step: "out' = o1[i + j := ucast cur]" "c = ucast (drop_bit 32 cur)"
  proof -
    have "mul_step a b i j (o1, c1) = (out', c)" using Suc.prems(2) f by simp
    then show "out' = o1[i + j := ucast cur]" "c = ucast (drop_bit 32 cur)"
      by (simp_all only: mul_step_def Let_def prod.case prod.inject cur_def)
  qed
  have l: "unat (ucast cur :: u32) + limb_base * unat c =
      unat (o1 ! (i + j)) + unat (a ! i) * unat (b ! j) + unat c1"
    unfolding step(2) low_high unfolding cur_def by (rule unat_mul_add)
  have len: "i + j < length o1" "j < length b" using Suc.prems(1) ih(1) assms by simp_all
  have u: "bn_val out' + limb_base ^ (i + j) * unat (o1 ! (i + j)) =
      bn_val o1 + limb_base ^ (i + j) * unat (ucast cur :: u32)"
    unfolding step by (rule bn_val_update [OF len(1)])
  have t: "bn_val (take (Suc j) b) = bn_val (take j b) + limb_base ^ j * unat (b ! j)"
    by (rule bn_val_take_Suc [OF len(2)])
  have "limb_base ^ (i + j) * (unat (ucast cur :: u32) + limb_base * unat c) =
        limb_base ^ (i + j) * (unat (o1 ! (i + j)) + unat (a ! i) * unat (b ! j) + unat c1)"
    by (simp only: l)
  with u t ih(3) have "bn_val out' + limb_base ^ (i + Suc j) * unat c =
      bn_val out + limb_base ^ i * unat (a ! i) * bn_val (take (Suc j) b)"
    by (simp add: algebra_simps power_add)
  with ih step show ?case by simp
qed

lemma mul_row_val:
  assumes "length out = 2 * n" "i < n" "length b = n" "\<forall>k. i + n \<le> k \<and> k < 2 * n \<longrightarrow> out ! k = 0"
  shows "length (mul_row a b n i out) = 2 * n \<and>
         (\<forall>k. Suc i + n \<le> k \<and> k < 2 * n \<longrightarrow> mul_row a b n i out ! k = 0) \<and>
         bn_val (mul_row a b n i out) = bn_val out + limb_base ^ i * unat (a ! i) * bn_val b"
proof -
  obtain o1 c where f: "fold (mul_step a b i) [0..<n] (out, 0) = (o1, c)" by force
  have o1: "length o1 = 2 * n" "\<forall>k. i + n \<le> k \<longrightarrow> o1 ! k = out ! k"
      "bn_val o1 + limb_base ^ (i + n) * unat c = bn_val out + limb_base ^ i * unat (a ! i) * bn_val b"
    using mul_fold [OF assms(1) _ assms(3) order.refl f] assms(2,3) by simp_all
  have row: "mul_row a b n i out = o1[i + n := c]" by (simp add: mul_row_def f)
  have "o1 ! (i + n) = 0" using o1(2) assms(2,4) by simp
  with bn_val_update [of "i + n" o1 c] o1(1) assms(2)
  have "bn_val (o1[i + n := c]) = bn_val o1 + limb_base ^ (i + n) * unat c" by simp
  with o1 assms(4) show ?thesis by (simp add: row)
qed

lemma bn_mul_fold:
  assumes "length a = n" "length b = n" "i \<le> n"
  shows "length (fold (mul_row a b n) [0..<i] (replicate (2 * n) 0)) = 2 * n \<and>
         (\<forall>k. i + n \<le> k \<and> k < 2 * n \<longrightarrow> fold (mul_row a b n) [0..<i] (replicate (2 * n) 0) ! k = 0) \<and>
         bn_val (fold (mul_row a b n) [0..<i] (replicate (2 * n) 0)) = bn_val (take i a) * bn_val b"
  using assms(3)
proof (induction i)
  case (Suc i)
  let ?o = "fold (mul_row a b n) [0..<i] (replicate (2 * n) 0)"
  have ih: "length ?o = 2 * n" "\<forall>k. i + n \<le> k \<and> k < 2 * n \<longrightarrow> ?o ! k = 0"
    "bn_val ?o = bn_val (take i a) * bn_val b" using Suc by simp_all
  have i: "i < n" "i < length a" using Suc.prems assms by simp_all
  note row = mul_row_val [OF ih(1) i(1) assms(2) ih(2), of a]
  have "bn_val (take (Suc i) a) * bn_val b = bn_val ?o + limb_base ^ i * unat (a ! i) * bn_val b"
    unfolding bn_val_take_Suc [OF i(2)] ih(3) by (simp add: algebra_simps)
  with row show ?case by (simp add: fold_upt_Suc del: upt_Suc)
qed simp

lemma bn_mul_val:
  "length a = n \<Longrightarrow> length b = n \<Longrightarrow>
   length (bn_mul a b n) = 2 * n \<and> bn_val (bn_mul a b n) = bn_val a * bn_val b"
  using bn_mul_fold [of a n b n] by (simp add: bn_mul_def)

end
