(* ===== verification/Modexp.thy ===== *)
theory Modexp
  imports Bignum_Facts
begin

text \<open>
  Modular reduction by shift and subtract, modular multiplication and the square-and-multiply loop:
  what they compute, for every modulus including the zero modulus, which acts as \<open>2 ^ 2048\<close>.
\<close>

section \<open>Bits of a number in its limbs\<close>

lemma limb_base_pow: "limb_base ^ q = 2 ^ (32 * q)"
  unfolding limb_base_def power_mult ..

lemma bn_val_split:
  "q < length xs \<Longrightarrow>
   bn_val xs = bn_val (take q xs) + limb_base ^ q * (unat (xs ! q) + limb_base * bn_val (drop (Suc q) xs))"
proof -
  assume q: "q < length xs"
  have "bn_val xs = bn_val (take q xs @ drop q xs)" by simp
  also have "\<dots> = bn_val (take q xs) + limb_base ^ q * bn_val (drop q xs)"
    unfolding bn_val_append using q by simp
  finally show ?thesis unfolding Cons_nth_drop_Suc [OF q, symmetric] by simp
qed

lemma bn_val_bits:
  assumes "q < length xs" "k + j \<le> 32"
  shows "bn_val xs div 2 ^ (32 * q + k) mod 2 ^ j = unat (xs ! q) div 2 ^ k mod 2 ^ j"
proof -
  let ?x = "unat (xs ! q)" and ?hi = "bn_val (drop (Suc q) xs)"
  have low: "bn_val (take q xs) < limb_base ^ q" using assms(1) by (simp add: bn_val_take_less)
  have "bn_val xs div limb_base ^ q = ?x + limb_base * ?hi"
    unfolding bn_val_split [OF assms(1)] using low by simp
  then have "bn_val xs div 2 ^ (32 * q + k) = (?x + limb_base * ?hi) div 2 ^ k"
    by (simp add: power_add limb_base_pow div_mult2_eq)
  also have "limb_base = 2 ^ k * (2 ^ j * 2 ^ (32 - k - j))"
    using assms(2) by (simp add: limb_base_def flip: power_add)
  also have "(?x + 2 ^ k * (2 ^ j * 2 ^ (32 - k - j)) * ?hi) div 2 ^ k =
      ?x div 2 ^ k + 2 ^ j * (2 ^ (32 - k - j) * ?hi)"
    unfolding mult.assoc by (simp add: add.commute)
  finally show ?thesis by simp
qed

lemma unat_and_1: "unat ((w :: u32) AND 1) = unat w mod 2"
proof -
  have "unat (w AND 1) = unat w AND 1" unfolding unsigned_and_eq unsigned_1 ..
  also have "\<dots> = unat w mod 2" by (rule and_one_eq)
  finally show ?thesis .
qed

lemma unat_drop_u32: "unat (drop_bit k (w :: u32)) = unat w div 2 ^ k"
  unfolding unat_drop_bit_eq drop_bit_eq_div [where 'a = nat] ..

lemma unat_bit_of: "unat (drop_bit k (w :: u32) AND 1) = unat w div 2 ^ k mod 2"
  unfolding unat_and_1 unat_drop_u32 ..

section \<open>Reduction\<close>

definition eff_mod :: "u32 list \<Rightarrow> nat \<Rightarrow> nat" where
  "eff_mod m n = (if bn_val m = 0 then limb_base ^ n else bn_val m)"

lemma eff_mod_pos [simp]: "0 < eff_mod m n"
  by (simp add: eff_mod_def)

lemma top_bit:
  assumes "length r = n" "0 < n"
  shows "drop_bit 31 (r ! (n - 1)) AND 1 \<noteq> 0 \<longleftrightarrow> limb_base ^ n \<le> 2 * bn_val r"
proof -
  let ?w = "unat (r ! (n - 1))" and ?P = "limb_base ^ (n - 1)"
  have n: "Suc (n - 1) = n" and P: "limb_base ^ n = 2 * (2 ^ 31 * ?P)"
    using assms(2) by (simp_all add: limb_base_def flip: power_Suc)
  have val: "bn_val r = bn_val (take (n - 1) r) + ?P * ?w"
    using bn_val_take_Suc [of "n - 1" r] assms n by simp
  have low: "bn_val (take (n - 1) r) < ?P" using assms by (simp add: bn_val_take_less)
  have "drop_bit 31 (r ! (n - 1)) AND 1 \<noteq> 0 \<longleftrightarrow> unat (drop_bit 31 (r ! (n - 1)) AND 1) \<noteq> 0"
    by (simp add: unat_eq_zero)
  also have "\<dots> \<longleftrightarrow> ?w div 2 ^ 31 mod 2 \<noteq> 0" unfolding unat_bit_of ..
  also have "\<dots> \<longleftrightarrow> 2 ^ 31 \<le> ?w"
  proof -
    have "?w div 2 ^ 31 < 2" using unat_u32 [of "r ! (n - 1)"]
      by (intro less_mult_imp_div_less) (simp add: limb_base_def)
    moreover have "2 ^ 31 \<le> ?w \<longleftrightarrow> ?w div 2 ^ 31 \<noteq> 0" by (simp add: div_eq_0_iff not_less)
    ultimately show ?thesis by simp
  qed
  also have "\<dots> \<longleftrightarrow> limb_base ^ n \<le> 2 * bn_val r"
  proof
    assume "2 ^ 31 \<le> ?w"
    then have "?P * 2 ^ 31 \<le> ?P * ?w" by (rule mult_le_mono2)
    then show "limb_base ^ n \<le> 2 * bn_val r" unfolding P val
      by (simp only: distrib_left mult.commute [of "2 ^ 31"])
  next
    assume le: "limb_base ^ n \<le> 2 * bn_val r"
    show "2 ^ 31 \<le> ?w"
    proof (rule ccontr)
      assume "\<not> 2 ^ 31 \<le> ?w"
      then have "?P * Suc ?w \<le> ?P * 2 ^ 31" by (intro mult_le_mono2) simp
      then have "bn_val r < ?P * 2 ^ 31" unfolding val mult_Suc_right using low by linarith
      then show False using le unfolding P by (simp add: mult.commute)
    qed
  qed
  finally show ?thesis .
qed

text \<open>The arithmetic of one turn, on numbers.\<close>

lemma reduce_arith:
  fixes x m B v k c :: nat
  assumes "0 < m" "x < 2 * m" "m < B" "v + B * k = x" "k \<le> 1" "w + m = v + B * c" "w < B" "c \<le> 1"
    and "k = 1 \<or> m \<le> v"
  shows "w = x mod m"
proof -
  have "w = x - m \<and> m \<le> x"
  proof (cases "k = 1")
    case True
    then have "v + B = x" using assms(4) by simp
    moreover have "c = 1"
    proof (rule ccontr)
      assume "c \<noteq> 1"
      then have "w + m = v" using assms(6,8) by simp
      then show False using \<open>v + B = x\<close> assms(2,3) by linarith
    qed
    ultimately show ?thesis using assms(3,6) by simp
  next
    case False
    then have k: "k = 0" and vm: "m \<le> v" using assms(5,9) by simp_all
    have "c = 0"
    proof (rule ccontr)
      assume "c \<noteq> 0"
      then have "w + m = v + B" using assms(6,8) by simp
      then show False using vm assms(7) by linarith
    qed
    then show ?thesis using k assms(4,6) vm by simp
  qed
  then show ?thesis using assms(2) by (auto simp: mod_if le_mod_geq)
qed

lemma even_le_bit: "even (b :: nat) \<Longrightarrow> c \<le> 1 \<Longrightarrow> b \<le> 2 * v \<longleftrightarrow> b \<le> 2 * v + c"
  by presburger

lemma reduce_step_val:
  assumes r: "length r = n" "bn_val r < eff_mod m n" and m: "length m = n" "0 < n"
    and i: "i < 32 * length inp"
  shows "length (reduce_step inp m n i r) = n \<and>
         bn_val (reduce_step inp m n i r) = (2 * bn_val r + bn_val inp div 2 ^ i mod 2) mod eff_mod m n"
proof -
  define bv where "bv = drop_bit (i mod 32) (inp ! (i div 32)) AND 1"
  define top where "top = drop_bit 31 (r ! (n - 1)) AND 1"
  define r1 where "r1 = bn_shl1 r n bv"
  let ?B = "limb_base ^ n" and ?x = "2 * bn_val r + bn_val inp div 2 ^ i mod 2"
  have "unat bv = unat (inp ! (i div 32)) div 2 ^ (i mod 32) mod 2 ^ 1"
    unfolding bv_def unat_bit_of by simp
  also have "\<dots> = bn_val inp div 2 ^ (32 * (i div 32) + i mod 32) mod 2 ^ 1"
    using i by (intro bn_val_bits [symmetric]) (simp_all add: less_mult_imp_div_less mult.commute)
  finally have bv: "unat bv = bn_val inp div 2 ^ i mod 2" by simp
  then have "unat bv \<le> 1" by simp
  then have bv1: "(if bv \<noteq> 0 then 1 else 0) = unat bv" by (auto simp: unat_gt_0 le_Suc_eq unat_eq_zero)
  obtain k where k: "length r1 = n" "k \<le> 1" "bn_val r1 + ?B * k = ?x"
    using bn_shl1_val [OF r(1), of bv] unfolding r1_def bv1 unfolding bv by blast
  have r1B: "bn_val r1 < ?B" using bn_val_less [of r1] k(1) by simp
  have top: "top \<noteq> 0 \<longleftrightarrow> k = 1"
  proof -
    have "even ?B" using m(2) by (simp add: limb_base_def)
    then have "?B \<le> 2 * bn_val r \<longleftrightarrow> ?B \<le> ?x"
      using even_le_bit [OF _ \<open>unat bv \<le> 1\<close>, of ?B "bn_val r"] unfolding bv by simp
    moreover have "k = 1 \<longleftrightarrow> ?B \<le> ?x"
    proof (cases "k = 0")
      case False
      then have "k = 1" using k(2) by simp
      then have "bn_val r1 + ?B = ?x" using k(3) by simp
      then have "?B \<le> ?x" by linarith
      with \<open>k = 1\<close> show ?thesis by simp
    qed (use k(3) r1B in simp)
    ultimately show ?thesis unfolding top_def top_bit [OF r(1) m(2)] by simp
  qed
  have cmp: "0 \<le> bn_cmp r1 m n \<longleftrightarrow> bn_val m \<le> bn_val r1" using k(1) m(1) by (rule bn_cmp_ge)
  obtain c where c: "length (bn_sub r1 m n) = n" "c \<le> 1"
      "bn_val (bn_sub r1 m n) + bn_val m = bn_val r1 + ?B * c"
    using bn_sub_val [OF k(1) m(1)] by blast
  have subB: "bn_val (bn_sub r1 m n) < ?B" using bn_val_less [of "bn_sub r1 m n"] c(1) by simp
  have step: "reduce_step inp m n i r =
      (if k = 1 \<or> bn_val m \<le> bn_val r1 then bn_sub r1 m n else r1)"
    unfolding reduce_step_def Let_def bv_def [symmetric] top_def [symmetric] r1_def [symmetric] cmp top ..
  show ?thesis
  proof (cases "bn_val m = 0")
    case True
    then have "bn_val (bn_sub r1 m n) = bn_val r1 + ?B * c" using c(3) by simp
    moreover have "c = 0"
    proof (rule ccontr)
      assume "c \<noteq> 0"
      then have "c = 1" using c(2) by simp
      with \<open>bn_val (bn_sub r1 m n) = bn_val r1 + ?B * c\<close> subB show False by simp
    qed
    ultimately have "bn_val (bn_sub r1 m n) = bn_val r1" by simp
    moreover have "?x mod ?B = bn_val r1" using k(3) r1B by (metis mod_less mod_mult_self2)
    ultimately show ?thesis using True c(1) by (simp add: step eff_mod_def)
  next
    case False
    have mB: "bn_val m < ?B" using bn_val_less [of m] m(1) by simp
    have x2: "?x < 2 * bn_val m" using r(2) False by (simp add: eff_mod_def)
    show ?thesis
    proof (cases "k = 1 \<or> bn_val m \<le> bn_val r1")
      case True
      have "bn_val (bn_sub r1 m n) = ?x mod bn_val m"
        by (rule reduce_arith [OF _ x2 mB k(3,2) c(3) subB c(2) True]) (use False in simp)
      then show ?thesis using True False c(1) by (simp add: step eff_mod_def)
    next
      case less: False
      then have "?x = bn_val r1" using k(2,3) by (simp add: le_Suc_eq)
      then show ?thesis using less False k(1) by (simp add: step eff_mod_def)
    qed
  qed
qed


lemma div_bit_step: "(V :: nat) div 2 ^ i = 2 * (V div 2 ^ Suc i) + V div 2 ^ i mod 2"
proof -
  have "V div 2 ^ Suc i = V div 2 ^ i div 2" by (simp add: div_mult2_eq power_Suc2 del: power_Suc)
  then show ?thesis by simp
qed

lemma mod_double: "(2 * (a mod M) + b) mod M = (2 * a + b) mod (M :: nat)"
  by (metis mod_add_left_eq mod_mult_right_eq)

lemma reduce_fold:
  assumes "length m = n" "0 < n" "i \<le> 32 * length inp" "length r = n"
    and "bn_val r = bn_val inp div 2 ^ i mod eff_mod m n"
  shows "length (fold (reduce_step inp m n) (rev [0..<i]) r) = n \<and>
         bn_val (fold (reduce_step inp m n) (rev [0..<i]) r) = bn_val inp mod eff_mod m n"
  using assms(3-5)
proof (induction i arbitrary: r)
  case (Suc i)
  let ?V = "bn_val inp" and ?M = "eff_mod m n"
  have i: "i < 32 * length inp" and r: "bn_val r < ?M" using Suc.prems by simp_all
  note step = reduce_step_val [OF Suc.prems(2) r assms(1,2) i]
  have "bn_val (reduce_step inp m n i r) = (2 * (?V div 2 ^ Suc i mod ?M) + ?V div 2 ^ i mod 2) mod ?M"
    using step Suc.prems(3) by simp
  also have "\<dots> = (2 * (?V div 2 ^ Suc i) + ?V div 2 ^ i mod 2) mod ?M"
    by (rule mod_double)
  also have "\<dots> = ?V div 2 ^ i mod ?M" by (simp only: div_bit_step [symmetric])
  finally show ?case using Suc.IH [of "reduce_step inp m n i r"] step i by simp
qed simp

lemma bn_reduce_val:
  assumes "length m = n" "0 < n" "length inp = L"
  shows "length (bn_reduce inp L m n) = n \<and> bn_val (bn_reduce inp L m n) = bn_val inp mod eff_mod m n"
proof -
  have "bn_val inp < 2 ^ (L * 32)" using bn_val_less [of inp] assms(3)
    by (simp add: limb_base_pow mult.commute)
  then have "bn_val inp div 2 ^ (L * 32) = 0" by simp
  then show ?thesis unfolding bn_reduce_def using assms by (intro reduce_fold) simp_all
qed

section \<open>Multiplication and exponentiation modulo\<close>

lemma bn_mul_mod_val:
  assumes "length a = 64" "length b = 64" "length m = 64"
  shows "length (bn_mul_mod a b m) = 64 \<and>
         bn_val (bn_mul_mod a b m) = bn_val a * bn_val b mod eff_mod m 64"
proof -
  have p: "length (bn_mul a b 64) = 128" "bn_val (bn_mul a b 64) = bn_val a * bn_val b"
    using bn_mul_val [OF assms(1,2)] by simp_all
  from bn_reduce_val [OF assms(3) _ p(1)] p(2) show ?thesis
    by (simp add: bn_mul_mod_def BN_def BN_PROD_def)
qed

lemma unat_nonzero: "(e :: u32) \<noteq> 0 \<longleftrightarrow> 0 < unat e"
  by (simp add: unat_gt_0)

lemma mod_square_mult:
  fixes r b M :: nat
  shows "((r * b ^ s) mod M) * ((b * b mod M) ^ q) mod M = r * b ^ (2 * q + s) mod M"
proof -
  have "((r * b ^ s) mod M) * ((b * b mod M) ^ q) mod M = (r * b ^ s) * ((b * b) ^ q) mod M"
    by (metis mod_mult_left_eq mod_mult_right_eq power_mod)
  also have "(b * b) ^ q = b ^ (2 * q)" by (simp add: power_mult power2_eq_square)
  finally show ?thesis by (simp add: power_add mult_ac)
qed

lemma modexp_loop_val:
  "length r = 64 \<Longrightarrow> length b = 64 \<Longrightarrow> length m = 64 \<Longrightarrow>
   length (modexp_loop r b e m) = 64 \<and>
   bn_val (modexp_loop r b e m) =
     (if e = 0 then bn_val r else bn_val r * bn_val b ^ unat e mod eff_mod m 64)"
proof (induction r b e m rule: modexp_loop.induct)
  case (1 r b e m)
  show ?case
  proof (cases "e = 0")
    case True
    then have "modexp_loop r b e m = r" by (subst modexp_loop.simps) simp
    with True "1.prems" show ?thesis by simp
  next
    case False
    let ?M = "eff_mod m 64"
    define r' where "r' = (if e AND 1 \<noteq> 0 then bn_mul_mod r b m else r)"
    define e' where "e' = drop_bit 1 e"
    define b' where "b' = (if e' \<noteq> 0 then bn_mul_mod b b m else b)"
    define s where "s = unat e mod 2"
    define q where "q = unat e'"
    have e: "unat e = 2 * q + s" unfolding q_def s_def e'_def unat_drop_u32 by simp
    have odd: "e AND 1 \<noteq> 0 \<longleftrightarrow> s = 1" unfolding unat_nonzero unat_and_1 s_def by simp
    have loop: "modexp_loop r b e m = modexp_loop r' b' e' m"
      unfolding modexp_loop.simps [of r b e m] using False
      by (simp only: Let_def r'_def b'_def e'_def if_True simp_thms)
    have lr': "length r' = 64" and vr': "s = 1 \<Longrightarrow> bn_val r' = bn_val r * bn_val b mod ?M"
      "s \<noteq> 1 \<Longrightarrow> bn_val r' = bn_val r"
      using bn_mul_mod_val [OF "1.prems"] "1.prems"(1) odd by (simp_all add: r'_def)
    have lb': "length b' = 64" and vb': "e' \<noteq> 0 \<Longrightarrow> bn_val b' = bn_val b * bn_val b mod ?M"
      using bn_mul_mod_val [OF "1.prems"(2,2,3)] "1.prems"(2) by (simp_all add: b'_def)
    have ih: "length (modexp_loop r' b' e' m) = 64 \<and> bn_val (modexp_loop r' b' e' m) =
        (if e' = 0 then bn_val r' else bn_val r' * bn_val b' ^ unat e' mod ?M)"
      by (rule "1.IH" [OF False r'_def e'_def b'_def lr' lb' "1.prems"(3)])
    have sc: "s = 0 \<or> s = 1" unfolding s_def by auto
    have r'M: "bn_val r' mod ?M = (bn_val r * bn_val b ^ s) mod ?M"
      using sc vr' by auto
    show ?thesis
    proof (cases "e' = 0")
      case True
      then have "s = 1" "unat e = 1" using False e sc by (auto simp: q_def unat_nonzero)
      then show ?thesis using ih loop True False vr'(1) by simp
    next
      case e': False
      have "bn_val (modexp_loop r b e m) = bn_val r' * (bn_val b * bn_val b mod ?M) ^ q mod ?M"
        using ih loop e' vb' by (simp add: q_def)
      also have "\<dots> = (bn_val r' mod ?M) * (bn_val b * bn_val b mod ?M) ^ q mod ?M"
        by (simp only: mod_mult_left_eq)
      also have "\<dots> = bn_val r * bn_val b ^ unat e mod ?M"
        unfolding r'M e by (rule mod_square_mult)
      finally show ?thesis using ih loop False by simp
    qed
  qed
qed

lemma bn_modexp_val:
  assumes "length base = 64" "length m = 64"
  shows "length (bn_modexp base e m) = 64 \<and>
         bn_val (bn_modexp base e m) = (if e = 0 then 1 else bn_val base ^ unat e mod eff_mod m 64)"
proof -
  have one: "(replicate BN 0)[0 := 1] = (1 :: u32) # replicate 63 0"
    by (simp add: BN_def numeral_eq_Suc)
  show ?thesis using modexp_loop_val [of "1 # replicate 63 0" base m e] assms
    unfolding bn_modexp_def one by simp
qed

end
