(* ===== verification/Byte_Codec.thy ===== *)
theory Byte_Codec
  imports Modexp
begin

text \<open>
  The conversions between big-endian byte strings and limb arrays are the standard octet-string
  primitives: \<open>os2ip\<close> reads a string as a number, \<open>i2osp n\<close> writes the \<open>n\<close> low bytes of one.
\<close>

definition os2ip :: "u8 list \<Rightarrow> nat" where
  "os2ip bs = foldl (\<lambda>v b. 256 * v + unat b) 0 bs"

definition i2osp :: "nat \<Rightarrow> nat \<Rightarrow> u8 list" where
  "i2osp n v = map (\<lambda>b. of_nat (v div 256 ^ (n - 1 - b) mod 256)) [0..<n]"

lemma os2ip_snoc [simp]: "os2ip (bs @ [b]) = 256 * os2ip bs + unat b"
  by (simp add: os2ip_def)

lemma os2ip_Nil [simp]: "os2ip [] = 0"
  by (simp add: os2ip_def)

lemma unat_u8: "unat (b :: u8) < 256"
  using unsigned_less [of b] by simp

lemma unat_of_byte: "unat (of_nat (v mod 256) :: u8) = v mod 256"
  by (simp add: unat_of_nat)

lemma os2ip_less: "os2ip bs < 256 ^ length bs"
proof (induction bs rule: rev_induct)
  case (snoc b bs)
  have "256 * os2ip bs + unat b < 256 * (os2ip bs + 1)" using unat_u8 [of b] by simp
  also have "\<dots> \<le> 256 * 256 ^ length bs" using snoc by (intro mult_le_mono2) simp
  finally show ?case by simp
qed simp

lemma os2ip_digit:
  "b < length bs \<Longrightarrow> os2ip bs div 256 ^ (length bs - 1 - b) mod 256 = unat (bs ! b)"
proof (induction bs arbitrary: b rule: rev_induct)
  case (snoc x bs)
  show ?case
  proof (cases "b = length bs")
    case True
    then show ?thesis using unat_u8 [of x] by simp
  next
    case False
    then have b: "b < length bs" using snoc.prems by simp
    then have e: "length (bs @ [x]) - 1 - b = Suc (length bs - 1 - b)" by simp
    have "(256 * os2ip bs + unat x) div 256 = os2ip bs" using unat_u8 [of x] by simp
    then have "os2ip (bs @ [x]) div 256 ^ (length (bs @ [x]) - 1 - b) =
        os2ip bs div 256 ^ (length bs - 1 - b)"
      unfolding e by (simp add: div_mult2_eq)
    with snoc.IH [OF b] b show ?thesis by (simp add: nth_append)
  qed
qed simp

lemma length_i2osp [simp]: "length (i2osp n v) = n"
  by (simp add: i2osp_def)

lemma i2osp_os2ip: "i2osp (length bs) (os2ip bs) = bs"
proof (rule nth_equalityI)
  fix b
  assume "b < length (i2osp (length bs) (os2ip bs))"
  then have b: "b < length bs" by simp
  have "i2osp (length bs) (os2ip bs) ! b = of_nat (os2ip bs div 256 ^ (length bs - 1 - b) mod 256)"
    using b by (simp add: i2osp_def)
  also have "\<dots> = of_nat (unat (bs ! b))" unfolding os2ip_digit [OF b] ..
  finally show "i2osp (length bs) (os2ip bs) ! b = bs ! b" by simp
qed simp

lemma os2ip_inj: "length a = length b \<Longrightarrow> os2ip a = os2ip b \<Longrightarrow> a = b"
  by (metis i2osp_os2ip)

lemma i2osp_Suc: "i2osp (Suc n) v = i2osp n (v div 256) @ [of_nat (v mod 256)]"
proof (rule nth_equalityI)
  fix b
  assume "b < length (i2osp (Suc n) v)"
  then consider "b = n" | "b < n" by fastforce
  then show "i2osp (Suc n) v ! b = (i2osp n (v div 256) @ [of_nat (v mod 256)]) ! b"
  proof cases
    case 2
    then have "n - b = Suc (n - 1 - b)" by simp
    then have "v div 256 ^ (n - b) = v div 256 div 256 ^ (n - 1 - b)" by (simp add: div_mult2_eq)
    with 2 show ?thesis by (simp add: i2osp_def nth_append del: upt_Suc)
  qed (simp add: i2osp_def nth_append del: upt_Suc)
qed simp

lemma os2ip_i2osp: "os2ip (i2osp n v) = v mod 256 ^ n"
proof (induction n arbitrary: v)
  case (Suc n)
  have "v mod 256 ^ Suc n = 256 * (v div 256 mod 256 ^ n) + v mod 256"
    by (simp add: mod_mult2_eq)
  with Suc show ?case by (simp add: i2osp_Suc unat_of_byte)
qed (simp add: i2osp_def)

section \<open>Reading bytes into limbs\<close>

text \<open>The place of byte \<open>b\<close> counted from the least significant end.\<close>

lemma byte_place:
  assumes "4 dvd n" "b < n"
  shows "n - 1 - b = 4 * byte_limb n b + byte_shift b div 8" "byte_shift b \<le> 24" "8 dvd byte_shift b"
proof -
  obtain k where n: "n = 4 * k" using assms(1) by (rule dvdE)
  have b: "b = 4 * (b div 4) + b mod 4" "b mod 4 < 4" by simp_all
  show "byte_shift b \<le> 24" "8 dvd byte_shift b" by (simp_all add: byte_shift_def dvd_diff_nat)
  have sh: "byte_shift b div 8 = 3 - b mod 4"
  proof -
    have "byte_shift b = (3 - b mod 4) * 8" unfolding byte_shift_def diff_mult_distrib by simp
    then show ?thesis by simp
  qed
  have "n - 1 - b = 4 * (k - 1 - b div 4) + (3 - b mod 4)" using b assms(2) unfolding n by linarith
  moreover have "(4 * (k - 1 - b div 4) + (3 - b mod 4)) div 4 = k - 1 - b div 4"
    by simp
  ultimately show "n - 1 - b = 4 * byte_limb n b + byte_shift b div 8"
    unfolding byte_limb_def sh by (simp only:)
qed

lemma pow_place:
  assumes "4 dvd n" "b < n"
  shows "(256 :: nat) ^ (n - 1 - b) = limb_base ^ byte_limb n b * 2 ^ byte_shift b"
proof -
  have "(256 :: nat) ^ (n - 1 - b) = 2 ^ (8 * (n - 1 - b))" by (simp add: power_mult)
  also have "8 * (n - 1 - b) = 32 * byte_limb n b + byte_shift b"
    using byte_place [OF assms] by (auto elim!: dvdE)
  finally show ?thesis by (simp add: power_add limb_base_pow)
qed

lemma or_disjoint: "(x :: nat) < 2 ^ k \<Longrightarrow> 2 ^ k dvd a \<Longrightarrow> a OR x = a + x"
proof -
  assume x: "x < 2 ^ k" and "2 ^ k dvd a"
  then obtain q where a: "a = push_bit k q" by (auto simp: push_bit_eq_mult mult.commute elim!: dvdE)
  have t: "take_bit k x = x" using x by (simp add: take_bit_eq_mod)
  have "a AND take_bit k x = 0" unfolding a by (rule bit_eqI) (auto simp: bit_simps)
  then show ?thesis using t by (simp add: disjunctive_add_eq_or)
qed

lemma unat_or_byte:
  fixes o' :: u32 and x :: u8
  assumes "2 ^ (k + 8) dvd unat o'" "k \<le> 24"
  shows "unat (o' OR push_bit k (ucast x)) = unat o' + 2 ^ k * unat x"
proof -
  have w: "unat (ucast x :: u32) = unat x"
    using unat_u8 [of x] by (simp add: unsigned_ucast_eq take_bit_eq_mod)
  have "2 ^ k * unat x < 2 ^ k * 2 ^ 8" using unat_u8 [of x] by simp
  then have lt: "2 ^ k * unat x < 2 ^ (k + 8)" by (simp add: power_add)
  also have "(2 :: nat) ^ (k + 8) \<le> 2 ^ LENGTH(32)" using assms(2) by (intro power_increasing) simp_all
  finally have "take_bit LENGTH(32) (push_bit k (unat x)) = 2 ^ k * unat x"
    unfolding take_bit_eq_mod push_bit_eq_mult by (simp only: mult.commute [of "unat x"] mod_less)
  then have p: "unat (push_bit k (ucast x :: u32)) = 2 ^ k * unat x"
    unfolding unsigned_push_bit_eq w .
  show ?thesis unfolding unsigned_or_eq p by (rule or_disjoint [OF lt assms(1)])
qed

lemma from_bytes_fold:
  assumes n: "length bs = n" "4 dvd n" "n \<le> 256" and "b \<le> n"
  defines "f \<equiv> (\<lambda>b out. out[byte_limb n b :=
                out ! byte_limb n b OR push_bit (byte_shift b) (ucast (bs ! b))])"
  shows "length (fold f [0..<b] (replicate BN 0)) = 64 \<and>
         bn_val (fold f [0..<b] (replicate BN 0)) = os2ip (take b bs) * 256 ^ (n - b)"
  using assms(4)
proof (induction b)
  case 0
  then show ?case by (simp add: BN_def)
next
  case (Suc b)
  let ?o = "fold f [0..<b] (replicate BN 0)" and ?l = "byte_limb n b" and ?s = "byte_shift b"
  let ?X = "os2ip (take b bs)"
  have ih: "length ?o = 64" "bn_val ?o = ?X * 256 ^ (n - b)" using Suc by simp_all
  have b: "b < n" using Suc.prems by simp
  have place: "n - 1 - b = 4 * ?l + ?s div 8" "?s \<le> 24" "8 dvd ?s" using byte_place [OF n(2) b] by simp_all
  have l: "?l < length ?o" using place(1) n(3) b ih(1) by simp
  have nb: "n - b = Suc (n - 1 - b)" using b by simp
  have val: "bn_val ?o = limb_base ^ ?l * (?X * 2 ^ (?s + 8))"
    unfolding ih(2) nb power_Suc pow_place [OF n(2) b] by (simp add: power_add)
  have "bn_val ?o div limb_base ^ ?l mod limb_base = unat (?o ! ?l)"
    using bn_val_split [OF l] bn_val_take_less [of ?l ?o] l unat_u32 [of "?o ! ?l"] by simp
  then have "unat (?o ! ?l) = (?X * 2 ^ (?s + 8)) mod limb_base" unfolding val by simp
  moreover have "(2 :: nat) ^ (?s + 8) dvd limb_base"
    unfolding limb_base_def using place(2) by (intro le_imp_power_dvd) simp
  ultimately have dvd: "2 ^ (?s + 8) dvd unat (?o ! ?l)" by (simp add: dvd_mod)
  have step: "fold f [0..<Suc b] (replicate BN 0) =
      ?o[?l := ?o ! ?l OR push_bit ?s (ucast (bs ! b))]" by (simp add: f_def)
  have "bn_val (?o[?l := ?o ! ?l OR push_bit ?s (ucast (bs ! b))]) + limb_base ^ ?l * unat (?o ! ?l) =
        bn_val ?o + limb_base ^ ?l * (unat (?o ! ?l) + 2 ^ ?s * unat (bs ! b))"
    unfolding bn_val_update [OF l] unat_or_byte [OF dvd place(2)] ..
  then have "bn_val (fold f [0..<Suc b] (replicate BN 0)) = bn_val ?o + limb_base ^ ?l * (2 ^ ?s * unat (bs ! b))"
    unfolding step by (simp add: distrib_left)
  also have "\<dots> = ?X * 256 ^ (n - b) + 256 ^ (n - 1 - b) * unat (bs ! b)"
    unfolding ih(2) pow_place [OF n(2) b] by (simp add: mult.assoc)
  also have "\<dots> = (256 * ?X + unat (bs ! b)) * 256 ^ (n - Suc b)"
    unfolding nb by (simp add: distrib_right)
  also have "256 * ?X + unat (bs ! b) = os2ip (take (Suc b) bs)"
    using b n(1) by (simp add: take_Suc_conv_app_nth)
  finally show ?case using ih(1) unfolding step by simp
qed

lemma bn_from_bytes_val:
  assumes "length bs = n" "4 dvd n" "n \<le> 256"
  shows "length (bn_from_bytes bs n) = 64 \<and> bn_val (bn_from_bytes bs n) = os2ip bs"
  using from_bytes_fold [OF assms order.refl] assms(1) by (simp add: bn_from_bytes_def)

section \<open>Writing limbs as bytes\<close>

lemma bn_to_bytes_val:
  assumes "4 dvd n" "n \<le> 4 * length inp"
  shows "bn_to_bytes inp n = i2osp n (bn_val inp)"
proof (rule nth_equalityI)
  fix b
  assume "b < length (bn_to_bytes inp n)"
  then have b: "b < n" by (simp add: bn_to_bytes_def)
  let ?l = "byte_limb n b" and ?s = "byte_shift b"
  have place: "n - 1 - b = 4 * ?l + ?s div 8" "?s \<le> 24" using byte_place [OF assms(1) b] by simp_all
  have l: "?l < length inp" using place(1) assms(2) b by simp
  have "unat (ucast (drop_bit ?s (inp ! ?l)) :: u8) = unat (inp ! ?l) div 2 ^ ?s mod 2 ^ 8"
    unfolding unsigned_ucast_eq unat_drop_u32 take_bit_eq_mod by simp
  also have "\<dots> = bn_val inp div 2 ^ (32 * ?l + ?s) mod 2 ^ 8"
    using l place(2) by (intro bn_val_bits [symmetric]) simp_all
  also have "(2 :: nat) ^ (32 * ?l + ?s) = 256 ^ (n - 1 - b)"
    unfolding pow_place [OF assms(1) b] power_add limb_base_pow ..
  finally have "unat (ucast (drop_bit ?s (inp ! ?l)) :: u8) =
      unat (of_nat (bn_val inp div 256 ^ (n - 1 - b) mod 256) :: u8)"
    by (simp add: unat_of_byte)
  then have "(ucast (drop_bit ?s (inp ! ?l)) :: u8) = of_nat (bn_val inp div 256 ^ (n - 1 - b) mod 256)"
    by (rule unsigned_word_eqI)
  then show "bn_to_bytes inp n ! b = i2osp n (bn_val inp) ! b"
    using b by (simp add: bn_to_bytes_def i2osp_def)
qed (simp add: bn_to_bytes_def)

end
