(* ===== verification/Hash_Service.thy ===== *)
theory Hash_Service
  imports Prelude
begin

text \<open>
  The contract of an incremental hash: a context that is initialised, fed chunks and finished.
  \<open>reads c m\<close> says that the context has absorbed the message \<open>m\<close>; \<open>usable\<close> is what a context must
  satisfy before it is initialised.  The clients (HMAC, the one-shot digest, the fingerprint of the
  bootloader) only use the facts proved here.
\<close>

locale streaming_hash =
  fixes hinit :: "'c \<Rightarrow> 'c"
    and hupdate :: "u8 list \<Rightarrow> 'c \<Rightarrow> 'c"
    and hfinal :: "'c \<Rightarrow> u8 list \<times> 'c"
    and usable :: "'c \<Rightarrow> bool"
    and reads :: "'c \<Rightarrow> u8 list \<Rightarrow> bool"
    and H :: "u8 list \<Rightarrow> u8 list"
  assumes init_law: "usable c \<Longrightarrow> reads (hinit c) []"
    and update_law: "reads c m \<Longrightarrow> reads (hupdate d c) (m @ d)"
    and final_law: "reads c m \<Longrightarrow> fst (hfinal c) = H m \<and> usable (snd (hfinal c))"
begin

lemma reads_chunks: "reads c m \<Longrightarrow> reads (fold hupdate chunks c) (m @ concat chunks)"
proof (induction chunks arbitrary: c m)
  case (Cons d chunks)
  from Cons.IH [OF update_law [OF Cons.prems, of d]] show ?case by simp
qed simp

lemma digest_of_chunks:
  "usable c \<Longrightarrow> fst (hfinal (fold hupdate chunks (hinit c))) = H (concat chunks)"
  using final_law [OF reads_chunks [OF init_law]] by fastforce

lemma digest_one: "usable c \<Longrightarrow> fst (hfinal (hupdate d (hinit c))) = H d"
  using digest_of_chunks [of c "[d]"] by simp

lemma usable_after: "usable c \<Longrightarrow> usable (snd (hfinal (hupdate e (hupdate d (hinit c)))))"
  using final_law [OF reads_chunks [OF init_law, of c "[d, e]"]] by simp

text \<open>The two nested digests of HMAC, the second one in the context the first one left.\<close>

lemma digest_nested:
  assumes "usable c"
  shows "fst (hfinal (hupdate (fst (hfinal (hupdate d (hupdate ip (hinit c)))))
            (hupdate op (hinit (snd (hfinal (hupdate d (hupdate ip (hinit c))))))))) =
         H (op @ H (ip @ d))"
  using digest_of_chunks [OF assms, of "[ip, d]"]
    digest_of_chunks [OF usable_after [OF assms, of d ip],
      of "[op, fst (hfinal (hupdate d (hupdate ip (hinit c))))]"]
  by simp

end

text \<open>HMAC over an abstract hash with 64-byte blocks, for keys of at most one block.\<close>

definition hmac_spec :: "(u8 list \<Rightarrow> u8 list) \<Rightarrow> u8 list \<Rightarrow> u8 list \<Rightarrow> u8 list" where
  "hmac_spec H key data =
     (let k = key @ replicate (64 - length key) 0 in
      H (map (\<lambda>b. b XOR 0x5C) k @ H (map (\<lambda>b. b XOR 0x36) k @ data)))"

lemma padded_key: "map (\<lambda>i. if i < length key then key ! i else 0) [0..<64] =
    take 64 key @ replicate (64 - length key) 0"
  by (rule nth_equalityI) (auto simp: nth_append)

end
