(* ===== verification/Sha256.thy ===== *)
theory Sha256
  imports Hash_Service
begin

text \<open>
  SHA-256 and HMAC as \<open>boot/crypto.c\<close> and \<open>backend/deps/crypto/crypto.c\<close> write them: a context with
  eight state words, a bit counter that wraps at 64 bits and a 64-byte buffer with an offset; the
  byte-wise update loop; the two padding branches of the final step.  The buffer is the whole
  array, its bytes beyond the offset are whatever was there before.
\<close>

section \<open>Words of the compression function\<close>

definition SHA256_K :: "u32 list" where
  "SHA256_K =
    [0x428A2F98, 0x71374491, 0xB5C0FBCF, 0xE9B5DBA5, 0x3956C25B, 0x59F111F1,
     0x923F82A4, 0xAB1C5ED5, 0xD807AA98, 0x12835B01, 0x243185BE, 0x550C7DC3,
     0x72BE5D74, 0x80DEB1FE, 0x9BDC06A7, 0xC19BF174, 0xE49B69C1, 0xEFBE4786,
     0x0FC19DC6, 0x240CA1CC, 0x2DE92C6F, 0x4A7484AA, 0x5CB0A9DC, 0x76F988DA,
     0x983E5152, 0xA831C66D, 0xB00327C8, 0xBF597FC7, 0xC6E00BF3, 0xD5A79147,
     0x06CA6351, 0x14292967, 0x27B70A85, 0x2E1B2138, 0x4D2C6DFC, 0x53380D13,
     0x650A7354, 0x766A0ABB, 0x81C2C92E, 0x92722C85, 0xA2BFE8A1, 0xA81A664B,
     0xC24B8B70, 0xC76C51A3, 0xD192E819, 0xD6990624, 0xF40E3585, 0x106AA070,
     0x19A4C116, 0x1E376C08, 0x2748774C, 0x34B0BCB5, 0x391C0CB3, 0x4ED8AA4A,
     0x5B9CCA4F, 0x682E6FF3, 0x748F82EE, 0x78A5636F, 0x84C87814, 0x8CC70208,
     0x90BEFFFA, 0xA4506CEB, 0xBEF9A3F7, 0xC67178F2]"

definition ROTR32 :: "u32 \<Rightarrow> nat \<Rightarrow> u32" where
  "ROTR32 x n = drop_bit n x OR push_bit (32 - n) x"

definition CH :: "u32 \<Rightarrow> u32 \<Rightarrow> u32 \<Rightarrow> u32" where
  "CH x y z = (x AND y) XOR (NOT x AND z)"

definition MAJ :: "u32 \<Rightarrow> u32 \<Rightarrow> u32 \<Rightarrow> u32" where
  "MAJ x y z = (x AND y) XOR (x AND z) XOR (y AND z)"

definition EP0 :: "u32 \<Rightarrow> u32" where
  "EP0 x = ROTR32 x 2 XOR ROTR32 x 13 XOR ROTR32 x 22"

definition EP1 :: "u32 \<Rightarrow> u32" where
  "EP1 x = ROTR32 x 6 XOR ROTR32 x 11 XOR ROTR32 x 25"

definition SIG0 :: "u32 \<Rightarrow> u32" where
  "SIG0 x = ROTR32 x 7 XOR ROTR32 x 18 XOR drop_bit 3 x"

definition SIG1 :: "u32 \<Rightarrow> u32" where
  "SIG1 x = ROTR32 x 17 XOR ROTR32 x 19 XOR drop_bit 10 x"

section \<open>The compression function\<close>

text \<open>The first loop: sixteen big-endian words of the block.\<close>

definition be_word :: "u8 \<Rightarrow> u8 \<Rightarrow> u8 \<Rightarrow> u8 \<Rightarrow> u32" where
  "be_word b0 b1 b2 b3 =
     push_bit 24 (ucast b0) OR push_bit 16 (ucast b1) OR push_bit 8 (ucast b2) OR ucast b3"

definition block_words :: "u8 list \<Rightarrow> u32 list" where
  "block_words block =
     map (\<lambda>i. be_word (block ! (i*4)) (block ! (i*4+1)) (block ! (i*4+2)) (block ! (i*4+3))) [0..<16]"

text \<open>The second loop: \<open>W[i]\<close> for \<open>i\<close> from 16 to 63, the array growing by one word a turn.\<close>

definition extend_word :: "nat \<Rightarrow> u32 list \<Rightarrow> u32 list" where
  "extend_word i W = W @ [SIG1 (W ! (i - 2)) + W ! (i - 7) + SIG0 (W ! (i - 15)) + W ! (i - 16)]"

definition schedule :: "u8 list \<Rightarrow> u32 list" where
  "schedule block = fold extend_word [16..<64] (block_words block)"

datatype work_vars =
  Work (wa: u32) (wb: u32) (wc: u32) (wd: u32) (we: u32) (wf: u32) (wg: u32) (wh: u32)

fun sha_round :: "u32 \<times> u32 \<Rightarrow> work_vars \<Rightarrow> work_vars" where
  "sha_round (k, w) (Work a b c d e f g h) =
     (let T1 = h + EP1 e + CH e f g + k + w;
          T2 = EP0 a + MAJ a b c
      in Work (T1 + T2) a b c (d + T1) e f g)"

definition load_vars :: "u32 list \<Rightarrow> work_vars" where
  "load_vars s = Work (s ! 0) (s ! 1) (s ! 2) (s ! 3) (s ! 4) (s ! 5) (s ! 6) (s ! 7)"

fun add_vars :: "u32 list \<Rightarrow> work_vars \<Rightarrow> u32 list" where
  "add_vars s (Work a b c d e f g h) =
     [s ! 0 + a, s ! 1 + b, s ! 2 + c, s ! 3 + d, s ! 4 + e, s ! 5 + f, s ! 6 + g, s ! 7 + h]"

definition sha256_transform :: "u32 list \<Rightarrow> u8 list \<Rightarrow> u32 list" where
  "sha256_transform state block =
     add_vars state (fold sha_round (zip SHA256_K (schedule block)) (load_vars state))"

section \<open>The streaming context\<close>

record sha256_ctx_t =
  sc_state :: "u32 list"
  sc_bit_count :: u64
  sc_buffer :: "u8 list"
  sc_offset :: nat

definition sha256_init :: "sha256_ctx_t \<Rightarrow> sha256_ctx_t" where
  "sha256_init ctx = ctx\<lparr>
     sc_state := [0x6A09E667, 0xBB67AE85, 0x3C6EF372, 0xA54FF53A,
                  0x510E527F, 0x9B05688C, 0x1F83D9AB, 0x5BE0CD19],
     sc_bit_count := 0, sc_offset := 0\<rparr>"

text \<open>\<open>ctx->buffer[ctx->buffer_offset++] = b\<close>.\<close>

definition put_byte :: "u8 \<Rightarrow> sha256_ctx_t \<Rightarrow> sha256_ctx_t" where
  "put_byte b ctx = ctx\<lparr>sc_buffer := (sc_buffer ctx)[sc_offset ctx := b], sc_offset := sc_offset ctx + 1\<rparr>"

definition flush :: "sha256_ctx_t \<Rightarrow> sha256_ctx_t" where
  "flush ctx = ctx\<lparr>sc_state := sha256_transform (sc_state ctx) (sc_buffer ctx), sc_offset := 0\<rparr>"

definition update_byte :: "u8 \<Rightarrow> sha256_ctx_t \<Rightarrow> sha256_ctx_t" where
  "update_byte b ctx =
     (let c1 = put_byte b ctx; c2 = c1\<lparr>sc_bit_count := sc_bit_count c1 + 8\<rparr> in
      if sc_offset c2 = 64 then flush c2 else c2)"

definition sha256_update :: "u8 list \<Rightarrow> sha256_ctx_t \<Rightarrow> sha256_ctx_t" where
  "sha256_update data ctx = fold update_byte data ctx"

text \<open>\<open>while (ctx->buffer_offset < n) ctx->buffer[ctx->buffer_offset++] = 0;\<close>\<close>

function zero_fill :: "nat \<Rightarrow> sha256_ctx_t \<Rightarrow> sha256_ctx_t" where
  "zero_fill n ctx = (if sc_offset ctx < n then zero_fill n (put_byte 0 ctx) else ctx)"
  by pat_completeness auto
termination
  by (relation "measure (\<lambda>(n, ctx). n - sc_offset ctx)") (auto simp: put_byte_def)

declare zero_fill.simps [simp del]

definition length_bytes :: "u64 \<Rightarrow> u8 list" where
  "length_bytes n = map (\<lambda>i. ucast (drop_bit (56 - i * 8) n)) [0..<8]"

definition put_length :: "sha256_ctx_t \<Rightarrow> sha256_ctx_t" where
  "put_length ctx =
     fold (\<lambda>i c. c\<lparr>sc_buffer := (sc_buffer c)[56 + i := length_bytes (sc_bit_count c) ! i]\<rparr>) [0..<8] ctx"

definition state_bytes :: "u32 list \<Rightarrow> u8 list" where
  "state_bytes s =
     concat (map (\<lambda>i. [ucast (drop_bit 24 (s ! i)), ucast (drop_bit 16 (s ! i)),
                       ucast (drop_bit 8 (s ! i)), ucast (s ! i)]) [0..<8])"

definition sha256_final :: "sha256_ctx_t \<Rightarrow> u8 list \<times> sha256_ctx_t" where
  "sha256_final ctx =
     (let c1 = put_byte 0x80 ctx;
          c2 = (if sc_offset c1 > 56 then flush (zero_fill 64 c1) else c1);
          c3 = put_length (zero_fill 56 c2);
          c4 = c3\<lparr>sc_state := sha256_transform (sc_state c3) (sc_buffer c3)\<rparr>
      in (state_bytes (sc_state c4), c4))"

definition sha256_hmac :: "sha256_ctx_t \<Rightarrow> u8 list \<Rightarrow> u8 list \<Rightarrow> u8 list" where
  "sha256_hmac ctx key data =
     (let k = map (\<lambda>i. if i < length key then key ! i else 0) [0..<64];
          ipad = map (\<lambda>b. b XOR 0x36) k;
          opad = map (\<lambda>b. b XOR 0x5C) k;
          (inner, c1) = sha256_final (sha256_update data (sha256_update ipad (sha256_init ctx)))
      in fst (sha256_final (sha256_update inner (sha256_update opad (sha256_init c1)))))"

section \<open>The hash function, as the standard states it\<close>

text \<open>
  Padding to a multiple of the block length and the absorption of complete blocks; a last
  incomplete block is left out.
\<close>

definition IV :: "u32 list" where
  "IV = [0x6A09E667, 0xBB67AE85, 0x3C6EF372, 0xA54FF53A, 0x510E527F, 0x9B05688C, 0x1F83D9AB, 0x5BE0CD19]"

definition pad :: "u8 list \<Rightarrow> u8 list" where
  "pad msg =
     msg @ [0x80] @ replicate ((119 - length msg mod 64) mod 64) 0 @
     length_bytes (of_nat (8 * length msg))"

function absorb :: "(u32 list \<Rightarrow> u8 list \<Rightarrow> u32 list) \<Rightarrow> u32 list \<Rightarrow> u8 list \<Rightarrow> u32 list" where
  "absorb f s bs = (if length bs < 64 then s else absorb f (f s (take 64 bs)) (drop 64 bs))"
  by pat_completeness auto
termination by (relation "measure (\<lambda>(f, s, bs). length bs)") auto

declare absorb.simps [simp del]

definition sha256_spec :: "u8 list \<Rightarrow> u8 list" where
  "sha256_spec msg = state_bytes (absorb sha256_transform IV (pad msg))"

section \<open>The context represents the message read so far\<close>

lemma absorb_short [simp]: "length bs < 64 \<Longrightarrow> absorb f s bs = s"
  by (simp add: absorb.simps)

lemma absorb_block: "length b = 64 \<Longrightarrow> absorb f s (b @ bs) = absorb f (f s b) bs"
  by (simp add: absorb.simps [of f s "b @ bs"])

lemma absorb_one: "length b = 64 \<Longrightarrow> absorb f s b = f s b"
  using absorb_block [of b f s "[]"] by simp

lemma absorb_append: "64 dvd length a \<Longrightarrow> absorb f s (a @ b) = absorb f (absorb f s a) b"
proof (induction f s a rule: absorb.induct)
  case (1 f s a)
  show ?case
  proof (cases "length a < 64")
    case True
    with "1.prems" have "a = []" by (auto dest: dvd_imp_le)
    then show ?thesis by simp
  next
    case False
    with "1.prems" have "64 dvd length (drop 64 a)" by (simp add: dvd_diff_nat)
    with "1.IH" False have ih: "absorb f (f s (take 64 a)) (drop 64 a @ b) =
        absorb f (absorb f (f s (take 64 a)) (drop 64 a)) b" by blast
    have "absorb f s (a @ b) = absorb f s (take 64 a @ drop 64 a @ b)"
      by (simp only: append_take_drop_id flip: append_assoc)
    also have "\<dots> = absorb f (f s (take 64 a)) (drop 64 a @ b)" using False by (subst absorb_block) simp_all
    also note ih
    also have "absorb f (f s (take 64 a)) (drop 64 a) = absorb f s a"
      using False by (simp add: absorb.simps [of f s a])
    finally show ?thesis .
  qed
qed

text \<open>The context holds the bytes \<open>bs\<close> in its buffer, with state \<open>s\<close> and counter \<open>n\<close>.\<close>

definition holds :: "sha256_ctx_t \<Rightarrow> u32 list \<Rightarrow> u64 \<Rightarrow> u8 list \<Rightarrow> bool" where
  "holds ctx s n bs \<longleftrightarrow>
     sc_state ctx = s \<and> sc_bit_count ctx = n \<and> length (sc_buffer ctx) = 64 \<and>
     sc_offset ctx = length bs \<and> take (length bs) (sc_buffer ctx) = bs \<and> length bs \<le> 64"

lemma holds_init: "length (sc_buffer ctx) = 64 \<Longrightarrow> holds (sha256_init ctx) IV 0 []"
  by (simp add: holds_def sha256_init_def IV_def)

lemma holds_put: "holds ctx s n bs \<Longrightarrow> length bs < 64 \<Longrightarrow> holds (put_byte b ctx) s n (bs @ [b])"
  by (auto simp: holds_def put_byte_def take_Suc_conv_app_nth)

lemma holds_flush: "holds ctx s n bs \<Longrightarrow> length bs = 64 \<Longrightarrow> holds (flush ctx) (sha256_transform s bs) n []"
  by (auto simp: holds_def flush_def)

lemma holds_zero_fill:
  "holds ctx s n bs \<Longrightarrow> length bs \<le> k \<Longrightarrow> k \<le> 64 \<Longrightarrow>
   holds (zero_fill k ctx) s n (bs @ replicate (k - length bs) 0)"
proof (induction k ctx arbitrary: bs rule: zero_fill.induct)
  case (1 k ctx)
  have off: "sc_offset ctx = length bs" using "1.prems"(1) by (simp add: holds_def)
  show ?case
  proof (cases "length bs < k")
    case True
    have put: "holds (put_byte 0 ctx) s n (bs @ [0])"
      using holds_put [OF "1.prems"(1)] True "1.prems"(3) by simp
    have "holds (zero_fill k (put_byte 0 ctx)) s n ((bs @ [0]) @ replicate (k - length (bs @ [0])) 0)"
      using "1.IH" [OF _ put] True off "1.prems"(3) by simp
    moreover have "(bs @ [0]) @ replicate (k - length (bs @ [0])) 0 = bs @ replicate (k - length bs) (0 :: u8)"
      using True by (simp add: Suc_diff_Suc flip: replicate_Suc)
    ultimately show ?thesis using True off by (simp add: zero_fill.simps [of k ctx])
  next
    case False
    with "1.prems" off show ?thesis by (simp add: zero_fill.simps [of k ctx])
  qed
qed

lemma upt_8: "[0..<8] = [0, 1, 2, 3, 4, 5, 6, 7 :: nat]"
  by code_simp

lemma length_length_bytes [simp]: "length (length_bytes n) = 8"
  by (simp add: length_bytes_def)

lemma put_length_frame:
  "sc_state (put_length ctx) = sc_state ctx \<and> sc_bit_count (put_length ctx) = sc_bit_count ctx"
  by (simp add: put_length_def upt_8)

lemma put_length_buffer:
  assumes "length (sc_buffer ctx) = 64"
  shows "sc_buffer (put_length ctx) = take 56 (sc_buffer ctx) @ length_bytes (sc_bit_count ctx)"
proof (rule nth_equalityI)
  show "length (sc_buffer (put_length ctx)) =
      length (take 56 (sc_buffer ctx) @ length_bytes (sc_bit_count ctx))"
    using assms by (simp add: put_length_def upt_8)
  fix i
  assume "i < length (sc_buffer (put_length ctx))"
  with assms have "i < 64" by (simp add: put_length_def upt_8)
  then consider "i < 56" | "i = 56" | "i = 57" | "i = 58" | "i = 59" | "i = 60" | "i = 61" | "i = 62" | "i = 63"
    by linarith
  then show "sc_buffer (put_length ctx) ! i =
      (take 56 (sc_buffer ctx) @ length_bytes (sc_bit_count ctx)) ! i"
    by cases (use assms in \<open>simp_all add: put_length_def upt_8 nth_append\<close>)
qed

text \<open>The message read so far: complete blocks are in the state, the rest is in the buffer.\<close>

definition represents :: "sha256_ctx_t \<Rightarrow> u8 list \<Rightarrow> bool" where
  "represents ctx msg \<longleftrightarrow>
     (\<exists>dn tl. msg = dn @ tl \<and> 64 dvd length dn \<and> length tl < 64 \<and>
        holds ctx (absorb sha256_transform IV dn) (of_nat (8 * length msg)) tl)"

lemma represents_init: "length (sc_buffer ctx) = 64 \<Longrightarrow> represents (sha256_init ctx) []"
  unfolding represents_def by (rule exI [of _ "[]"], rule exI [of _ "[]"]) (simp add: holds_init)

lemma represents_byte:
  assumes "represents ctx msg"
  shows "represents (update_byte b ctx) (msg @ [b])"
proof -
  obtain dn tl where m: "msg = dn @ tl" "64 dvd length dn" "length tl < 64"
    and h: "holds ctx (absorb sha256_transform IV dn) (of_nat (8 * length msg)) tl"
    using assms by (auto simp: represents_def)
  define c where "c = (put_byte b ctx)\<lparr>sc_bit_count := sc_bit_count (put_byte b ctx) + 8\<rparr>"
  have hc: "holds c (absorb sha256_transform IV dn) (of_nat (8 * length (msg @ [b]))) (tl @ [b])"
    using holds_put [OF h m(3), of b] by (simp add: c_def holds_def)
  show ?thesis
  proof (cases "length (tl @ [b]) = 64")
    case True
    with hc have "sc_offset c = 64" by (simp add: holds_def)
    then have "update_byte b ctx = flush c" by (simp add: update_byte_def c_def Let_def)
    with holds_flush [OF hc True] have "holds (update_byte b ctx)
        (absorb sha256_transform IV (dn @ (tl @ [b]))) (of_nat (8 * length (msg @ [b]))) []"
      using m(2) True by (simp add: absorb_append absorb_one)
    moreover have "64 dvd length (msg @ [b])" using m True by simp
    ultimately show ?thesis using m(1) unfolding represents_def
      by (intro exI [of _ "msg @ [b]"] exI [of _ "[]"]) simp
  next
    case False
    with hc have "sc_offset c \<noteq> 64" by (simp add: holds_def)
    then have "update_byte b ctx = c" by (simp add: update_byte_def c_def Let_def)
    moreover have "length (tl @ [b]) < 64" using False m(3) by simp
    ultimately show ?thesis using hc m unfolding represents_def
      by (intro exI [of _ dn] exI [of _ "tl @ [b]"]) simp
  qed
qed

lemma represents_update: "represents ctx msg \<Longrightarrow> represents (sha256_update data ctx) (msg @ data)"
proof (induction data arbitrary: ctx msg)
  case (Cons b data)
  from Cons.IH [OF represents_byte [OF Cons.prems, of b]] show ?case by (simp add: sha256_update_def)
qed (simp add: sha256_update_def)

lemma final_block:
  assumes h: "holds ctx s n bs" and le: "length bs \<le> 56"
  shows "sha256_transform (sc_state (put_length (zero_fill 56 ctx))) (sc_buffer (put_length (zero_fill 56 ctx))) =
           sha256_transform s (bs @ replicate (56 - length bs) 0 @ length_bytes n)"
proof -
  have z: "holds (zero_fill 56 ctx) s n (bs @ replicate (56 - length bs) 0)"
    using holds_zero_fill [OF h le] by simp
  then have "take 56 (sc_buffer (zero_fill 56 ctx)) = bs @ replicate (56 - length bs) 0"
    using le by (simp add: holds_def)
  with z show ?thesis by (simp add: holds_def put_length_frame put_length_buffer)
qed

lemma length_after_final:
  assumes "holds ctx s n bs" "length bs \<le> 56"
  shows "length (sc_buffer (put_length (zero_fill 56 ctx))) = 64"
  using holds_zero_fill [OF assms, simplified] put_length_buffer [of "zero_fill 56 ctx"]
  by (simp add: holds_def)

lemma sha256_final_spec:
  assumes "represents ctx msg"
  shows "fst (sha256_final ctx) = sha256_spec msg \<and> length (sc_buffer (snd (sha256_final ctx))) = 64"
proof -
  obtain dn tl where m: "msg = dn @ tl" "64 dvd length dn" "length tl < 64"
    and h: "holds ctx (absorb sha256_transform IV dn) (of_nat (8 * length msg)) tl"
    using assms by (auto simp: represents_def)
  let ?n = "of_nat (8 * length msg) :: u64" and ?s = "absorb sha256_transform IV dn"
  define c1 where "c1 = put_byte 0x80 ctx"
  have h1: "holds c1 ?s ?n (tl @ [0x80])" using holds_put [OF h m(3)] by (simp add: c1_def)
  then have off: "sc_offset c1 = length tl + 1" by (simp add: holds_def)
  have mod: "length msg mod 64 = length tl" using m by (auto elim!: dvdE)
  show ?thesis
  proof (cases "length tl + 1 > 56")
    case False
    then have "119 - length tl = (55 - length tl) + 64" by simp
    then have "(119 - length msg mod 64) mod 64 = 55 - length tl"
      unfolding mod by (simp only: mod_add_self2) (simp add: mod_less)
    then have pad: "pad msg = dn @ (tl @ [0x80] @ replicate (55 - length tl) 0 @ length_bytes ?n)"
      by (simp add: pad_def m(1))
    have "fst (sha256_final ctx) = state_bytes (sha256_transform ?s
        ((tl @ [0x80]) @ replicate (56 - length (tl @ [0x80 :: u8])) 0 @ length_bytes ?n))"
      using final_block [OF h1] False off by (simp add: sha256_final_def Let_def flip: c1_def)
    also have "\<dots> = sha256_spec msg" using False m(2)
      by (simp add: sha256_spec_def pad absorb_append absorb_one)
    finally show ?thesis using length_after_final [OF h1] off False
      by (simp add: sha256_final_def Let_def flip: c1_def)
  next
    case True
    define b1 where "b1 = tl @ [0x80] @ replicate (63 - length tl) (0 :: u8)"
    have lb1: "length b1 = 64" using m(3) by (simp add: b1_def)
    have "(119 - length msg mod 64) mod 64 = (63 - length tl) + 56" using m(3) True mod by simp
    then have pad: "pad msg = dn @ b1 @ (replicate 56 0 @ length_bytes ?n)"
      by (simp add: pad_def m(1) b1_def replicate_add)
    have "holds (zero_fill 64 c1) ?s ?n b1"
      using holds_zero_fill [OF h1, of 64] m(3) by (simp add: b1_def)
    then have h2: "holds (flush (zero_fill 64 c1)) (sha256_transform ?s b1) ?n []"
      using lb1 by (rule holds_flush)
    have "fst (sha256_final ctx) = state_bytes (sha256_transform (sha256_transform ?s b1)
        (replicate 56 0 @ length_bytes ?n))"
      using final_block [OF h2] True off by (simp add: sha256_final_def Let_def flip: c1_def)
    also have "\<dots> = sha256_spec msg" using m(2) lb1
      by (simp add: sha256_spec_def pad absorb_append absorb_one)
    finally show ?thesis using length_after_final [OF h2] True off
      by (simp add: sha256_final_def Let_def flip: c1_def)
  qed
qed

interpretation boot_hash: streaming_hash sha256_init sha256_update sha256_final
  "\<lambda>c. length (sc_buffer c) = 64" represents sha256_spec
  by unfold_locales (use represents_init represents_update sha256_final_spec in auto)

section \<open>Properties\<close>

text \<open>
  Claim C8.  Streaming correctness.  Whatever the stack held before, initialising a context, feeding
  it a message in any number of chunks of any sizes and finishing it yields the digest of the whole
  message: the padded message absorbed block by block, with the 64-bit length at its end.
\<close>

theorem sha256_streaming:
  assumes "length (sc_buffer ctx) = 64"
  shows "fst (sha256_final (fold sha256_update chunks (sha256_init ctx))) = sha256_spec (concat chunks)"
  using assms by (rule boot_hash.digest_of_chunks)

definition demo_ctx :: sha256_ctx_t where
  "demo_ctx = \<lparr>sc_state = [], sc_bit_count = 7, sc_buffer = replicate 64 0xAA, sc_offset = 9\<rparr>"

lemma demo_ctx_buffer: "length (sc_buffer demo_ctx) = 64"
  by (simp add: demo_ctx_def)

theorem sha256_streaming_witness:
  "fst (sha256_final (fold sha256_update [[0x61], [], [0x62, 0x63]] (sha256_init demo_ctx))) =
   sha256_spec [0x61, 0x62, 0x63]"
  using sha256_streaming [OF demo_ctx_buffer, of "[[0x61], [], [0x62, 0x63]]"] by simp

text \<open>
  The boot HMAC is HMAC for the first 64 bytes of the key: a longer key is cut off, not
  hashed first.
\<close>

theorem sha256_hmac_correct:
  assumes "length (sc_buffer ctx) = 64"
  shows "sha256_hmac ctx key data = hmac_spec sha256_spec (take 64 key) data"
proof -
  have "64 - min (length key) 64 = 64 - length key" by (simp add: min_def)
  then show ?thesis using boot_hash.digest_nested [OF assms]
    by (simp add: sha256_hmac_def hmac_spec_def Let_def case_prod_unfold padded_key)
qed

theorem sha256_hmac_correct_witness:
  "sha256_hmac demo_ctx (replicate 65 1) [2] = sha256_hmac demo_ctx (replicate 64 1) [2]"
  using sha256_hmac_correct [OF demo_ctx_buffer, of "replicate 65 1" "[2]"]
    sha256_hmac_correct [OF demo_ctx_buffer, of "replicate 64 1" "[2]"]
  by simp

end
