(* ===== verification/Backend_Crypto.thy ===== *)
theory Backend_Crypto
  imports Sha256
begin

text \<open>
  \<open>backend/deps/crypto/crypto.c\<close>: the daemons' own copy of SHA-256, its one-shot digest, its HMAC,
  the RSA stub and the loop around \<open>getrandom\<close>.  The bit-level macros of the two files are the same
  text, so \<open>ROTR32\<close> to \<open>SIG1\<close> and the padding loops come from \<open>Sha256\<close>; the table, the compression
  function and the operations are transcribed again and compared with the boot loader's.
\<close>

section \<open>SHA-256 of the daemons\<close>

type_synonym crypto_sha256_ctx_t = sha256_ctx_t

definition K256 :: "u32 list" where
  "K256 =
    [0x428A2F98, 0x71374491, 0xB5C0FBCF, 0xE9B5DBA5, 0x3956C25B, 0x59F111F1,
     0x923F82A4, 0xAB1C5ED5, 0xD807AA98, 0x12835B01, 0x243185BE, 0x550C7DC3,
     0x72BE5D74, 0x80DEB1FE, 0x9BDC06A7, 0xC19BF174, 0xE49B69C1, 0xEFBE4786,
     0x0FC19DC6, 0x240CA1CC, 0x2DE92C6F, 0x4A7484AA, 0x5CB0A9DC, 0x76F988DA,
     0x983E5152, 0xA831C66D, 0xB00327C8, 0xBF597FC7, 0xC6E00BF3, 0xD5A79147,
     0x06CA6351, 0x14292967, 0x27B70A85, 0x2E1B2138, 0x4D2C6DFC, 0x53380D13,
     0x650A7354, 0x766A0ABB, 0x81C2C92E, 0x92722C85, 0xA2BFE8A1, 0xA81A664B,
     0xC24B8B70, 0xC76C51A3, 0xD192E819, 0xD6990624, 0xF40E3585, 0x106AA070,
     0x19A4C116, 0x1E376C08, 0x2748774C, 0x34B0BCB5, 0x391C0CB3, 0x4ED8AA4A,
     0x5B9CCA4F, 0x682E6FF3, 0x748F82EE, 0x78A5636F, 0x84C87814, 0x8CC70208,
     0x90BEFFFA, 0xA4506CEB, 0xBEF9A3F7, 0xC67178F2]"

definition transform :: "u32 list \<Rightarrow> u8 list \<Rightarrow> u32 list" where
  "transform state block =
     add_vars state (fold sha_round (zip K256 (schedule block)) (load_vars state))"

definition crypto_sha256_init :: "crypto_sha256_ctx_t \<Rightarrow> crypto_sha256_ctx_t" where
  "crypto_sha256_init ctx = ctx\<lparr>
     sc_state := [0x6A09E667, 0xBB67AE85, 0x3C6EF372, 0xA54FF53A,
                  0x510E527F, 0x9B05688C, 0x1F83D9AB, 0x5BE0CD19],
     sc_bit_count := 0, sc_offset := 0\<rparr>"

definition crypto_flush :: "crypto_sha256_ctx_t \<Rightarrow> crypto_sha256_ctx_t" where
  "crypto_flush ctx = ctx\<lparr>sc_state := transform (sc_state ctx) (sc_buffer ctx), sc_offset := 0\<rparr>"

definition crypto_sha256_update :: "u8 list \<Rightarrow> crypto_sha256_ctx_t \<Rightarrow> crypto_sha256_ctx_t" where
  "crypto_sha256_update data ctx =
     fold (\<lambda>b c. let c1 = put_byte b c; c2 = c1\<lparr>sc_bit_count := sc_bit_count c1 + 8\<rparr> in
             if sc_offset c2 = 64 then crypto_flush c2 else c2) data ctx"

definition crypto_sha256_final :: "crypto_sha256_ctx_t \<Rightarrow> u8 list \<times> crypto_sha256_ctx_t" where
  "crypto_sha256_final ctx =
     (let c1 = put_byte 0x80 ctx;
          c2 = (if sc_offset c1 > 56 then crypto_flush (zero_fill 64 c1) else c1);
          c3 = put_length (zero_fill 56 c2);
          c4 = c3\<lparr>sc_state := transform (sc_state c3) (sc_buffer c3)\<rparr>
      in (state_bytes (sc_state c4), c4))"

text \<open>The context is a local variable: \<open>ctx\<close> is whatever the stack holds.\<close>

definition crypto_sha256 :: "crypto_sha256_ctx_t \<Rightarrow> u8 list \<Rightarrow> u8 list" where
  "crypto_sha256 ctx data =
     fst (crypto_sha256_final (crypto_sha256_update data (crypto_sha256_init ctx)))"

definition crypto_hmac_sha256 ::
  "crypto_sha256_ctx_t \<Rightarrow> crypto_sha256_ctx_t \<Rightarrow> u8 list \<Rightarrow> u8 list \<Rightarrow> int \<times> u8 list" where
  "crypto_hmac_sha256 ctx0 ctx key data =
     (let src = (if length key > 64 then crypto_sha256 ctx0 key else key);
          k = src @ drop (length src) (replicate 64 0);
          ipad = map (\<lambda>b. b XOR 0x36) k;
          opad = map (\<lambda>b. b XOR 0x5C) k;
          (inner, c1) = crypto_sha256_final
             (crypto_sha256_update data (crypto_sha256_update ipad (crypto_sha256_init ctx)))
      in (0, fst (crypto_sha256_final
             (crypto_sha256_update inner (crypto_sha256_update opad (crypto_sha256_init c1))))))"

definition crypto_rsa2048_verify ::
  "u8 list \<Rightarrow> nat \<Rightarrow> u32 \<Rightarrow> u8 list \<Rightarrow> nat \<Rightarrow> u8 list \<Rightarrow> int" where
  "crypto_rsa2048_verify modulus mod_len exponent digest digest_size signature = -1"

section \<open>Random bytes\<close>

text \<open>
  What the successive \<open>getrandom\<close> calls return: some bytes, an interruption, or another error.  The
  loop returns \<open>None\<close> when the given answers run out before it is done.
\<close>

datatype getrandom_result = Rand_bytes "u8 list" | Rand_eintr | Rand_error

fun random_loop :: "nat \<Rightarrow> u8 list \<Rightarrow> getrandom_result list \<Rightarrow> (int \<times> u8 list) option" where
  "random_loop len got answers =
     (if length got < len then
        (case answers of
           [] \<Rightarrow> None
         | Rand_bytes bs # rest \<Rightarrow> random_loop len (got @ bs) rest
         | Rand_eintr # rest \<Rightarrow> random_loop len got rest
         | Rand_error # rest \<Rightarrow> Some (-1, got))
      else Some (0, got))"

declare random_loop.simps [simp del]

definition crypto_random_bytes :: "bool \<Rightarrow> nat \<Rightarrow> getrandom_result list \<Rightarrow> (int \<times> u8 list) option" where
  "crypto_random_bytes buffer_ok len answers =
     (if \<not> buffer_ok then Some (-1, []) else random_loop len [] answers)"

section \<open>Agreement with the boot loader\<close>

lemma K256_eq: "K256 = SHA256_K"
  by (simp add: K256_def SHA256_K_def)

lemma transform_eq: "transform = sha256_transform"
  by (simp add: fun_eq_iff transform_def sha256_transform_def K256_eq)

lemma crypto_flush_eq: "crypto_flush = flush"
  by (simp add: fun_eq_iff crypto_flush_def flush_def transform_eq)

lemma crypto_init_eq: "crypto_sha256_init = sha256_init"
  by (simp add: fun_eq_iff crypto_sha256_init_def sha256_init_def)

lemma crypto_update_eq: "crypto_sha256_update = sha256_update"
  unfolding crypto_sha256_update_def [abs_def] sha256_update_def [abs_def] crypto_flush_eq
    update_byte_def [abs_def] by simp

lemma crypto_final_eq: "crypto_sha256_final = sha256_final"
  unfolding crypto_sha256_final_def [abs_def] sha256_final_def [abs_def] crypto_flush_eq transform_eq
  by simp

lemmas crypto_eqs = crypto_init_eq crypto_update_eq crypto_final_eq

interpretation daemon_hash: streaming_hash crypto_sha256_init crypto_sha256_update
  crypto_sha256_final "\<lambda>c. length (sc_buffer c) = 64" represents sha256_spec
  unfolding crypto_eqs by (rule boot_hash.streaming_hash_axioms)

lemma length_sha256_spec: "length (sha256_spec msg) = 32"
  by (simp add: sha256_spec_def state_bytes_def upt_8)

text \<open>
  The random loop asks for what is still missing, so no answer overruns the buffer.
\<close>

fun answers_fit :: "nat \<Rightarrow> getrandom_result list \<Rightarrow> bool" where
  "answers_fit k [] = True"
| "answers_fit k (Rand_bytes bs # rest) = (length bs \<le> k \<and> answers_fit (k - length bs) rest)"
| "answers_fit k (r # rest) = answers_fit k rest"

lemma random_loop_fills:
  "answers_fit (len - length got) answers \<Longrightarrow> length got \<le> len \<Longrightarrow>
   random_loop len got answers = Some (r, out) \<Longrightarrow>
   length out \<le> len \<and> (r = 0 \<longleftrightarrow> length out = len) \<and> (r = 0 \<or> r = -1)"
proof (induction len got answers arbitrary: r out rule: random_loop.induct)
  case (1 len got answers)
  show ?case
  proof (cases "length got < len")
    case False
    with "1.prems" show ?thesis by (simp add: random_loop.simps [of len got])
  next
    case True
    show ?thesis
    proof (cases answers)
      case Nil
      with "1.prems"(3) True show ?thesis by (simp add: random_loop.simps [of len got])
    next
      case (Cons a rest)
      show ?thesis
      proof (cases a)
        case (Rand_bytes bs)
        with "1.prems"(1) Cons have fit: "length bs \<le> len - length got"
            "answers_fit (len - length (got @ bs)) rest" by simp_all
        then have "length (got @ bs) \<le> len" using True by simp
        moreover have "random_loop len (got @ bs) rest = Some (r, out)"
          using "1.prems"(3) True Cons Rand_bytes by (simp add: random_loop.simps [of len got])
        ultimately show ?thesis by (rule "1.IH"(1) [OF True Cons Rand_bytes fit(2)])
      next
        case Rand_eintr
        have "random_loop len got rest = Some (r, out)"
          using "1.prems"(3) True Cons Rand_eintr by (subst (asm) random_loop.simps) simp
        moreover have "answers_fit (len - length got) rest" using "1.prems"(1) Cons Rand_eintr by simp
        ultimately show ?thesis using "1.IH"(2) [OF True Cons Rand_eintr] "1.prems"(2) by blast
      next
        case Rand_error
        with "1.prems" True Cons show ?thesis by (simp add: random_loop.simps [of len got])
      qed
    qed
  qed
qed

section \<open>Properties\<close>

text \<open>
  Claim C18.  The HMAC of the daemons is HMAC with SHA-256 for keys of every length (longer keys are
  hashed first), and it agrees with the boot loader's on keys of at most one block.
\<close>

theorem crypto_hmac_correct:
  assumes "length (sc_buffer ctx0) = 64" "length (sc_buffer ctx) = 64"
  shows "crypto_hmac_sha256 ctx0 ctx key data =
           (0, hmac_spec sha256_spec (if length key > 64 then sha256_spec key else key) data) \<and>
         (length key \<le> 64 \<longrightarrow> snd (crypto_hmac_sha256 ctx0 ctx key data) = sha256_hmac ctx key data)"
proof -
  have d: "crypto_sha256 ctx0 key = sha256_spec key"
    using daemon_hash.digest_one [OF assms(1)] by (simp add: crypto_sha256_def)
  have eq: "crypto_hmac_sha256 ctx0 ctx key data =
      (0, hmac_spec sha256_spec (if length key > 64 then sha256_spec key else key) data)"
    using daemon_hash.digest_nested [OF assms(2)]
    by (simp add: crypto_hmac_sha256_def hmac_spec_def Let_def case_prod_unfold d length_sha256_spec)
  moreover have "sha256_hmac ctx key data = hmac_spec sha256_spec (take 64 key) data"
    using boot_hash.digest_nested [OF assms(2)]
    by (auto simp: sha256_hmac_def hmac_spec_def Let_def case_prod_unfold padded_key min_def)
  ultimately show ?thesis by simp
qed

theorem crypto_hmac_correct_witness:
  "snd (crypto_hmac_sha256 demo_ctx demo_ctx [1, 2] [3]) = sha256_hmac demo_ctx [1, 2] [3]"
  using crypto_hmac_correct [OF demo_ctx_buffer demo_ctx_buffer, of "[1, 2]" "[3]"]
  by (auto simp del: split_paired_All)

text \<open>
  The two implementations of SHA-256 in the tree are the same function of any starting
  context and any message.
\<close>

theorem sha256_implementations_agree:
  "crypto_sha256 ctx data = fst (sha256_final (sha256_update data (sha256_init ctx)))"
  by (simp add: crypto_sha256_def crypto_eqs)

text \<open>
  The random source reports success exactly when the whole buffer was filled, never writes
  beyond it, and otherwise reports an error, as long as no single answer exceeds what was asked for.
\<close>

theorem crypto_random_bytes_fills:
  assumes "answers_fit len answers" "crypto_random_bytes ok len answers = Some (r, out)" "0 < len"
  shows "length out \<le> len \<and> (r = 0 \<longleftrightarrow> length out = len) \<and> (r = 0 \<or> r = -1)"
  using assms random_loop_fills [of len "[]" answers r out]
  by (auto simp: crypto_random_bytes_def split: if_splits)

theorem crypto_random_bytes_fills_witness:
  "length [1, 2, 3 :: u8] \<le> 3"
proof -
  have "answers_fit 3 [Rand_bytes [1], Rand_eintr, Rand_bytes [2, 3]]" by simp
  moreover have "crypto_random_bytes True 3 [Rand_bytes [1], Rand_eintr, Rand_bytes [2, 3]] =
      Some (0, [1, 2, 3])" by code_simp
  ultimately show ?thesis using crypto_random_bytes_fills [of 3 "[Rand_bytes [1], Rand_eintr, Rand_bytes [2, 3]]" True 0 "[1, 2, 3]"]
    by simp
qed

end
