(* ===== verification/Rsa.thy ===== *)
theory Rsa
  imports Byte_Codec Backend_Crypto
begin

text \<open>
  RSA-2048 signature verification with PKCS#1 v1.5 padding, as \<open>rsa2048_verify\<close> of
  \<open>boot/crypto.c\<close> performs it on the big integers of \<open>Bignum\<close>.
\<close>

section \<open>Verification\<close>

definition SHA256_DIGEST_INFO :: "u8 list" where
  "SHA256_DIGEST_INFO =
     [48, 49, 48, 13, 6, 9, 96, 134, 72, 1, 101, 3, 4, 2, 1, 5, 0, 4, 32]"

record rsa_pubkey_t =
  rk_modulus :: "u8 list"
  rk_exponent :: u32
  rk_modulus_size :: nat

text \<open>The loop over the padding, with its two counters.\<close>

function skip_ff :: "u8 list \<Rightarrow> nat \<Rightarrow> nat \<Rightarrow> nat \<times> nat" where
  "skip_ff em i ps_len =
     (if i < 256 \<and> em ! i = 0xFF then skip_ff em (i + 1) (ps_len + 1) else (i, ps_len))"
  by pat_completeness auto
termination by (relation "measure (\<lambda>(em, i, ps_len). 256 - i)") auto

declare skip_ff.simps [simp del]

definition check_em :: "u8 list \<Rightarrow> u8 list \<Rightarrow> nat \<Rightarrow> bool" where
  "check_em em digest digest_size =
     (if em ! 0 \<noteq> 0 \<or> em ! 1 \<noteq> 1 then False
      else
        (let (i, ps_len) = skip_ff em 2 0 in
         if ps_len < 8 then False
         else if i \<ge> 256 \<or> em ! i \<noteq> 0 then False
         else
           (let t = i + 1 in
            if 256 - t \<noteq> length SHA256_DIGEST_INFO + 32 then False
            else if \<not> list_all (\<lambda>k. em ! (t + k) = SHA256_DIGEST_INFO ! k)
                       [0..<length SHA256_DIGEST_INFO] then False
            else list_all (\<lambda>k. em ! (t + length SHA256_DIGEST_INFO + k) = digest ! k)
                       [0..<digest_size])))"

definition rsa2048_verify :: "rsa_pubkey_t \<Rightarrow> u8 list \<Rightarrow> nat \<Rightarrow> u8 list \<Rightarrow> bool" where
  "rsa2048_verify key digest digest_size signature =
     (if digest_size \<noteq> 32 then False
      else if rk_modulus_size key \<noteq> 256 \<or> rk_exponent key \<noteq> 0x10001 then False
      else
        (let n_limbs = bn_from_bytes (rk_modulus key) 256;
             s_limbs = bn_from_bytes signature 256;
             m_limbs = bn_modexp s_limbs (rk_exponent key) n_limbs;
             em = bn_to_bytes m_limbs 256
         in check_em em digest digest_size))"

section \<open>The encoded message\<close>

text \<open>EMSA-PKCS1-v1_5 for a 32-byte digest in 256 bytes.\<close>

definition emsa_pkcs1 :: "u8 list \<Rightarrow> u8 list" where
  "emsa_pkcs1 digest = [0, 1] @ replicate 202 0xFF @ [0] @ SHA256_DIGEST_INFO @ digest"

lemma length_DigestInfo [simp]: "length SHA256_DIGEST_INFO = 19"
  by (simp add: SHA256_DIGEST_INFO_def)

lemma skip_ff_run:
  "length em = 256 \<Longrightarrow> i \<le> 256 \<Longrightarrow>
   skip_ff em i p = (i + length (takeWhile (\<lambda>b. b = 0xFF) (drop i em)),
                     p + length (takeWhile (\<lambda>b. b = 0xFF) (drop i em)))"
proof (induction em i p rule: skip_ff.induct)
  case (1 em i p)
  show ?case
  proof (cases "i < 256")
    case True
    then have "drop i em = em ! i # drop (Suc i) em"
      using "1.prems" by (intro Cons_nth_drop_Suc [symmetric]) simp
    with "1.IH" "1.prems" True show ?thesis by (simp add: skip_ff.simps [of em i p])
  next
    case False
    with "1.prems" show ?thesis by (subst skip_ff.simps) simp
  qed
qed

lemma list_all_segment:
  "t + length xs \<le> length em \<Longrightarrow>
   list_all (\<lambda>k. em ! (t + k) = xs ! k) [0..<length xs] \<longleftrightarrow> take (length xs) (drop t em) = xs"
proof -
  assume le: "t + length xs \<le> length em"
  then have "take (length xs) (drop t em) = xs \<longleftrightarrow>
      (\<forall>k < length xs. take (length xs) (drop t em) ! k = xs ! k)"
    by (subst list_eq_iff_nth_eq) simp
  also have "\<dots> \<longleftrightarrow> (\<forall>k < length xs. em ! (t + k) = xs ! k)" using le by simp
  finally show ?thesis by (auto simp: list_all_iff)
qed

lemma takeWhile_block:
  assumes "takeWhile P xs = replicate n c" "n < length xs"
  shows "xs = replicate n c @ xs ! n # drop (Suc n) xs" "\<not> P (xs ! n)"
proof -
  have l: "length (takeWhile P xs) = n" by (simp add: assms(1))
  have "take n xs = replicate n c"
    using takeWhile_eq_take [of P xs] assms(1) l by simp
  then show "xs = replicate n c @ xs ! n # drop (Suc n) xs"
    using assms(2) id_take_nth_drop [of n xs] by simp
  show "\<not> P (xs ! n)" using nth_length_takeWhile [of P xs] l assms(2) by simp
qed

lemma check_em_iff:
  assumes em: "length em = 256" and d: "length digest = 32"
  shows "check_em em digest 32 \<longleftrightarrow> em = emsa_pkcs1 digest"
proof
  assume e: "em = emsa_pkcs1 digest"
  have drop2: "drop 2 em = replicate 202 0xFF @ 0 # SHA256_DIGEST_INFO @ digest"
    unfolding e emsa_pkcs1_def by simp
  have "takeWhile (\<lambda>b. b = 0xFF) (drop 2 em) = replicate 202 0xFF"
    unfolding drop2 by (subst takeWhile_append2) simp_all
  then have skip: "skip_ff em 2 0 = (204, 202)" using skip_ff_run [OF em, of 2 0] by simp
  have at204: "em ! 204 = 0" and t: "drop 205 em = SHA256_DIGEST_INFO @ digest"
    unfolding e emsa_pkcs1_def by (simp_all add: nth_append)
  have t2: "drop 224 em = digest" unfolding e emsa_pkcs1_def by simp
  have "list_all (\<lambda>k. em ! (205 + k) = SHA256_DIGEST_INFO ! k) [0..<length SHA256_DIGEST_INFO]"
    using list_all_segment [of 205 SHA256_DIGEST_INFO em] em t by simp
  moreover have "list_all (\<lambda>k. em ! (224 + k) = digest ! k) [0..<length digest]"
    using list_all_segment [of 224 digest em] em d t2 by simp
  moreover have "em ! 0 = 0" "em ! 1 = 1" unfolding e emsa_pkcs1_def by simp_all
  ultimately show "check_em em digest 32" using skip at204 d by (simp add: check_em_def)
next
  assume c: "check_em em digest 32"
  define n where "n = length (takeWhile (\<lambda>b. b = 0xFF) (drop 2 em))"
  have skip: "skip_ff em 2 0 = (2 + n, n)" using skip_ff_run [OF em, of 2 0] by (simp add: n_def)
  have n: "n = 202" using c skip by (simp add: check_em_def Let_def split: if_splits)
  then have skip': "skip_ff em 2 0 = (204, 202)" using skip by simp
  have hd: "em ! 0 = 0" "em ! 1 = 1"
    and all: "list_all (\<lambda>k. em ! (205 + k) = SHA256_DIGEST_INFO ! k) [0..<length SHA256_DIGEST_INFO]"
      "list_all (\<lambda>k. em ! (224 + k) = digest ! k) [0..<length digest]"
    and z: "em ! 204 = 0"
    using c d skip' by (simp_all add: check_em_def Let_def split: if_splits)
  have tw: "takeWhile (\<lambda>b. b = 0xFF) (drop 2 em) = replicate 202 0xFF"
    using n set_takeWhileD [of _ "\<lambda>b. b = 0xFF" "drop 2 em"]
    by (intro replicate_eqI) (auto simp: n_def)
  have tail: "drop 2 em = replicate 202 0xFF @ em ! 204 # drop 205 em"
    using takeWhile_block(1) [OF tw] em by simp
  have seg1: "take 19 (drop 205 em) = SHA256_DIGEST_INFO"
    using list_all_segment [of 205 SHA256_DIGEST_INFO em] em all(1) by simp
  have seg2: "take 32 (drop 224 em) = digest"
    using list_all_segment [of 224 digest em] em all(2) d by simp
  have "drop 205 em = take 19 (drop 205 em) @ drop 19 (drop 205 em)"
    by (rule append_take_drop_id [symmetric])
  also have "drop 19 (drop 205 em) = take 32 (drop 224 em)" using em by simp
  finally have rest: "drop 205 em = SHA256_DIGEST_INFO @ digest" unfolding seg1 seg2 .
  have "em = em ! 0 # em ! 1 # drop 2 em"
    using em by (simp add: Cons_nth_drop_Suc numeral_2_eq_2)
  then have "em = em ! 0 # em ! 1 # replicate 202 0xFF @ em ! 204 # SHA256_DIGEST_INFO @ digest"
    unfolding tail rest .
  then show "em = emsa_pkcs1 digest" using hd z n by (simp add: emsa_pkcs1_def)
qed


section \<open>The number theory of the check\<close>

definition rsa_modulus :: "u8 list \<Rightarrow> nat" where
  "rsa_modulus bs = (if os2ip bs = 0 then 256 ^ 256 else os2ip bs)"

lemma pow_256_limbs: "limb_base ^ 64 = 256 ^ 256"
proof -
  have "limb_base = 256 ^ 4" by (simp add: limb_base_def)
  then have "limb_base ^ 64 = 256 ^ (4 * 64)" by (simp only: power_mult)
  then show ?thesis by simp
qed

lemma rsa_em_value:
  assumes "length (rk_modulus key) = 256" "length signature = 256"
  shows "bn_to_bytes (bn_modexp (bn_from_bytes signature 256) 0x10001 (bn_from_bytes (rk_modulus key) 256)) 256 =
         i2osp 256 (os2ip signature ^ 65537 mod rsa_modulus (rk_modulus key))"
proof -
  have n: "length (bn_from_bytes (rk_modulus key) 256) = 64"
      "bn_val (bn_from_bytes (rk_modulus key) 256) = os2ip (rk_modulus key)"
    using bn_from_bytes_val [OF assms(1)] by simp_all
  have s: "length (bn_from_bytes signature 256) = 64"
      "bn_val (bn_from_bytes signature 256) = os2ip signature"
    using bn_from_bytes_val [OF assms(2)] by simp_all
  have m: "eff_mod (bn_from_bytes (rk_modulus key) 256) 64 = rsa_modulus (rk_modulus key)"
    unfolding eff_mod_def rsa_modulus_def n(2) pow_256_limbs ..
  let ?m = "bn_modexp (bn_from_bytes signature 256) 0x10001 (bn_from_bytes (rk_modulus key) 256)"
  have e: "unat (0x10001 :: u32) = 65537" "(0x10001 :: u32) \<noteq> 0" by simp_all
  have "length ?m = 64" "bn_val ?m = os2ip signature ^ 65537 mod rsa_modulus (rk_modulus key)"
    using bn_modexp_val [OF s(1) n(1), of "0x10001"] e unfolding m s(2) by (simp_all only: if_False)
  then show ?thesis using bn_to_bytes_val [of 256 ?m] by simp
qed

section \<open>Properties\<close>

text \<open>
  Claim C6.  The verifier is textbook RSA with PKCS#1 v1.5: it accepts exactly when the key has the
  2048-bit size and the exponent 65537, the digest has 32 bytes, and the signature raised to the
  exponent modulo the modulus is, as a 256-byte string, the encoded digest.  (A zero modulus counts
  as 2 to the 2048.)
\<close>

theorem rsa2048_verify_correct:
  assumes "length (rk_modulus key) = 256" "length signature = 256" "length digest = 32"
  shows "rsa2048_verify key digest digest_size signature \<longleftrightarrow>
           digest_size = 32 \<and> rk_modulus_size key = 256 \<and> rk_exponent key = 0x10001 \<and>
           i2osp 256 (os2ip signature ^ 65537 mod rsa_modulus (rk_modulus key)) = emsa_pkcs1 digest"
proof (cases "digest_size = 32 \<and> rk_modulus_size key = 256 \<and> rk_exponent key = 0x10001")
  case True
  then show ?thesis using check_em_iff [OF _ assms(3)] rsa_em_value [OF assms(1,2)]
    unfolding rsa2048_verify_def Let_def by simp
next
  case False
  then show ?thesis unfolding rsa2048_verify_def by auto
qed

theorem rsa2048_verify_correct_witness:
  "\<not> rsa2048_verify \<lparr>rk_modulus = replicate 256 0, rk_exponent = 0x10001, rk_modulus_size = 256\<rparr>
       (replicate 32 0) 32 (replicate 256 0)"
proof -
  let ?key = "\<lparr>rk_modulus = replicate 256 0, rk_exponent = 0x10001, rk_modulus_size = 256\<rparr>"
  have z: "os2ip (replicate n 0) = 0" for n
    by (induction n) (simp_all add: os2ip_def)
  have "i2osp 256 0 \<noteq> emsa_pkcs1 (replicate 32 0)"
  proof
    assume "i2osp 256 0 = emsa_pkcs1 (replicate 32 0)"
    then have "i2osp 256 0 ! 1 = emsa_pkcs1 (replicate 32 0) ! 1" by simp
    then show False by (simp add: i2osp_def emsa_pkcs1_def)
  qed
  then show ?thesis
    using rsa2048_verify_correct [of ?key "replicate 256 0" "replicate 32 0" 32] by (simp add: z)
qed

text \<open>
  Byte strings survive the conversion to limbs and back, and limbs survive the
  conversion to bytes and back.
\<close>

theorem bn_bytes_roundtrip:
  assumes "length bs = 256" "length limbs = 64"
  shows "bn_to_bytes (bn_from_bytes bs 256) 256 = bs \<and>
         bn_from_bytes (bn_to_bytes limbs 256) 256 = limbs"
proof
  have f: "length (bn_from_bytes bs 256) = 64" "bn_val (bn_from_bytes bs 256) = os2ip bs"
    using bn_from_bytes_val [OF assms(1)] by simp_all
  show "bn_to_bytes (bn_from_bytes bs 256) 256 = bs"
    using bn_to_bytes_val [of 256 "bn_from_bytes bs 256"] f i2osp_os2ip [of bs] assms(1) by simp
  have t: "bn_to_bytes limbs 256 = i2osp 256 (bn_val limbs)"
    using bn_to_bytes_val [of 256 limbs] assms(2) by simp
  have g: "length (bn_from_bytes (i2osp 256 (bn_val limbs)) 256) = 64"
      "bn_val (bn_from_bytes (i2osp 256 (bn_val limbs)) 256) = bn_val limbs mod 256 ^ 256"
    using bn_from_bytes_val [of "i2osp 256 (bn_val limbs)" 256] unfolding os2ip_i2osp by simp_all
  have "bn_val limbs < 256 ^ 256" using bn_val_less [of limbs] assms(2) by (simp add: pow_256_limbs)
  then show "bn_from_bytes (bn_to_bytes limbs 256) 256 = limbs"
    unfolding t using g assms(2) by (intro bn_val_inj) simp_all
qed

theorem bn_bytes_roundtrip_witness:
  "bn_to_bytes (bn_from_bytes (replicate 256 7) 256) 256 = replicate 256 7"
  using bn_bytes_roundtrip [of "replicate 256 7" "replicate 64 9"] by simp

end
