(* ===== verification/Bootloader.thy ===== *)
theory Bootloader
  imports Rsa
begin

text \<open>
  The UEFI loader \<open>boot/bootloader.c\<close>.  The firmware is a parameter: a record of what its calls
  answer (protocol lookup, opening, sizing, allocating and reading a file).  The image is a byte
  list; the header fields are read from it at their offsets in \<open>ServEcosysHeader\<close> (packed layout
  of the naturally aligned C structure).  Console output is not modelled.
\<close>

section \<open>Data\<close>

definition SERVECOSYS_MAGIC :: u32 where "SERVECOSYS_MAGIC = 0x53455256"

datatype efi_status = EFI_SUCCESS | EFI_BUFFER_TOO_SMALL | EFI_SECURITY_VIOLATION | EFI_FIRMWARE_ERROR nat

text \<open>Little-endian fields of the image.\<close>

definition le_bytes :: "u8 list \<Rightarrow> nat \<Rightarrow> nat \<Rightarrow> nat" where
  "le_bytes img off n = foldr (\<lambda>b v. unat b + 256 * v) (take n (drop off img)) 0"

record ServEcosysHeader =
  sh_magic :: u32
  sh_version :: u32
  sh_kernel_size :: u64
  sh_initramfs_size :: u64
  sh_kernel_entry :: u64
  sh_hardware_fingerprint :: "u8 list"
  sh_signature :: "u8 list"

definition header_of :: "u8 list \<Rightarrow> ServEcosysHeader" where
  "header_of img =
     \<lparr>sh_magic = of_nat (le_bytes img 0 4), sh_version = of_nat (le_bytes img 4 4),
      sh_kernel_size = of_nat (le_bytes img 8 8), sh_initramfs_size = of_nat (le_bytes img 16 8),
      sh_kernel_entry = of_nat (le_bytes img 24 8),
      sh_hardware_fingerprint = take 32 (drop 32 img), sh_signature = take 256 (drop 64 img)\<rparr>"

record firmware =
  fw_protocol :: efi_status
  fw_open :: "string \<Rightarrow> efi_status"
  fw_alloc :: "nat \<Rightarrow> efi_status"
  fw_read :: "string \<Rightarrow> efi_status"
  fw_contents :: "string \<Rightarrow> u8 list"

section \<open>Operations\<close>

text \<open>The key \<open>verify_signature\<close> builds: \<open>memset\<close> clears the modulus.\<close>

definition boot_pubkey :: rsa_pubkey_t where
  "boot_pubkey = \<lparr>rk_modulus = replicate 256 0, rk_exponent = 0x10001, rk_modulus_size = 256\<rparr>"

definition verify_signature :: "sha256_ctx_t \<Rightarrow> u8 list \<Rightarrow> u8 list \<Rightarrow> bool" where
  "verify_signature ctx data signature =
     (let digest = fst (sha256_final (sha256_update data (sha256_init ctx)))
      in rsa2048_verify boot_pubkey digest 32 signature)"

definition generate_hardware_fingerprint ::
  "sha256_ctx_t \<Rightarrow> nat \<Rightarrow> u8 list \<Rightarrow> efi_status \<times> u8 list" where
  "generate_hardware_fingerprint ctx size' fingerprint =
     (if size' < 32 then (EFI_BUFFER_TOO_SMALL, fingerprint)
      else
        (let c0 = sha256_init ctx;
             c1 = sha256_update (map (\<lambda>c. of_nat (of_char c)) ''ServEcosys'') c0;
             smbios = map (\<lambda>i. of_nat (i * 31 + 17)) [0..<256];
             c2 = sha256_update smbios c1
         in (EFI_SUCCESS, fst (sha256_final c2))))"

definition load_kernel_file :: "firmware \<Rightarrow> string \<Rightarrow> efi_status \<times> u8 list option" where
  "load_kernel_file fw filename =
     (if fw_open fw filename \<noteq> EFI_SUCCESS then (fw_open fw filename, None)
      else
        (let file_size = length (fw_contents fw filename) in
         if fw_alloc fw file_size \<noteq> EFI_SUCCESS then (fw_alloc fw file_size, None)
         else if fw_read fw filename \<noteq> EFI_SUCCESS then (fw_read fw filename, None)
         else (EFI_SUCCESS, Some (fw_contents fw filename))))"

definition kernel_path :: string where
  "kernel_path = BACKSLASH # ''kernel'' @ BACKSLASH # ''vmlinuz''"

definition initramfs_path :: string where
  "initramfs_path = BACKSLASH # ''kernel'' @ BACKSLASH # ''initramfs.cpio.gz''"

text \<open>
  What \<open>efi_main\<close> ends with: an error status, or the jump to the entry point of the loaded image
  with the fingerprint as its argument, the initramfs being whatever was loaded.
\<close>

datatype boot_outcome =
    Boot_error efi_status
  | Boot_jump (bj_image: "u8 list") (bj_entry: nat) (bj_fingerprint: "u8 list")
      (bj_initramfs: "u8 list option")

definition efi_main :: "firmware \<Rightarrow> sha256_ctx_t \<Rightarrow> sha256_ctx_t \<Rightarrow> boot_outcome" where
  "efi_main fw ctx1 ctx2 =
     (if fw_protocol fw \<noteq> EFI_SUCCESS then Boot_error (fw_protocol fw)
      else
        (let fp = snd (generate_hardware_fingerprint ctx1 32 []) in
         case load_kernel_file fw kernel_path of
           (st, None) \<Rightarrow> Boot_error st
         | (st, Some img) \<Rightarrow>
             (let header = header_of img in
              if sh_magic header \<noteq> SERVECOSYS_MAGIC then Boot_error EFI_SECURITY_VIOLATION
              else if \<not> verify_signature ctx2 img (sh_signature header)
                   then Boot_error EFI_SECURITY_VIOLATION
              else Boot_jump img (unat (sh_kernel_entry header)) fp
                     (snd (load_kernel_file fw initramfs_path)))))"

section \<open>The arithmetic of a zero modulus\<close>

lemma odd_power_one: "odd (a :: nat) \<Longrightarrow> a ^ (2 ^ k) mod 2 ^ Suc k = 1"
proof (induction k)
  case 0
  then show ?case by (simp add: odd_iff_mod_2_eq_one)
next
  case (Suc k)
  let ?P = "2 ^ Suc k :: nat"
  have "a ^ 2 ^ k = a ^ 2 ^ k div ?P * ?P + a ^ 2 ^ k mod ?P" by (rule div_mult_mod_eq [symmetric])
  also have "a ^ 2 ^ k mod ?P = 1" by (rule Suc.IH [OF Suc.prems])
  finally obtain t where t: "a ^ 2 ^ k = t * ?P + 1" by blast
  have "a ^ 2 ^ Suc k = (t * ?P + 1) * (t * ?P + 1)"
    unfolding t [symmetric] by (simp add: power_add mult_2 flip: power_add)
  also have "\<dots> = 1 + 2 ^ Suc (Suc k) * (t + t * t * 2 ^ k)" by (simp add: algebra_simps)
  finally have "a ^ 2 ^ Suc k mod 2 ^ Suc (Suc k) = 1 mod 2 ^ Suc (Suc k)" by (simp only: mod_mult_self2)
  then show ?case by simp
qed

lemma odd_root_exists:
  assumes "odd (a :: nat)" "odd e" "a < 2 ^ Suc k"
  shows "\<exists>s. s < 2 ^ Suc k \<and> s ^ e mod 2 ^ Suc k = a"
proof -
  have "coprime e (2 ^ k)" using assms(2) by simp
  moreover have "e \<noteq> 0" using assms(2) by (rule odd_pos [THEN gr_implies_not0])
  ultimately obtain d j where d: "e * d = 2 ^ k * j + 1"
    using bezout_nat [of e "2 ^ k"] by (metis coprime_imp_gcd_eq_1)
  have "(a ^ d) ^ e mod 2 ^ Suc k = a ^ (2 ^ k * j + 1) mod 2 ^ Suc k"
    unfolding power_mult [symmetric] mult.commute [of d e] d ..
  also have "\<dots> = (a ^ 2 ^ k mod 2 ^ Suc k) ^ j * a mod 2 ^ Suc k"
    by (simp only: power_add power_mult power_one_right) (metis mod_mult_left_eq power_mod)
  also have "\<dots> = a" unfolding odd_power_one [OF assms(1)] using assms(3) by simp
  finally have "(a ^ d mod 2 ^ Suc k) ^ e mod 2 ^ Suc k = a" by (simp only: power_mod)
  then show ?thesis by (intro exI [of _ "a ^ d mod 2 ^ Suc k"]) simp
qed


section \<open>Properties\<close>

lemma length_emsa: "length digest = 32 \<Longrightarrow> length (emsa_pkcs1 digest) = 256"
  by (simp add: emsa_pkcs1_def)

lemma boot_pubkey_check:
  assumes "length digest = 32" "length signature = 256"
  shows "rsa2048_verify boot_pubkey digest 32 signature \<longleftrightarrow>
           i2osp 256 (os2ip signature ^ 65537 mod 256 ^ 256) = emsa_pkcs1 digest"
proof -
  have z: "os2ip (replicate n 0) = 0" for n by (induction n) (simp_all add: os2ip_def)
  then have m: "rsa_modulus (rk_modulus boot_pubkey) = 256 ^ 256"
    unfolding rsa_modulus_def boot_pubkey_def by simp
  have k: "rk_modulus_size boot_pubkey = 256" "rk_exponent boot_pubkey = 0x10001"
      "length (rk_modulus boot_pubkey) = 256" by (simp_all add: boot_pubkey_def)
  have "check_em (i2osp 256 (os2ip signature ^ 65537 mod 256 ^ 256)) digest 32 \<longleftrightarrow>
      i2osp 256 (os2ip signature ^ 65537 mod 256 ^ 256) = emsa_pkcs1 digest"
    by (rule check_em_iff) (simp_all add: assms(1))
  then show ?thesis
    unfolding rsa2048_verify_def Let_def k rsa_em_value [OF k(3) assms(2)] m by simp
qed

text \<open>
  Claim C7.  The gate of the loader.  When the firmware answers and the kernel file has at least the
  size of a header, the loader jumps exactly when the magic is right and the signature field passes
  the RSA check of the digest of the whole file (the signature field included) under the compiled-in
  key; in every other case it stops with a security violation.  The initramfs plays no part in it.
\<close>

theorem bootloader_gate:
  assumes "fw_protocol fw = EFI_SUCCESS" "load_kernel_file fw kernel_path = (EFI_SUCCESS, Some img)"
    and "length (sc_buffer ctx1) = 64" "length (sc_buffer ctx2) = 64" "320 \<le> length img"
  shows "efi_main fw ctx1 ctx2 =
           (if sh_magic (header_of img) = SERVECOSYS_MAGIC \<and>
               i2osp 256 (os2ip (sh_signature (header_of img)) ^ 65537 mod 256 ^ 256) =
                 emsa_pkcs1 (sha256_spec img)
            then Boot_jump img (unat (sh_kernel_entry (header_of img)))
                   (snd (generate_hardware_fingerprint ctx1 32 []))
                   (snd (load_kernel_file fw initramfs_path))
            else Boot_error EFI_SECURITY_VIOLATION)"
proof -
  have "length (sh_signature (header_of img)) = 256" using assms(5) by (simp add: header_of_def)
  then have "verify_signature ctx2 img (sh_signature (header_of img)) \<longleftrightarrow>
      i2osp 256 (os2ip (sh_signature (header_of img)) ^ 65537 mod 256 ^ 256) =
        emsa_pkcs1 (sha256_spec img)"
    unfolding verify_signature_def Let_def boot_hash.digest_one [OF assms(4)]
    by (intro boot_pubkey_check length_sha256_spec)
  then show ?thesis unfolding efi_main_def assms(1,2) by (simp add: Let_def)
qed

definition demo_image :: "u8 list" where
  "demo_image = [0x56, 0x52, 0x45, 0x53] @ replicate 316 0"

definition demo_fw :: firmware where
  "demo_fw = \<lparr>fw_protocol = EFI_SUCCESS, fw_open = (\<lambda>_. EFI_SUCCESS), fw_alloc = (\<lambda>_. EFI_SUCCESS),
     fw_read = (\<lambda>_. EFI_SUCCESS), fw_contents = (\<lambda>_. demo_image)\<rparr>"

theorem bootloader_gate_witness:
  "sh_magic (header_of demo_image) = SERVECOSYS_MAGIC \<and>
   efi_main demo_fw demo_ctx demo_ctx = Boot_error EFI_SECURITY_VIOLATION"
proof
  show "sh_magic (header_of demo_image) = SERVECOSYS_MAGIC"
    by (simp add: header_of_def demo_image_def le_bytes_def SERVECOSYS_MAGIC_def)
  have load: "load_kernel_file demo_fw kernel_path = (EFI_SUCCESS, Some demo_image)"
    by (simp add: load_kernel_file_def demo_fw_def)
  have fw: "fw_protocol demo_fw = EFI_SUCCESS" by (simp add: demo_fw_def)
  have z: "os2ip (replicate n 0) = 0" for n by (induction n) (simp_all add: os2ip_def)
  have sig: "sh_signature (header_of demo_image) = replicate 256 0"
    by (simp add: header_of_def demo_image_def)
  have "i2osp 256 0 ! 1 \<noteq> emsa_pkcs1 d ! 1" for d by (simp add: i2osp_def emsa_pkcs1_def)
  then have no: "i2osp 256 0 \<noteq> emsa_pkcs1 d" for d by metis
  have len: "320 \<le> length demo_image" by (simp add: demo_image_def)
  show "efi_main demo_fw demo_ctx demo_ctx = Boot_error EFI_SECURITY_VIOLATION"
    using bootloader_gate [OF fw load demo_ctx_buffer demo_ctx_buffer len] no
    unfolding sig z by simp
qed

text \<open>
  Claim C14.  The compiled-in key is no key.  For every digest that ends in an odd byte there is a
  256-byte signature the loader's check accepts: modulo a power of two every odd number has a root
  for the odd public exponent, and no secret is needed to find it.
\<close>

theorem zero_key_forgeable:
  assumes "length digest = 32" "odd (unat (last digest))"
  shows "\<exists>signature. length signature = 256 \<and> rsa2048_verify boot_pubkey digest 32 signature"
proof -
  let ?em = "emsa_pkcs1 digest"
  have lem: "length ?em = 256" using assms(1) by (rule length_emsa)
  have "?em = butlast ?em @ [last digest]"
    using assms(1) by (cases digest rule: rev_cases) (simp_all add: emsa_pkcs1_def butlast_append)
  then have "os2ip ?em = 256 * os2ip (butlast ?em) + unat (last digest)"
    by (metis os2ip_snoc)
  then have odd: "odd (os2ip ?em)" using assms(2) by simp
  have pow: "(256 :: nat) ^ 256 = 2 ^ Suc 2047"
  proof -
    have "(256 :: nat) ^ 256 = (2 ^ 8) ^ 256" by simp
    also have "\<dots> = 2 ^ (8 * 256)" unfolding power_mult ..
    finally show ?thesis by (simp only: mult_numeral_1_right arith_simps Suc_numeral)
  qed
  have "os2ip ?em < 2 ^ Suc 2047" using os2ip_less [of ?em] unfolding lem pow .
  from odd_root_exists [OF odd _ this, of 65537] obtain s where
    s: "s < 2 ^ Suc 2047" "s ^ 65537 mod 2 ^ Suc 2047 = os2ip ?em" by auto
  have v: "os2ip (i2osp 256 s) = s" unfolding os2ip_i2osp pow using s(1) by (rule mod_less)
  have "i2osp 256 (os2ip (i2osp 256 s) ^ 65537 mod 256 ^ 256) = ?em"
    unfolding v pow s(2) using i2osp_os2ip [of ?em] lem by simp
  then have "rsa2048_verify boot_pubkey digest 32 (i2osp 256 s)"
    using boot_pubkey_check [OF assms(1), of "i2osp 256 s"] by simp
  then show ?thesis by (intro exI [of _ "i2osp 256 s"]) simp
qed

theorem zero_key_forgeable_witness:
  "\<exists>signature. length signature = 256 \<and> rsa2048_verify boot_pubkey (replicate 32 1) 32 signature"
  by (rule zero_key_forgeable) simp_all

text \<open>
  The hardware fingerprint does not depend on the hardware: on every machine and with
  every context it is the digest of the same 266 bytes.
\<close>

theorem hardware_fingerprint_constant:
  assumes "length (sc_buffer ctx) = 64"
  shows "generate_hardware_fingerprint ctx 32 out =
           (EFI_SUCCESS, sha256_spec (map (\<lambda>c. of_nat (of_char c)) ''ServEcosys'' @
              map (\<lambda>i. of_nat (i * 31 + 17)) [0..<256]))"
  using boot_hash.digest_of_chunks [OF assms, of "[map (\<lambda>c. of_nat (of_char c)) ''ServEcosys'',
      map (\<lambda>i. of_nat (i * 31 + 17)) [0..<256]]"]
  by (simp add: generate_hardware_fingerprint_def Let_def del: upt_conv_Cons upt_rec_numeral)

theorem hardware_fingerprint_constant_witness:
  "generate_hardware_fingerprint demo_ctx 32 [] =
   generate_hardware_fingerprint (demo_ctx\<lparr>sc_offset := 3\<rparr>) 32 [1]"
  using hardware_fingerprint_constant [OF demo_ctx_buffer, of "[]"]
    hardware_fingerprint_constant [of "demo_ctx\<lparr>sc_offset := 3\<rparr>" "[1]"] demo_ctx_buffer
  by (simp del: upt_conv_Cons upt_rec_numeral)

end
