(* ===== verification/Fresh_Ids.thy ===== *)
theory Fresh_Ids
  imports Prelude
begin

text \<open>
  The contract of a table whose entries get ascending identifiers from a counter: the IPC bus
  sessions, the compositor's windows and the shell's notifications.  One law describes every event:
  it either drops some entries, or drops some and appends one entry with the counter's value.
\<close>

lemma subseq_sorted: "subseq ys xs \<Longrightarrow> sorted_wrt (<) xs \<Longrightarrow> sorted_wrt (<) (ys :: int list)"
  by (induction rule: list_emb.induct) (auto dest: subseq_set)

locale fresh_ids =
  fixes step :: "'ev \<Rightarrow> 's \<Rightarrow> 's"
    and ids :: "'s \<Rightarrow> int list"
    and next_id :: "'s \<Rightarrow> int"
    and cap :: nat
  assumes event_law:
    "length (ids s) \<le> cap \<Longrightarrow>
     (next_id (step ev s) = next_id s \<and> subseq (ids (step ev s)) (ids s)) \<or>
     (next_id (step ev s) = next_id s + 1 \<and> length (ids (step ev s)) \<le> cap \<and>
      (\<exists>kept. subseq kept (ids s) \<and> ids (step ev s) = kept @ [next_id s]))"
begin

definition ids_ok :: "'s \<Rightarrow> bool" where
  "ids_ok s \<longleftrightarrow> sorted_wrt (<) (ids s) \<and> (\<forall>k \<in> set (ids s). k < next_id s) \<and> length (ids s) \<le> cap"

lemma ids_ok_step:
  assumes "ids_ok s"
  shows "ids_ok (step ev s)"
proof -
  have len: "length (ids s) \<le> cap" using assms by (simp add: ids_ok_def)
  from event_law [OF len, of ev] show ?thesis
  proof (elim disjE conjE exE)
    assume e: "next_id (step ev s) = next_id s" "subseq (ids (step ev s)) (ids s)"
    have "length (ids (step ev s)) \<le> length (ids s)" using e(2) by (rule list_emb_length)
    with assms e subseq_sorted [OF e(2)] subseq_set [OF e(2)] show ?thesis
      unfolding ids_ok_def by auto
  next
    fix kept
    assume e: "next_id (step ev s) = next_id s + 1" "length (ids (step ev s)) \<le> cap"
      "subseq kept (ids s)" "ids (step ev s) = kept @ [next_id s]"
    have lt: "\<forall>k \<in> set kept. k < next_id s" using assms subseq_set [OF e(3)] by (auto simp: ids_ok_def)
    then have "\<forall>k \<in> set kept. k < next_id s + 1" by auto
    with assms e lt subseq_sorted [OF e(3)] show ?thesis
      unfolding ids_ok_def by (auto simp: sorted_wrt_append)
  qed
qed

lemma ids_ok_run: "ids_ok s \<Longrightarrow> ids_ok (fold step evs s)"
  by (induction evs arbitrary: s) (auto intro: ids_ok_step)

lemma next_mono: "ids_ok s \<Longrightarrow> next_id s \<le> next_id (step ev s)"
  using event_law [of s ev] by (auto simp: ids_ok_def)

text \<open>An identifier below the counter that is not in the table never comes back.\<close>

lemma gone_step:
  "ids_ok s \<Longrightarrow> k < next_id s \<Longrightarrow> k \<notin> set (ids s) \<Longrightarrow>
   k < next_id (step ev s) \<and> k \<notin> set (ids (step ev s))"
proof -
  assume s: "ids_ok s" "k < next_id s" "k \<notin> set (ids s)"
  then have "length (ids s) \<le> cap" by (simp add: ids_ok_def)
  from event_law [OF this, of ev] show ?thesis
  proof (elim disjE conjE exE)
    fix kept
    assume "next_id (step ev s) = next_id s + 1" "subseq kept (ids s)" "ids (step ev s) = kept @ [next_id s]"
    with s subseq_set [of kept "ids s"] show ?thesis by auto
  qed (use s subseq_set [of "ids (step ev s)" "ids s"] in auto)
qed

lemma gone_run:
  "ids_ok s \<Longrightarrow> k < next_id s \<Longrightarrow> k \<notin> set (ids s) \<Longrightarrow> k \<notin> set (ids (fold step evs s))"
proof (induction evs arbitrary: s)
  case (Cons ev evs)
  with gone_step [OF Cons.prems, of ev] ids_ok_step [OF Cons.prems(1), of ev] show ?case by simp
qed simp

lemma unique_ids: "ids_ok s \<Longrightarrow> distinct (ids (fold step evs s)) \<and> length (ids (fold step evs s)) \<le> cap"
  using ids_ok_run [of s evs] by (auto simp: ids_ok_def strict_sorted_iff)

end

end
