(* ===== verification/Ipc_Bus.thy ===== *)
theory Ipc_Bus
  imports Fresh_Ids
begin

text \<open>
  The inter-domain bus \<open>backend/sub_kernel/ipc_bus.c\<close>: sessions, routing and one turn of its main
  loop.  Only one thread runs, so the mutex is not modelled; audit lines are kept without time
  stamps, and the clock is an argument.
\<close>

section \<open>Data\<close>

definition MAX_SESSIONS :: nat where "MAX_SESSIONS = 128"

datatype ipc_msg_type_t =
    IPC_MSG_PERM_CHECK | IPC_MSG_PERM_GRANT | IPC_MSG_PERM_DENY | IPC_MSG_DEVICE_CLAIM
  | IPC_MSG_DEVICE_RELEASE | IPC_MSG_APP_LAUNCH | IPC_MSG_APP_TERMINATE | IPC_MSG_NOTIFICATION
  | IPC_MSG_OIPES_REQUEST | IPC_MSG_OIPES_RESPONSE | IPC_MSG_HEARTBEAT

definition ipc_msg_types :: "ipc_msg_type_t list" where
  "ipc_msg_types =
     [IPC_MSG_PERM_CHECK, IPC_MSG_PERM_GRANT, IPC_MSG_PERM_DENY, IPC_MSG_DEVICE_CLAIM,
      IPC_MSG_DEVICE_RELEASE, IPC_MSG_APP_LAUNCH, IPC_MSG_APP_TERMINATE, IPC_MSG_NOTIFICATION,
      IPC_MSG_OIPES_REQUEST, IPC_MSG_OIPES_RESPONSE, IPC_MSG_HEARTBEAT]"

text \<open>The type field is the raw number of the wire.\<close>

definition msg_code :: "ipc_msg_type_t \<Rightarrow> int" where
  "msg_code ty = int (the (index_of (\<lambda>t. t = ty) ipc_msg_types))"

record ipc_message_t =
  im_type :: int
  im_session_id :: int
  im_request_id :: int
  im_sender_pid :: pid_t
  im_target_pid :: pid_t
  im_sender_ctx :: string
  im_target_ctx :: string
  im_perm_level :: int
  im_capability_token :: "u8 list"
  im_payload_size :: nat
  im_payload :: string

record ipc_session_t =
  se_session_id :: int
  se_sed_pid :: pid_t
  se_uid_pid :: pid_t
  se_sed_ctx :: string
  se_uid_ctx :: string
  se_created_at :: int
  se_active :: int

record ipc_bus_t =
  bus_sessions :: "ipc_session_t list"
  bus_next_session_id :: int
  bus_audit :: "string list"

definition ipc_bus_init :: ipc_bus_t where
  "ipc_bus_init = \<lparr>bus_sessions = [], bus_next_session_id = 1, bus_audit = []\<rparr>"

section \<open>Operations\<close>

definition audit_log :: "string \<Rightarrow> ipc_bus_t \<Rightarrow> ipc_bus_t" where
  "audit_log line b = b\<lparr>bus_audit := bus_audit b @ [line]\<rparr>"

definition create_session :: "int \<Rightarrow> pid_t \<Rightarrow> pid_t \<Rightarrow> ipc_bus_t \<Rightarrow> int \<times> ipc_bus_t" where
  "create_session now sed_pid uid_pid b =
     (if length (bus_sessions b) \<ge> MAX_SESSIONS then (-1, b)
      else
        (let sid = bus_next_session_id b;
             s = \<lparr>se_session_id = sid, se_sed_pid = sed_pid, se_uid_pid = uid_pid,
                  se_sed_ctx = fit 64 ''u:r:sys_dom_t:s0'', se_uid_ctx = fit 64 ''u:r:uid_dom_t:s0'',
                  se_created_at = now, se_active = 1\<rparr>
         in (sid, audit_log (''IPC session created: #'' @ dec sid @ '' (SED:'' @ dec sed_pid @
                    '' <-> UID:'' @ dec uid_pid @ '')'')
                  (b\<lparr>bus_sessions := bus_sessions b @ [s], bus_next_session_id := sid + 1\<rparr>))))"

definition close_session :: "int \<Rightarrow> ipc_bus_t \<Rightarrow> ipc_bus_t" where
  "close_session session_id b =
     (case index_of (\<lambda>s. se_session_id s = session_id) (bus_sessions b) of
        None \<Rightarrow> b
      | Some i \<Rightarrow> audit_log (''IPC session closed: #'' @ dec session_id)
                   (b\<lparr>bus_sessions := (bus_sessions b)[i := (bus_sessions b ! i)\<lparr>se_active := 0\<rparr>]\<rparr>))"

definition zero_message :: ipc_message_t where
  "zero_message =
     \<lparr>im_type = 0, im_session_id = 0, im_request_id = 0, im_sender_pid = 0, im_target_pid = 0,
      im_sender_ctx = [], im_target_ctx = [], im_perm_level = 0,
      im_capability_token = replicate 32 0, im_payload_size = 0, im_payload = []\<rparr>"

definition route_message :: "ipc_message_t \<Rightarrow> ipc_bus_t \<Rightarrow> ipc_message_t \<times> ipc_bus_t" where
  "route_message msg b =
     (let b' = audit_log (''IPC msg type='' @ dec (im_type msg) @ '' session='' @ dec (im_session_id msg) @
                 '' pid='' @ dec (im_sender_pid msg) @ '' -> pid='' @ dec (im_target_pid msg)) b;
          r = zero_message\<lparr>im_session_id := im_session_id msg\<rparr>
      in (if im_type msg = msg_code IPC_MSG_PERM_CHECK then
            r\<lparr>im_type := msg_code IPC_MSG_PERM_GRANT, im_request_id := im_request_id msg,
              im_perm_level := im_perm_level msg,
              im_payload := fit 65536 (''Permission level '' @ dec (im_perm_level msg) @ '' checked'')\<rparr>
          else if im_type msg = msg_code IPC_MSG_HEARTBEAT then
            r\<lparr>im_type := msg_code IPC_MSG_HEARTBEAT\<rparr>
          else
            r\<lparr>im_type := msg_code IPC_MSG_PERM_DENY, im_request_id := im_request_id msg,
              im_payload := fit 65536 (''Unknown message type: '' @ dec (im_type msg))\<rparr>,
          b'))"

text \<open>One client of the main loop; \<open>None\<close> when the read loop did not fill a message.\<close>

definition serve_message ::
  "int \<Rightarrow> ipc_message_t option \<Rightarrow> ipc_bus_t \<Rightarrow> ipc_message_t option \<times> ipc_bus_t" where
  "serve_message now got b =
     (case got of
        None \<Rightarrow> (None, b)
      | Some msg \<Rightarrow>
          (let (msg', b') =
             (if im_type msg = msg_code IPC_MSG_HEARTBEAT then
                (let (sid, b1) = create_session now (im_sender_pid msg) (im_target_pid msg) b in
                 (if sid > 0 then msg\<lparr>im_session_id := sid\<rparr> else msg, b1))
              else (msg, b));
             (resp, b'') = route_message msg' b'
           in (Some resp, b'')))"

section \<open>Sessions\<close>

definition session_ids :: "ipc_bus_t \<Rightarrow> int list" where
  "session_ids b = map se_session_id (bus_sessions b)"

lemma audit_frame [simp]:
  "bus_sessions (audit_log l b) = bus_sessions b" "bus_next_session_id (audit_log l b) = bus_next_session_id b"
  by (simp_all add: audit_log_def)

lemma route_frame [simp]:
  "bus_sessions (snd (route_message msg b)) = bus_sessions b"
  "bus_next_session_id (snd (route_message msg b)) = bus_next_session_id b"
  by (simp_all add: route_message_def Let_def)

lemma session_ids_close [simp]:
  "session_ids (close_session k b) = session_ids b"
  "bus_next_session_id (close_session k b) = bus_next_session_id b"
  by (auto simp: close_session_def session_ids_def map_update_same dest!: index_of_SomeD
      split: option.split)

datatype bus_event = Bus_serve int "ipc_message_t option" | Bus_close int

fun bus_step :: "bus_event \<Rightarrow> ipc_bus_t \<Rightarrow> ipc_bus_t" where
  "bus_step (Bus_serve now got) b = snd (serve_message now got b)"
| "bus_step (Bus_close k) b = close_session k b"

text \<open>A turn of the loop creates at most one session, for a heartbeat with room in the table.\<close>

lemma serve_sessions:
  "session_ids (snd (serve_message now got b)) =
     (if (\<exists>msg. got = Some msg \<and> im_type msg = msg_code IPC_MSG_HEARTBEAT) \<and>
         length (bus_sessions b) < MAX_SESSIONS
      then session_ids b @ [bus_next_session_id b] else session_ids b) \<and>
   bus_next_session_id (snd (serve_message now got b)) =
     (if (\<exists>msg. got = Some msg \<and> im_type msg = msg_code IPC_MSG_HEARTBEAT) \<and>
         length (bus_sessions b) < MAX_SESSIONS
      then bus_next_session_id b + 1 else bus_next_session_id b)"
  by (cases got)
    (auto simp: serve_message_def create_session_def session_ids_def Let_def case_prod_unfold)

interpretation sess: fresh_ids bus_step session_ids bus_next_session_id MAX_SESSIONS
proof
  fix b ev
  show "(bus_next_session_id (bus_step ev b) = bus_next_session_id b \<and>
           subseq (session_ids (bus_step ev b)) (session_ids b)) \<or>
        (bus_next_session_id (bus_step ev b) = bus_next_session_id b + 1 \<and>
         length (session_ids (bus_step ev b)) \<le> MAX_SESSIONS \<and>
         (\<exists>kept. subseq kept (session_ids b) \<and>
            session_ids (bus_step ev b) = kept @ [bus_next_session_id b]))"
  proof (cases ev)
    case (Bus_serve now got)
    with serve_sessions [of now got b] show ?thesis
      by (auto simp: session_ids_def intro!: exI [of _ "map se_session_id (bus_sessions b)"])
  qed simp
qed

lemma init_ok: "sess.ids_ok ipc_bus_init"
  by (simp add: sess.ids_ok_def ipc_bus_init_def session_ids_def)

section \<open>Properties\<close>

text \<open>
  Session identifiers.  Over every sequence of messages and closings the identifiers in
  the table stay pairwise different and the table never exceeds its capacity.
\<close>

lemma session_ids_unique:
  "distinct (session_ids (fold bus_step evs ipc_bus_init)) \<and>
   length (bus_sessions (fold bus_step evs ipc_bus_init)) \<le> 128"
  using sess.unique_ids [OF init_ok, of evs] by (simp add: MAX_SESSIONS_def session_ids_def)

lemma heartbeats_count:
  "length (bus_sessions b) \<le> MAX_SESSIONS \<Longrightarrow>
   (\<And>ev. ev \<in> set evs \<Longrightarrow> \<exists>now msg. ev = Bus_serve now (Some msg) \<and> im_type msg = msg_code IPC_MSG_HEARTBEAT) \<Longrightarrow>
   length (bus_sessions (fold bus_step evs b)) = min MAX_SESSIONS (length (bus_sessions b) + length evs)"
proof (induction evs arbitrary: b)
  case (Cons ev evs)
  from Cons.prems(2) [of ev] obtain now msg where
    ev: "ev = Bus_serve now (Some msg)" "im_type msg = msg_code IPC_MSG_HEARTBEAT" by auto
  have "length (session_ids (bus_step ev b)) = min MAX_SESSIONS (length (bus_sessions b) + 1)"
    using serve_sessions [of now "Some msg" b] ev Cons.prems(1) by (auto simp: session_ids_def)
  then have l: "length (bus_sessions (bus_step ev b)) = min MAX_SESSIONS (length (bus_sessions b) + 1)"
    by (simp add: session_ids_def)
  have "length (bus_sessions (fold bus_step evs (bus_step ev b))) =
      min MAX_SESSIONS (length (bus_sessions (bus_step ev b)) + length evs)"
    using l Cons.prems(2) by (intro Cons.IH) simp_all
  with l show ?case by simp
qed simp

text \<open>
  The bus runs dry.  Every heartbeat takes a table entry and none is ever given back, so
  after 128 heartbeats of whatever clients the table is full, and from then on a heartbeat is
  answered with the session number its sender claimed.
\<close>

lemma heartbeats_exhaust_sessions:
  assumes "length hbs = 128" "\<forall>m \<in> set hbs. im_type m = msg_code IPC_MSG_HEARTBEAT"
    and "im_type msg = msg_code IPC_MSG_HEARTBEAT"
  shows "length (bus_sessions (fold bus_step (map (\<lambda>m. Bus_serve now (Some m)) hbs) ipc_bus_init)) = 128 \<and>
         map_option im_session_id (fst (serve_message now (Some msg)
           (fold bus_step (map (\<lambda>m. Bus_serve now (Some m)) hbs) ipc_bus_init))) = Some (im_session_id msg)"
proof -
  let ?b = "fold bus_step (map (\<lambda>m. Bus_serve now (Some m)) hbs) ipc_bus_init"
  have "length (bus_sessions ?b) = min MAX_SESSIONS (length (bus_sessions ipc_bus_init) + length hbs)"
    using assms(2) heartbeats_count [of ipc_bus_init "map (\<lambda>m. Bus_serve now (Some m)) hbs"]
    by (auto simp: ipc_bus_init_def)
  then have full: "length (bus_sessions ?b) = 128"
    using assms(1) by (simp add: MAX_SESSIONS_def ipc_bus_init_def)
  then show ?thesis using assms(3)
    by (simp add: serve_message_def create_session_def MAX_SESSIONS_def route_message_def
        msg_code_def ipc_msg_types_def case_prod_unfold Let_def)
qed

lemma heartbeats_exhaust_sessions_witness:
  "length (bus_sessions (fold bus_step (map (\<lambda>m. Bus_serve 0 (Some m))
     (replicate 128 (zero_message\<lparr>im_type := 10\<rparr>))) ipc_bus_init)) = 128"
proof -
  have hb: "msg_code IPC_MSG_HEARTBEAT = 10" by (simp add: msg_code_def ipc_msg_types_def)
  show ?thesis
    using heartbeats_exhaust_sessions [of "replicate 128 (zero_message\<lparr>im_type := 10\<rparr>)"
        "zero_message\<lparr>im_type := 10\<rparr>" 0]
    by (simp add: hb)
qed

text \<open>
  The bus does not decide permissions: a permission check of any sender, for any level and
  any target, in any state of the bus, is answered with a grant of the level that was asked for, and
  every type but the check and the heartbeat is denied.
\<close>

lemma route_message_decisions:
  "im_type (fst (route_message msg b)) =
     (if im_type msg = msg_code IPC_MSG_PERM_CHECK then msg_code IPC_MSG_PERM_GRANT
      else if im_type msg = msg_code IPC_MSG_HEARTBEAT then msg_code IPC_MSG_HEARTBEAT
      else msg_code IPC_MSG_PERM_DENY) \<and>
   im_perm_level (fst (route_message msg b)) =
     (if im_type msg = msg_code IPC_MSG_PERM_CHECK then im_perm_level msg else 0) \<and>
   im_session_id (fst (route_message msg b)) = im_session_id msg \<and>
   bus_sessions (snd (route_message msg b)) = bus_sessions b"
  by (simp add: route_message_def Let_def zero_message_def)

end
