(* ===== verification/Compositor.thy ===== *)
theory Compositor
  imports Fresh_Ids
begin

text \<open>
  The window manager \<open>frontend/ui/compositor.c\<close>: the window table, the focus and the drawing commands
  it writes to the display server.  The socket is the list of commands written to it, and writes
  while it is not connected are refused.
\<close>

section \<open>Data\<close>

definition MAX_WINDOWS :: nat where "MAX_WINDOWS = 64"

record window_t =
  wn_id :: int
  wn_title :: string
  wn_x :: int
  wn_y :: int
  wn_width :: int
  wn_height :: int
  wn_visible :: int
  wn_has_focus :: int
  wn_app_pid :: pid_t

record compositor_t =
  cp_windows :: "window_t list"
  cp_next_window_id :: int
  cp_focus_window :: int
  cp_display :: bool
  cp_sent :: "string list"

definition compositor_init :: compositor_t where
  "compositor_init =
     \<lparr>cp_windows = [], cp_next_window_id = 0, cp_focus_window = -1, cp_display = False, cp_sent = []\<rparr>"

section \<open>Operations\<close>

definition send_display_cmd :: "string \<Rightarrow> compositor_t \<Rightarrow> int \<times> compositor_t" where
  "send_display_cmd cmd c =
     (if \<not> cp_display c then (-1, c)
      else (int (length cmd), c\<lparr>cp_sent := cp_sent c @ [cmd]\<rparr>))"

definition create_window ::
  "string \<Rightarrow> int \<Rightarrow> int \<Rightarrow> int \<Rightarrow> int \<Rightarrow> compositor_t \<Rightarrow> int \<times> compositor_t" where
  "create_window title x y w h c =
     (if length (cp_windows c) \<ge> MAX_WINDOWS then (-1, c)
      else
        (let win = \<lparr>wn_id = cp_next_window_id c, wn_title = fit 128 title, wn_x = x, wn_y = y,
                    wn_width = w, wn_height = h, wn_visible = 1, wn_has_focus = 0, wn_app_pid = 0\<rparr>
         in (wn_id win, c\<lparr>cp_windows := cp_windows c @ [win],
                          cp_next_window_id := cp_next_window_id c + 1\<rparr>)))"

definition remove_window :: "int \<Rightarrow> compositor_t \<Rightarrow> compositor_t" where
  "remove_window k c =
     (case index_of (\<lambda>w. wn_id w = k) (cp_windows c) of
        None \<Rightarrow> c
      | Some i \<Rightarrow>
          (let c1 = (if cp_focus_window c = k then c\<lparr>cp_focus_window := -1\<rparr> else c)
           in c1\<lparr>cp_windows := remove_at i (cp_windows c)\<rparr>))"

definition set_focus :: "int \<Rightarrow> compositor_t \<Rightarrow> compositor_t" where
  "set_focus k c =
     c\<lparr>cp_windows := map (\<lambda>w. w\<lparr>wn_has_focus := (if wn_id w = k then 1 else 0)\<rparr>) (cp_windows c),
       cp_focus_window := k\<rparr>"

definition fill_rect_cmd :: "int \<Rightarrow> int \<Rightarrow> int \<Rightarrow> int \<Rightarrow> nat \<Rightarrow> string" where
  "fill_rect_cmd x y w h color =
     fit 256 (''FILL_RECT '' @ dec x @ '' '' @ dec y @ '' '' @ dec w @ '' '' @ dec h @ '' '' @ hex_nat color)"

definition window_cmds :: "window_t \<Rightarrow> string list" where
  "window_cmds w =
     (let border = (if wn_has_focus w \<noteq> 0 then 0x4A90D9 else 0x404040);
          bg = (if wn_has_focus w \<noteq> 0 then 0x2A2A3E else 0x1E1E2E)
      in [fill_rect_cmd (wn_x w - 1) (wn_y w - 1) (wn_width w + 2) (wn_height w + 2) border,
          fill_rect_cmd (wn_x w) (wn_y w) (wn_width w) 24 0xCCCCCC,
          fill_rect_cmd (wn_x w) (wn_y w + 24) (wn_width w) (wn_height w - 24) bg])"

definition render_all_windows :: "compositor_t \<Rightarrow> compositor_t" where
  "render_all_windows c =
     fold (\<lambda>w s. if wn_visible w = 0 then s else fold (\<lambda>cmd s. snd (send_display_cmd cmd s)) (window_cmds w) s)
       (cp_windows c) (snd (send_display_cmd ''CLEAR 1A1A2E'' c))"

definition init_desktop :: "compositor_t \<Rightarrow> compositor_t" where
  "init_desktop c =
     (let c1 = snd (create_window ''Settings'' 50 50 400 300 c);
          c2 = snd (create_window ''File Manager'' 100 80 600 400 c1);
          c3 = snd (create_window ''Terminal'' 200 120 500 350 c2)
      in render_all_windows (set_focus 1 c3))"

text \<open>What \<open>main\<close> does before it sleeps; \<open>connected\<close> is the outcome of \<open>connect_ipc\<close>.\<close>

definition compositor_main :: "bool \<Rightarrow> compositor_t" where
  "compositor_main connected =
     (if connected then init_desktop (compositor_init\<lparr>cp_display := True\<rparr>) else compositor_init)"

section \<open>Identifiers and focus\<close>

datatype comp_event = Win_create string int int int int | Win_remove int | Win_focus int | Win_render

fun comp_step :: "comp_event \<Rightarrow> compositor_t \<Rightarrow> compositor_t" where
  "comp_step (Win_create t x y w h) c = snd (create_window t x y w h c)"
| "comp_step (Win_remove k) c = remove_window k c"
| "comp_step (Win_focus k) c = set_focus k c"
| "comp_step Win_render c = render_all_windows c"

definition window_ids :: "compositor_t \<Rightarrow> int list" where
  "window_ids c = map wn_id (cp_windows c)"

lemma send_frame [simp]:
  "cp_windows (snd (send_display_cmd cmd c)) = cp_windows c"
  "cp_next_window_id (snd (send_display_cmd cmd c)) = cp_next_window_id c"
  "cp_focus_window (snd (send_display_cmd cmd c)) = cp_focus_window c"
  "cp_display (snd (send_display_cmd cmd c)) = cp_display c"
  by (simp_all add: send_display_cmd_def)

lemma send_all_frame [simp]:
  "cp_windows (fold (\<lambda>cmd s. snd (send_display_cmd cmd s)) cmds c) = cp_windows c"
  "cp_next_window_id (fold (\<lambda>cmd s. snd (send_display_cmd cmd s)) cmds c) = cp_next_window_id c"
  "cp_focus_window (fold (\<lambda>cmd s. snd (send_display_cmd cmd s)) cmds c) = cp_focus_window c"
  "cp_display (fold (\<lambda>cmd s. snd (send_display_cmd cmd s)) cmds c) = cp_display c"
  by (induction cmds arbitrary: c) simp_all

lemma render_fold_frame:
  "cp_windows (fold (\<lambda>w s. if wn_visible w = 0 then s
       else fold (\<lambda>cmd s. snd (send_display_cmd cmd s)) (window_cmds w) s) ws c) = cp_windows c \<and>
   cp_next_window_id (fold (\<lambda>w s. if wn_visible w = 0 then s
       else fold (\<lambda>cmd s. snd (send_display_cmd cmd s)) (window_cmds w) s) ws c) = cp_next_window_id c \<and>
   cp_focus_window (fold (\<lambda>w s. if wn_visible w = 0 then s
       else fold (\<lambda>cmd s. snd (send_display_cmd cmd s)) (window_cmds w) s) ws c) = cp_focus_window c"
  by (induction ws arbitrary: c) (simp_all del: fold_simps(2) add: fold_simps(2))

lemma render_frame [simp]:
  "cp_windows (render_all_windows c) = cp_windows c"
  "cp_next_window_id (render_all_windows c) = cp_next_window_id c"
  "cp_focus_window (render_all_windows c) = cp_focus_window c"
  unfolding render_all_windows_def
  using render_fold_frame [of "cp_windows c" "snd (send_display_cmd ''CLEAR 1A1A2E'' c)"] by simp_all

lemma map_remove_at: "map f (remove_at i xs) = remove_at i (map f xs)"
  by (simp add: remove_at_def take_map drop_map)

lemma window_ids_remove:
  "subseq (window_ids (remove_window k c)) (window_ids c) \<and>
   cp_next_window_id (remove_window k c) = cp_next_window_id c"
  by (auto simp: remove_window_def window_ids_def map_remove_at subseq_remove_at Let_def
      split: option.split)

interpretation win: fresh_ids comp_step window_ids cp_next_window_id MAX_WINDOWS
proof
  fix c ev
  show "(cp_next_window_id (comp_step ev c) = cp_next_window_id c \<and>
           subseq (window_ids (comp_step ev c)) (window_ids c)) \<or>
        (cp_next_window_id (comp_step ev c) = cp_next_window_id c + 1 \<and>
         length (window_ids (comp_step ev c)) \<le> MAX_WINDOWS \<and>
         (\<exists>kept. subseq kept (window_ids c) \<and> window_ids (comp_step ev c) = kept @ [cp_next_window_id c]))"
  proof (cases ev)
    case Win_create
    then show ?thesis by (auto simp: create_window_def window_ids_def)
  next
    case (Win_remove k)
    then show ?thesis using window_ids_remove [of k c] by simp
  next
    case (Win_focus k)
    then show ?thesis by (simp add: set_focus_def window_ids_def comp_def)
  next
    case Win_render
    then show ?thesis by (simp add: window_ids_def)
  qed
qed

lemma comp_init_ok: "win.ids_ok compositor_init"
  by (simp add: win.ids_ok_def compositor_init_def window_ids_def)

text \<open>Only the window the focus points to has the focus flag.\<close>

definition focus_ok :: "compositor_t \<Rightarrow> bool" where
  "focus_ok c \<longleftrightarrow> (\<forall>w \<in> set (cp_windows c). wn_has_focus w \<noteq> 0 \<longrightarrow> wn_id w = cp_focus_window c)"

lemma focus_ok_step:
  assumes "focus_ok c" "distinct (window_ids c)"
  shows "focus_ok (comp_step ev c)"
proof (cases ev)
  case (Win_create t x y w h)
  with assms(1) show ?thesis by (auto simp: focus_ok_def create_window_def)
next
  case (Win_remove k)
  show ?thesis
  proof (cases "index_of (\<lambda>w. wn_id w = k) (cp_windows c)")
    case None
    with Win_remove assms(1) show ?thesis by (simp add: remove_window_def)
  next
    case (Some i)
    then have i: "i < length (cp_windows c)" "wn_id (cp_windows c ! i) = k"
      by (auto dest: index_of_SomeD)
    have "wn_id w \<noteq> k" if "w \<in> set (remove_at i (cp_windows c))" for w
    proof
      assume "wn_id w = k"
      then have "k \<in> set (remove_at i (window_ids c))"
        using that by (auto simp: window_ids_def simp flip: map_remove_at)
      moreover have "window_ids c = take i (window_ids c) @ k # drop (Suc i) (window_ids c)"
        using i id_take_nth_drop [of i "window_ids c"] by (simp add: window_ids_def)
      ultimately show False using assms(2) by (metis distinct.simps(2) distinct_append
            in_set_conv_decomp not_distinct_conv_prefix remove_at_def set_append UnE disjoint_iff
            list.set_intros(1))
    qed
    with Win_remove Some assms(1) set_remove_at_subset [of i "cp_windows c"] show ?thesis
      by (auto simp: remove_window_def focus_ok_def Let_def)
  qed
next
  case (Win_focus k)
  then show ?thesis by (auto simp: focus_ok_def set_focus_def)
next
  case Win_render
  with assms(1) show ?thesis by (simp add: focus_ok_def)
qed

lemma focus_ok_run:
  "focus_ok c \<Longrightarrow> win.ids_ok c \<Longrightarrow> focus_ok (fold comp_step evs c)"
proof (induction evs arbitrary: c)
  case (Cons ev evs)
  have "distinct (window_ids c)" using win.unique_ids [OF Cons.prems(2), of "[]"] by simp
  with Cons focus_ok_step win.ids_ok_step show ?case by simp
qed simp

section \<open>Drawing\<close>

lemma send_all: "cp_display c \<Longrightarrow>
    cp_sent (fold (\<lambda>cmd s. snd (send_display_cmd cmd s)) cmds c) = cp_sent c @ cmds"
  by (induction cmds arbitrary: c) (simp_all add: send_display_cmd_def)

lemma render_windows: "cp_display c \<Longrightarrow>
    cp_sent (fold (\<lambda>w s. if wn_visible w = 0 then s
       else fold (\<lambda>cmd s. snd (send_display_cmd cmd s)) (window_cmds w) s) ws c) =
    cp_sent c @ concat (map window_cmds (filter (\<lambda>w. wn_visible w \<noteq> 0) ws))"
  by (induction ws arbitrary: c) (simp_all add: send_all)

text \<open>A redraw clears the screen and then draws the visible windows in table order, back to front.\<close>

lemma render_sends:
  "cp_sent (render_all_windows c) =
     (if cp_display c
      then cp_sent c @ ''CLEAR 1A1A2E'' # concat (map window_cmds (filter (\<lambda>w. wn_visible w \<noteq> 0) (cp_windows c)))
      else cp_sent c)"
proof (cases "cp_display c")
  case True
  then show ?thesis
    using render_windows [of "snd (send_display_cmd ''CLEAR 1A1A2E'' c)" "cp_windows c"]
    by (simp add: render_all_windows_def) (simp add: send_display_cmd_def)
next
  case False
  have "\<not> cp_display c \<Longrightarrow> fold (\<lambda>cmd s. snd (send_display_cmd cmd s)) cmds c = c" for cmds
    by (induction cmds) (simp_all add: send_display_cmd_def)
  with False have "fold (\<lambda>w s. if wn_visible w = 0 then s
       else fold (\<lambda>cmd s. snd (send_display_cmd cmd s)) (window_cmds w) s) ws c = c" for ws
    by (induction ws) simp_all
  with False show ?thesis by (simp add: render_all_windows_def send_display_cmd_def)
qed

section \<open>Properties\<close>


end
