(* ===== verification/Claimable.thy ===== *)
theory Claimable
  imports Prelude
begin

text \<open>
  The contract of a device table whose entries can be claimed by one owner: the HAL manager and the
  HAL library both provide it.  \<open>holder t i\<close> is the owner of entry \<open>i\<close>, if it is claimed.
\<close>

locale claimable =
  fixes claim :: "int \<Rightarrow> string \<Rightarrow> 't \<Rightarrow> int \<times> 't"
    and holder :: "'t \<Rightarrow> int \<Rightarrow> string option"
    and kept :: "string \<Rightarrow> string"
  assumes claim_succeeds:
      "fst (claim i w t) = 0 \<Longrightarrow> holder t i = None \<and> holder (snd (claim i w t)) = (holder t)(i \<mapsto> kept w)"
    and claim_refused: "fst (claim i w t) \<noteq> 0 \<Longrightarrow> holder (snd (claim i w t)) = holder t"
begin

lemma holder_stays: "holder t i = Some w \<Longrightarrow> holder (snd (claim j v t)) i = Some w"
  using claim_succeeds [of j v t] claim_refused [of j v t] by (cases "fst (claim j v t) = 0") auto

lemma holder_run:
  "holder t i = Some w \<Longrightarrow> holder (fold (\<lambda>(j, v) t. snd (claim j v t)) cs t) i = Some w"
  by (induction cs arbitrary: t) (auto intro: holder_stays)

lemma second_claim_refused: "holder t i = Some w \<Longrightarrow> fst (claim i v t) \<noteq> 0"
  using claim_succeeds [of i v t] by auto

text \<open>Whoever claims first keeps the entry against all later claims.\<close>

lemma first_claim_wins:
  assumes "fst (claim i w t) = 0"
  shows "holder (fold (\<lambda>(j, v) t. snd (claim j v t)) cs (snd (claim i w t))) i = Some (kept w) \<and>
         fst (claim i v (fold (\<lambda>(j, v) t. snd (claim j v t)) cs (snd (claim i w t)))) \<noteq> 0"
proof -
  have "holder (snd (claim i w t)) i = Some (kept w)" using claim_succeeds [OF assms] by simp
  from holder_run [OF this] second_claim_refused show ?thesis by blast
qed

end

end
