(* ===== verification/Hal.thy ===== *)
theory Hal
  imports Claimable
begin

text \<open>
  Hardware discovery and claiming: the daemon \<open>backend/sub_kernel/hal_manager.c\<close> and the library
  \<open>backend/deps/hal/hal.c\<close>.  The sysfs tree is a parameter: the lines of a \<open>uevent\<close> file, the
  target of a symbolic link and the entries of a directory, each \<open>None\<close> when the call fails.
\<close>

section \<open>The file system\<close>

record sysfs =
  sf_uevent :: "string \<Rightarrow> string list option"
  sf_readlink :: "string \<Rightarrow> string option"
  sf_readdir :: "string \<Rightarrow> string list option"

definition PATH_MAX :: nat where "PATH_MAX = 4096"

section \<open>The HAL manager\<close>

datatype device_class_t =
    DEVICE_STORAGE | DEVICE_NETWORK | DEVICE_INPUT | DEVICE_DISPLAY | DEVICE_AUDIO
  | DEVICE_USB | DEVICE_PCI | DEVICE_UNKNOWN

record hm_device_t =
  hm_devpath :: string
  hm_driver :: string
  hm_class :: device_class_t
  hm_major :: int
  hm_minor :: int
  hm_claimed :: int
  hm_owner :: string

definition MAX_DEVICES :: nat where "MAX_DEVICES = 256"

fun device_class_name :: "device_class_t \<Rightarrow> string" where
  "device_class_name DEVICE_STORAGE = ''storage''"
| "device_class_name DEVICE_NETWORK = ''network''"
| "device_class_name DEVICE_INPUT = ''input''"
| "device_class_name DEVICE_DISPLAY = ''display''"
| "device_class_name DEVICE_AUDIO = ''audio''"
| "device_class_name DEVICE_USB = ''usb''"
| "device_class_name DEVICE_PCI = ''pci''"
| "device_class_name DEVICE_UNKNOWN = ''unknown''"

definition classify_device :: "string \<Rightarrow> string option \<Rightarrow> device_class_t" where
  "classify_device devpath subsystem =
     (case subsystem of
        None \<Rightarrow> DEVICE_UNKNOWN
      | Some s \<Rightarrow>
          if s = ''block'' then DEVICE_STORAGE else if s = ''net'' then DEVICE_NETWORK
          else if s = ''input'' then DEVICE_INPUT else if s = ''drm'' then DEVICE_DISPLAY
          else if s = ''sound'' then DEVICE_AUDIO else if s = ''usb'' then DEVICE_USB
          else if s = ''pci'' then DEVICE_PCI else DEVICE_UNKNOWN)"

text \<open>One line of the \<open>uevent\<close> loop: the major and minor numbers and the device path.\<close>

definition uevent_line :: "string \<Rightarrow> int \<times> int \<times> string \<Rightarrow> int \<times> int \<times> string" where
  "uevent_line line = (\<lambda>(major, minor, devpath).
     (case (if prefix ''MAJOR='' line then scan_d (drop 6 line) else None) of
        Some v \<Rightarrow> (v, minor, devpath)
      | None \<Rightarrow>
          (case (if prefix ''MINOR='' line then scan_d (drop 6 line) else None) of
             Some v \<Rightarrow> (major, v, devpath)
           | None \<Rightarrow>
               if prefix ''DEVNAME='' line
               then (major, minor, fit PATH_MAX (''/dev/'' @ drop 8 line))
               else (major, minor, devpath))))"

definition find_subsystem :: "sysfs \<Rightarrow> string \<Rightarrow> string" where
  "find_subsystem sys sysfs_path =
     (let path = fit 64 (sysfs_path @ ''/subsystem'') in
      case sf_readlink sys path of
        Some (c # cs) \<Rightarrow>
          (case strrchr (fit PATH_MAX (c # cs)) (CHR ''/'') of
             Some s \<Rightarrow> fit 64 (drop 1 s)
           | None \<Rightarrow> path)
      | _ \<Rightarrow> ''unknown'')"

definition scan_device :: "sysfs \<Rightarrow> string \<Rightarrow> hm_device_t list \<Rightarrow> int \<times> hm_device_t list" where
  "scan_device sys sysfs_path tab =
     (case sf_uevent sys (fit PATH_MAX (sysfs_path @ ''/uevent'')) of
        None \<Rightarrow> (-1, tab)
      | Some lines \<Rightarrow>
          (let (major, minor, dp) = fold uevent_line lines (0, 0, []);
               devpath = (if dp = [] then fit PATH_MAX sysfs_path else dp);
               subsystem = find_subsystem sys sysfs_path
           in if length tab \<ge> MAX_DEVICES then (-1, tab)
              else (0, tab @
                [\<lparr>hm_devpath = fit PATH_MAX devpath, hm_driver = fit 64 subsystem,
                  hm_class = classify_device devpath (Some subsystem), hm_major = major,
                  hm_minor = minor, hm_claimed = 0, hm_owner = ''unclaimed''\<rparr>])))"

definition sysfs_classes :: "string list" where
  "sysfs_classes =
     [''/sys/class/block'', ''/sys/class/net'', ''/sys/class/input'', ''/sys/class/drm'',
      ''/sys/class/sound'', ''/sys/class/usb_device'', ''/sys/class/tty'']"

definition scan_all_devices :: "sysfs \<Rightarrow> hm_device_t list" where
  "scan_all_devices sys =
     fold (\<lambda>cls tab.
        case sf_readdir sys cls of
          None \<Rightarrow> tab
        | Some names \<Rightarrow>
            fold (\<lambda>name tab. if prefix ''.'' name then tab
                    else snd (scan_device sys (fit PATH_MAX (cls @ ''/'' @ name)) tab)) names tab)
       sysfs_classes []"

definition claim_device :: "int \<Rightarrow> string \<Rightarrow> hm_device_t list \<Rightarrow> int \<times> hm_device_t list" where
  "claim_device index owner_context tab =
     (if index < 0 \<or> index \<ge> int (length tab) then (-1, tab)
      else
        (let i = nat index in
         if hm_claimed (tab ! i) \<noteq> 0 then (-1, tab)
         else (0, tab[i := (tab ! i)\<lparr>hm_claimed := 1, hm_owner := fit 64 owner_context\<rparr>])))"

definition print_device_table :: "hm_device_t list \<Rightarrow> string list" where
  "print_device_table tab =
     [''[HAL] Device Table:'',
      ''  '' @ padr 4 ''Idx'' @ '' '' @ padr 30 ''DevPath'' @ '' '' @ padr 12 ''Driver'' @ '' '' @
      padr 10 ''Class'' @ '' '' @ padr 8 ''Claimed'' @ '' Owner''] @
     map (\<lambda>i. let dev = tab ! i in
        ''  '' @ padr 4 (dec (int i)) @ '' '' @ padr 30 (hm_devpath dev) @ '' '' @
        padr 12 (hm_driver dev) @ '' '' @ padr 10 (device_class_name (hm_class dev)) @ '' '' @
        padr 8 (if hm_claimed dev \<noteq> 0 then ''yes'' else ''no'') @ '' '' @
        (if hm_claimed dev \<noteq> 0 then hm_owner dev else ''-'')) [0..<length tab] @
     [''  Total: '' @ dec (int (length tab)) @ '' devices'']"

section \<open>The HAL library\<close>

datatype hal_dev_class_t =
    HAL_STORAGE | HAL_NETWORK | HAL_INPUT | HAL_DISPLAY | HAL_AUDIO | HAL_USB | HAL_PCI | HAL_UNKNOWN

record hal_device_t =
  hl_devpath :: string
  hl_name :: string
  hl_driver :: string
  hl_class :: hal_dev_class_t
  hl_major :: int
  hl_minor :: int
  hl_claimed :: int
  hl_owner :: string

definition HAL_MAX_DEVICES :: nat where "HAL_MAX_DEVICES = 256"

type_synonym hal_devtable_t = "hal_device_t list"

fun hal_class_name :: "hal_dev_class_t \<Rightarrow> string" where
  "hal_class_name HAL_STORAGE = ''storage''"
| "hal_class_name HAL_NETWORK = ''network''"
| "hal_class_name HAL_INPUT = ''input''"
| "hal_class_name HAL_DISPLAY = ''display''"
| "hal_class_name HAL_AUDIO = ''audio''"
| "hal_class_name HAL_USB = ''usb''"
| "hal_class_name HAL_PCI = ''pci''"
| "hal_class_name HAL_UNKNOWN = ''unknown''"

definition hal_classify :: "string option \<Rightarrow> hal_dev_class_t" where
  "hal_classify subsystem =
     (case subsystem of
        None \<Rightarrow> HAL_UNKNOWN
      | Some s \<Rightarrow>
          if s = ''block'' then HAL_STORAGE else if s = ''net'' then HAL_NETWORK
          else if s = ''input'' then HAL_INPUT else if s = ''drm'' then HAL_DISPLAY
          else if s = ''sound'' then HAL_AUDIO else if s = ''usb'' then HAL_USB
          else if s = ''pci'' then HAL_PCI else HAL_UNKNOWN)"

definition sysfs_entry :: "sysfs \<Rightarrow> string \<Rightarrow> string \<Rightarrow> hal_device_t" where
  "sysfs_entry sys sysfs_path name =
     (let dev_path = fit PATH_MAX (sysfs_path @ ''/'' @ name);
          subsystem =
            (case sf_readlink sys dev_path of
               Some (c # cs) \<Rightarrow>
                 (case strrchr (fit PATH_MAX (c # cs)) (CHR ''/'') of
                    Some s \<Rightarrow> fit 64 (drop 1 s)
                  | None \<Rightarrow> ''unknown'')
             | _ \<Rightarrow> ''unknown'')
      in \<lparr>hl_devpath = fit PATH_MAX dev_path, hl_name = fit 64 name, hl_driver = fit 64 subsystem,
          hl_class = hal_classify (Some subsystem), hl_major = 0, hl_minor = 0, hl_claimed = 0,
          hl_owner = []\<rparr>)"

fun scan_entries :: "sysfs \<Rightarrow> string \<Rightarrow> string list \<Rightarrow> hal_devtable_t \<Rightarrow> hal_devtable_t" where
  "scan_entries sys path [] tab = tab"
| "scan_entries sys path (name # names) tab =
     (if length tab < HAL_MAX_DEVICES then
        scan_entries sys path names
          (if prefix ''.'' name then tab else tab @ [sysfs_entry sys path name])
      else tab)"

definition scan_sysfs_dir :: "sysfs \<Rightarrow> string \<Rightarrow> hal_devtable_t \<Rightarrow> int \<times> hal_devtable_t" where
  "scan_sysfs_dir sys path tab =
     (case sf_readdir sys path of None \<Rightarrow> (-1, tab) | Some names \<Rightarrow> (0, scan_entries sys path names tab))"

definition hal_scan_all :: "sysfs \<Rightarrow> int \<times> hal_devtable_t" where
  "hal_scan_all sys =
     (let tab = fold (\<lambda>path tab. snd (scan_sysfs_dir sys path tab)) sysfs_classes []
      in (int (length tab), tab))"

definition hal_scan_class :: "sysfs \<Rightarrow> hal_dev_class_t \<Rightarrow> int \<times> hal_devtable_t" where
  "hal_scan_class sys cls =
     (case cls of
        HAL_STORAGE \<Rightarrow> scan_sysfs_dir sys ''/sys/class/block'' []
      | HAL_NETWORK \<Rightarrow> scan_sysfs_dir sys ''/sys/class/net'' []
      | HAL_INPUT \<Rightarrow> scan_sysfs_dir sys ''/sys/class/input'' []
      | HAL_DISPLAY \<Rightarrow> scan_sysfs_dir sys ''/sys/class/drm'' []
      | HAL_AUDIO \<Rightarrow> scan_sysfs_dir sys ''/sys/class/sound'' []
      | HAL_PCI \<Rightarrow> scan_sysfs_dir sys ''/sys/class/pci'' []
      | _ \<Rightarrow> (-1, []))"

definition hal_claim :: "int \<Rightarrow> string option \<Rightarrow> hal_devtable_t \<Rightarrow> int \<times> hal_devtable_t" where
  "hal_claim index owner tab =
     (if index < 0 \<or> index \<ge> int (length tab) then (-1, tab)
      else
        (let i = nat index in
         if hl_claimed (tab ! i) \<noteq> 0 then (-1, tab)
         else (0, tab[i := (tab ! i)\<lparr>hl_claimed := 1,
                hl_owner := fit 64 (case owner of Some w \<Rightarrow> w | None \<Rightarrow> ''unknown'')\<rparr>])))"

definition hal_release :: "int \<Rightarrow> hal_devtable_t \<Rightarrow> int \<times> hal_devtable_t" where
  "hal_release index tab =
     (if index < 0 \<or> index \<ge> int (length tab) then (-1, tab)
      else (0, tab[nat index := (tab ! nat index)\<lparr>hl_claimed := 0, hl_owner := []\<rparr>]))"

text \<open>The loop of \<open>hal_find\<close> over the index, with the indices found so far.\<close>

function find_loop :: "hal_dev_class_t \<Rightarrow> nat \<Rightarrow> hal_devtable_t \<Rightarrow> nat \<Rightarrow> int list \<Rightarrow> int list" where
  "find_loop cls m tab i found =
     (if i < length tab \<and> length found < m then
        find_loop cls m tab (i + 1) (if hl_class (tab ! i) = cls then found @ [int i] else found)
      else found)"
  by pat_completeness auto
termination by (relation "measure (\<lambda>(cls, m, tab, i, found). length tab - i)") auto

declare find_loop.simps [simp del]

definition hal_find :: "hal_devtable_t \<Rightarrow> hal_dev_class_t \<Rightarrow> int \<Rightarrow> int \<times> int list" where
  "hal_find tab cls max' =
     (let found = find_loop cls (nat max') tab 0 [] in (int (length found), found))"

section \<open>Both tables are claimable\<close>

definition dev_holder :: "hm_device_t list \<Rightarrow> int \<Rightarrow> string option" where
  "dev_holder tab i =
     (if 0 \<le> i \<and> i < int (length tab) \<and> hm_claimed (tab ! nat i) \<noteq> 0
      then Some (hm_owner (tab ! nat i)) else None)"

definition hal_holder :: "hal_devtable_t \<Rightarrow> int \<Rightarrow> string option" where
  "hal_holder tab i =
     (if 0 \<le> i \<and> i < int (length tab) \<and> hl_claimed (tab ! nat i) \<noteq> 0
      then Some (hl_owner (tab ! nat i)) else None)"

interpretation hm: claimable claim_device dev_holder "fit 64"
  by unfold_locales (auto simp: claim_device_def dev_holder_def Let_def nth_list_update fun_eq_iff split: if_splits)

interpretation hl: claimable "\<lambda>i w. hal_claim i (Some w)" hal_holder "fit 64"
  by unfold_locales (auto simp: hal_claim_def hal_holder_def Let_def nth_list_update fun_eq_iff split: if_splits)

section \<open>Searching and scanning\<close>

lemma find_loop_correct:
  "length found \<le> m \<Longrightarrow>
   find_loop cls m tab i found =
     take m (found @ map int (filter (\<lambda>j. hl_class (tab ! j) = cls) [i..<length tab]))"
proof (induction cls m tab i found rule: find_loop.induct)
  case (1 cls m tab i found)
  show ?case
  proof (cases "i < length tab \<and> length found < m")
    case True
    then have "[i..<length tab] = i # [i + 1..<length tab]" by (simp add: upt_conv_Cons)
    moreover have "m - length found = Suc (m - Suc (length found))" using True by arith
    ultimately show ?thesis using True 1 by (subst find_loop.simps) (auto simp del: upt_Suc)
  next
    case False
    with 1(2) show ?thesis by (subst find_loop.simps) auto
  qed
qed

lemma scan_device_length: "length tab \<le> 256 \<Longrightarrow> length (snd (scan_device sys p tab)) \<le> 256"
  by (auto simp: scan_device_def MAX_DEVICES_def Let_def split: option.split prod.split)

lemma fold_length_le:
  assumes "\<And>x tab. length tab \<le> n \<Longrightarrow> length (f x tab) \<le> n" "length tab \<le> n"
  shows "length (fold f xs tab) \<le> n"
  using assms(2) by (induction xs arbitrary: tab) (simp_all add: assms(1))

lemma scan_entries_length: "length tab \<le> 256 \<Longrightarrow> length (scan_entries sys p names tab) \<le> 256"
  by (induction names arbitrary: tab) (simp_all add: HAL_MAX_DEVICES_def)

lemma scan_entries_class:
  assumes "\<forall>d \<in> set tab. P (hl_class d)" "\<forall>name \<in> set names. P (hl_class (sysfs_entry sys p name))"
  shows "\<forall>d \<in> set (scan_entries sys p names tab). P (hl_class d)"
  using assms
proof (induction names arbitrary: tab)
  case (Cons name names)
  have "\<forall>d \<in> set (if prefix ''.'' name then tab else tab @ [sysfs_entry sys p name]). P (hl_class d)"
    using Cons.prems by simp
  with Cons show ?case by simp
qed simp

lemma scan_all_class:
  assumes "\<And>p names name. sf_readdir sys p = Some names \<Longrightarrow> name \<in> set names \<Longrightarrow> P (hl_class (sysfs_entry sys p name))"
  shows "\<forall>d \<in> set (snd (hal_scan_all sys)). P (hl_class d)"
proof -
  have "\<forall>d \<in> set (fold (\<lambda>path tab. snd (scan_sysfs_dir sys path tab)) ps tab). P (hl_class d)"
    if "\<forall>d \<in> set tab. P (hl_class d)" for ps tab
    using that
  proof (induction ps arbitrary: tab)
    case (Cons p ps)
    have "\<forall>d \<in> set (snd (scan_sysfs_dir sys p tab)). P (hl_class d)"
    proof (cases "sf_readdir sys p")
      case (Some names)
      then have "\<forall>name \<in> set names. P (hl_class (sysfs_entry sys p name))" using assms by blast
      with Some Cons.prems scan_entries_class [of tab P names sys p] show ?thesis
        by (simp add: scan_sysfs_dir_def)
    qed (use Cons.prems in \<open>simp add: scan_sysfs_dir_def\<close>)
    with Cons.IH show ?case by simp
  qed simp
  from this [of "[]" sysfs_classes] show ?thesis by (simp add: hal_scan_all_def Let_def)
qed

lemma hal_find_none: "\<forall>d \<in> set tab. hl_class d \<noteq> cls \<Longrightarrow> hal_find tab cls m = (0, [])"
  by (simp add: hal_find_def find_loop_correct Let_def filter_empty_conv)

section \<open>Properties\<close>

text \<open>
  Exclusive devices.  The first successful claim of a device, in the daemon and in the
  library, keeps its owner (cut to 63 characters) through every later sequence of claims, and a later
  claim of the same device is refused.
\<close>

lemma first_claim_keeps_device:
  assumes "fst (claim_device i w tab) = 0" "fst (hal_claim j (Some v) tab') = 0"
  shows "dev_holder (fold (\<lambda>(k, u) t. snd (claim_device k u t)) cs (snd (claim_device i w tab))) i = Some (fit 64 w) \<and>
         fst (claim_device i u (fold (\<lambda>(k, u) t. snd (claim_device k u t)) cs (snd (claim_device i w tab)))) \<noteq> 0 \<and>
         hal_holder (fold (\<lambda>(k, u) t. snd (hal_claim k (Some u) t)) cs (snd (hal_claim j (Some v) tab'))) j = Some (fit 64 v) \<and>
         fst (hal_claim j (Some u) (fold (\<lambda>(k, u) t. snd (hal_claim k (Some u) t)) cs (snd (hal_claim j (Some v) tab')))) \<noteq> 0"
  using hm.first_claim_wins [OF assms(1)] hl.first_claim_wins [OF assms(2)] by blast

lemma first_claim_keeps_device_witness:
  "dev_holder (snd (claim_device 0 ''b'' (snd (claim_device 0 ''a''
     [\<lparr>hm_devpath = ''/dev/sda'', hm_driver = ''block'', hm_class = DEVICE_STORAGE, hm_major = 8,
       hm_minor = 0, hm_claimed = 0, hm_owner = ''unclaimed''\<rparr>])))) 0 = Some ''a''"
  using first_claim_keeps_device [of 0 "''a''" "[\<lparr>hm_devpath = ''/dev/sda'', hm_driver = ''block'',
      hm_class = DEVICE_STORAGE, hm_major = 8, hm_minor = 0, hm_claimed = 0, hm_owner = ''unclaimed''\<rparr>]"
      0 "''a''" "[\<lparr>hl_devpath = ''/dev/sda'', hl_name = ''sda'', hl_driver = ''block'', hl_class = HAL_STORAGE,
      hl_major = 8, hl_minor = 0, hl_claimed = 0, hl_owner = []\<rparr>]" "[(0, ''b'')]" "''c''"]
  by (simp add: claim_device_def hal_claim_def fit_def)

text \<open>
  Searching and scanning.  \<open>hal_find\<close> returns the first \<open>max\<close> indices of the devices of the
  class, in order, and their number; both scans stay within the 256 slots of their tables.
\<close>

lemma hal_tables_correct:
  "hal_find tab cls max' =
     (int (length (take (nat max') (filter (\<lambda>j. hl_class (tab ! j) = cls) [0..<length tab]))),
      map int (take (nat max') (filter (\<lambda>j. hl_class (tab ! j) = cls) [0..<length tab]))) \<and>
   length (scan_all_devices sys) \<le> 256 \<and> length (snd (hal_scan_all sys)) \<le> 256"
proof -
  have "length (fold (\<lambda>cls tab.
        case sf_readdir sys cls of
          None \<Rightarrow> tab
        | Some names \<Rightarrow>
            fold (\<lambda>name tab. if prefix ''.'' name then tab
                    else snd (scan_device sys (fit PATH_MAX (cls @ ''/'' @ name)) tab)) names tab) ps []) \<le> 256" for ps
    by (rule fold_length_le) (auto intro!: fold_length_le scan_device_length split: option.split)
  moreover have "length (fold (\<lambda>path tab. snd (scan_sysfs_dir sys path tab)) ps []) \<le> 256" for ps
    by (rule fold_length_le) (auto simp: scan_sysfs_dir_def scan_entries_length split: option.split)
  ultimately show ?thesis
    by (simp add: hal_find_def find_loop_correct scan_all_devices_def hal_scan_all_def Let_def take_map)
qed

text \<open>
  The library classifies no device.  In sysfs the entry of a device in a class directory is
  a link whose last component is the name of the device.  Where that holds, and no device is named like
  a subsystem, every device the library finds is \<open>HAL_UNKNOWN\<close>: a search for storage, network, input,
  display, audio, USB or PCI devices finds nothing.
\<close>

lemma hal_classifies_nothing:
  assumes "\<And>p names name t. sf_readdir sys p = Some names \<Longrightarrow> name \<in> set names \<Longrightarrow>
       sf_readlink sys (fit PATH_MAX (p @ ''/'' @ name)) = Some t \<Longrightarrow>
       length t < PATH_MAX \<and> strrchr t (CHR ''/'') = Some (CHR ''/'' # name) \<and> length name < 64 \<and>
       hal_classify (Some name) = HAL_UNKNOWN"
    and "cls \<noteq> HAL_UNKNOWN"
  shows "hal_find (snd (hal_scan_all sys)) cls m = (0, [])"
proof (rule hal_find_none)
  have "hl_class (sysfs_entry sys p name) = HAL_UNKNOWN"
    if "sf_readdir sys p = Some names" "name \<in> set names" for p names name
  proof (cases "sf_readlink sys (fit PATH_MAX (p @ ''/'' @ name))")
    case None
    then show ?thesis by (simp add: sysfs_entry_def hal_classify_def)
  next
    case (Some t)
    with assms(1) [OF that] have t: "length t < PATH_MAX" "strrchr t (CHR ''/'') = Some (CHR ''/'' # name)"
      "length name < 64" "hal_classify (Some name) = HAL_UNKNOWN" by blast+
    from t(2) obtain c cs where "t = c # cs" by (cases t) auto
    with Some t show ?thesis by (simp add: sysfs_entry_def fit_short del: strrchr.simps)
  qed
  from scan_all_class [of sys "\<lambda>c. c = HAL_UNKNOWN", OF this] assms(2)
  show "\<forall>d \<in> set (snd (hal_scan_all sys)). hl_class d \<noteq> cls" by auto
qed

lemma hal_classifies_nothing_witness:
  "hal_find (snd (hal_scan_all
     \<lparr>sf_uevent = \<lambda>_. None,
      sf_readlink = \<lambda>p. if p = ''/sys/class/net/eth0'' then Some ''../net/eth0'' else None,
      sf_readdir = \<lambda>p. if p = ''/sys/class/net'' then Some [''.'', ''eth0''] else None\<rparr>)) HAL_NETWORK 8 = (0, [])"
proof (rule hal_classifies_nothing, goal_cases)
  case (1 p names name t)
  then have p: "p = ''/sys/class/net''" and "name = ''.'' \<or> name = ''eth0''"
    by (auto split: if_splits)
  then show ?case
  proof (elim disjE)
    assume n: "name = ''.''"
    have "fit PATH_MAX (p @ ''/'' @ name) = ''/sys/class/net/.''" by (simp add: p n PATH_MAX_def)
    with 1(3) show ?thesis by simp
  next
    assume n: "name = ''eth0''"
    have "fit PATH_MAX (p @ ''/'' @ name) = ''/sys/class/net/eth0''" by (simp add: p n PATH_MAX_def)
    with 1(3) have "t = ''../net/eth0''" by simp
    then show ?thesis by (simp add: n PATH_MAX_def hal_classify_def)
  qed
qed simp

end
