(* ===== verification/Number_Text.thy ===== *)
theory Number_Text
  imports Prelude
begin

text \<open>
  Decimal text: what \<open>%d\<close>, \<open>%ld\<close> and \<open>%zu\<close> print is read back by the digit loop of \<open>atoi\<close>, \<open>sscanf\<close>
  and \<open>fscanf\<close>.  Shared by the display protocol and the token file.
\<close>

text \<open>The values of a 32-bit \<open>int\<close>.\<close>

definition c_int :: "int \<Rightarrow> bool" where
  "c_int i \<longleftrightarrow> - (2 ^ 31) \<le> i \<and> i < 2 ^ 31"

lemma of_char_digit [simp]: "d < 10 \<Longrightarrow> of_char (digit d) = (48 + d :: nat)"
  by (simp add: digit_def)

lemma is_digit_digit [simp]: "d < 10 \<Longrightarrow> is_digit (digit d)"
  by (simp add: is_digit_def)

lemma dec_nat_digits: "\<forall>c \<in> set (dec_nat n). is_digit c"
  by (induction n rule: dec_nat.induct) (subst dec_nat.simps, auto)

lemma dec_nat_nonempty: "dec_nat n \<noteq> []"
  by (subst dec_nat.simps) simp

lemma digits_value_digit: "d < 10 \<Longrightarrow> digits_value acc (digit d # r) = digits_value (acc * 10 + int d) r"
  by (simp add: digit_def Let_def)

lemma digits_value_dec: "digits_value acc (dec_nat n @ r) = digits_value (acc * 10 ^ length (dec_nat n) + int n) r"
proof (induction n arbitrary: acc r rule: dec_nat.induct)
  case (1 n)
  show ?case
  proof (cases "n < 10")
    case True
    then show ?thesis by (simp add: dec_nat.simps [of n] digits_value_digit)
  next
    case False
    define q d where "q = n div 10" and "d = n mod 10"
    have "n = 10 * q + d" and d: "d < 10" by (simp_all add: q_def d_def)
    then have n: "int n = 10 * int q + int d" by linarith
    have "dec_nat n = dec_nat q @ [digit d]" using False by (subst dec_nat.simps) (simp add: q_def d_def)
    with 1 [OF False, of acc "digit d # r"] n digits_value_digit [OF d] show ?thesis
      by (simp add: algebra_simps flip: q_def)
  qed
qed

lemma not_digit_blank [simp]: "\<not> is_digit (CHR '' '')" "\<not> is_digit (CHR ''-'')" "\<not> is_digit (CHR ''+'')"
  by (simp_all add: is_digit_def)

lemma takeWhile_digits: "takeWhile is_digit (dec_nat n @ CHR '' '' # r) = dec_nat n"
  using dec_nat_digits [of n] by (simp add: takeWhile_append)

lemma dec_nat_head: "\<exists>c cs. dec_nat n @ r = c # cs \<and> is_digit c"
  using dec_nat_digits [of n] dec_nat_nonempty [of n] by (cases "dec_nat n") auto

lemma digit_not_space: "is_digit c \<Longrightarrow> \<not> is_space c"
  by (auto simp: is_space_def is_digit_def)

lemma length_dec_nat: "n < 10 ^ Suc k \<Longrightarrow> length (dec_nat n) \<le> Suc k"
proof (induction k arbitrary: n)
  case 0
  then show ?case by (simp add: dec_nat.simps)
next
  case (Suc k)
  then have "n div 10 < 10 ^ Suc k" by (simp add: less_mult_imp_div_less)
  with Suc.IH [of "n div 10"] show ?case by (subst dec_nat.simps) simp
qed

end
