(* ===== verification/Ssle_Packer.thy ===== *)
theory Ssle_Packer
  imports Prelude Number_Text
begin

text \<open>
  The package builder \<open>frontend/apps/ssle_packer.c\<close>.  The file system, the clock and what \<open>getopt\<close>
  returns are parameters; the package is the list of bytes written.  Messages are not modelled.
\<close>

section \<open>Data\<close>

definition SSLE_MAGIC :: int where "SSLE_MAGIC = 1397507411"
definition MAX_FILES :: nat where "MAX_FILES = 128"
definition MAX_MANIFEST_SIZE :: nat where "MAX_MANIFEST_SIZE = 65536"
definition BLOCK_SIZE :: nat where "BLOCK_SIZE = 65536"

record ssle_header_t =
  sh_magic :: int
  sh_version :: int
  sh_num_files :: int
  sh_manifest_size :: int
  sh_manifest_offset :: int
  sh_data_offset :: int
  sh_signature :: "u8 list"

record file_stat =
  fst_regular :: bool
  fst_size :: int
  fst_mode :: nat

text \<open>\<open>pe_time\<close> is the formatted time, \<open>pe_create\<close> whether the output file can be opened.\<close>

record pack_env =
  pe_readdir :: "string \<Rightarrow> string list option"
  pe_stat :: "string \<Rightarrow> file_stat option"
  pe_read :: "string \<Rightarrow> u8 list option"
  pe_time :: string
  pe_create :: bool

section \<open>Checksum\<close>

definition crc_bit :: "u32 \<Rightarrow> u32" where
  "crc_bit crc = drop_bit 1 crc XOR (if crc AND 1 \<noteq> 0 then 3988292384 else 0)"

definition crc32 :: "u8 list \<Rightarrow> u32" where
  "crc32 data = NOT (fold (\<lambda>b crc. (crc_bit ^^ 8) (crc XOR ucast b)) data 4294967295)"

section \<open>Collecting files\<close>

fun collect_entries :: "pack_env \<Rightarrow> string \<Rightarrow> string list \<Rightarrow> string list \<Rightarrow> string list" where
  "collect_entries env dir [] files = files"
| "collect_entries env dir (d # ds) files =
     (if length files < MAX_FILES then
        (if prefix ''.'' d then collect_entries env dir ds files
         else
           (let full_path = fit 1024 (dir @ ''/'' @ d) in
            case pe_stat env full_path of
              None \<Rightarrow> collect_entries env dir ds files
            | Some st \<Rightarrow> collect_entries env dir ds
                (if fst_regular st then files @ [fit 256 full_path] else files)))
      else files)"

definition collect_files :: "pack_env \<Rightarrow> string \<Rightarrow> string list option" where
  "collect_files env dir_path =
     (case pe_readdir env dir_path of
        None \<Rightarrow> None | Some ds \<Rightarrow> Some (collect_entries env dir_path ds []))"

section \<open>The manifest\<close>

fun oct_nat :: "nat \<Rightarrow> string" where
  "oct_nat n = (if n < 8 then [digit n] else oct_nat (n div 8) @ [digit (n mod 8)])"

declare oct_nat.simps [simp del]

abbreviation quoted :: "string \<Rightarrow> string" where
  "quoted s \<equiv> DQUOTE # s @ [DQUOTE]"

definition manifest_head :: "string \<Rightarrow> string" where
  "manifest_head timebuf =
     ''{'' @ [LF] @
     ''  '' @ quoted ''package_version'' @ '': 1,'' @ [LF] @
     ''  '' @ quoted ''created'' @ '': '' @ quoted timebuf @ '','' @ [LF] @
     ''  '' @ quoted ''files'' @ '': ['' @ [LF]"

definition manifest_basename :: "string \<Rightarrow> string" where
  "manifest_basename fname = (case strrchr fname (CHR ''/'') of Some s \<Rightarrow> drop 1 s | None \<Rightarrow> fname)"

definition manifest_line :: "string \<Rightarrow> file_stat \<Rightarrow> bool \<Rightarrow> string" where
  "manifest_line fname st sep =
     ''    {'' @ quoted ''name'' @ '': '' @ quoted (manifest_basename fname) @ '', '' @ quoted ''size'' @ '': '' @
     dec (fst_size st) @ '', '' @ quoted ''mode'' @ '': '' @ oct_nat (fst_mode st mod 512) @ ''}'' @
     (if sep then '','' else []) @ [LF]"

text \<open>
  The loop over the files with the text written so far, whose length is \<open>pos\<close>; \<open>None\<close> is the
  return of -1.
\<close>

fun manifest_loop :: "pack_env \<Rightarrow> nat \<Rightarrow> string list \<Rightarrow> string \<Rightarrow> string option" where
  "manifest_loop env msize [] text = Some text"
| "manifest_loop env msize (fname # files) text =
     (if length text \<ge> msize then None
      else
        (case pe_stat env fname of
           None \<Rightarrow> manifest_loop env msize files text
         | Some st \<Rightarrow>
             (let line = manifest_line fname st (files \<noteq> []) in
              if length line \<ge> msize - length text then None
              else manifest_loop env msize files (text @ line))))"

definition manifest_tail :: "string list" where
  "manifest_tail =
     [''  ],'' @ [LF],
      ''  '' @ quoted ''permissions'' @ '': {'' @ [LF],
      ''    '' @ quoted ''network'' @ '': false,'' @ [LF],
      ''    '' @ quoted ''storage'' @ '': false,'' @ [LF],
      ''    '' @ quoted ''location'' @ '': false,'' @ [LF],
      ''    '' @ quoted ''camera'' @ '': false,'' @ [LF],
      ''    '' @ quoted ''microphone'' @ '': false,'' @ [LF],
      ''    '' @ quoted ''notifications'' @ '': true'' @ [LF],
      ''  },'' @ [LF],
      ''  '' @ quoted ''min_permission_level'' @ '': 1,'' @ [LF],
      ''  '' @ quoted ''entry_point'' @ '': '' @ quoted ''main.elf'' @ [LF],
      ''}'' @ [LF]]"

text \<open>
  The returned length is that of the whole text, also when the last \<open>snprintf\<close> cuts it; \<open>manifest_fits\<close>
  below shows that neither this nor the return of -1, which the caller does not check, can happen.
\<close>

definition generate_manifest :: "pack_env \<Rightarrow> string list \<Rightarrow> nat \<Rightarrow> int \<times> string" where
  "generate_manifest env files msize =
     (case manifest_loop env msize files (fit msize (manifest_head (fit 64 (pe_time env)))) of
        None \<Rightarrow> (-1, [])
      | Some text \<Rightarrow>
          (let all = text @ concat manifest_tail in (int (length all), fit msize all)))"

section \<open>The package\<close>

fun le_bytes :: "nat \<Rightarrow> int \<Rightarrow> u8 list" where
  "le_bytes 0 v = []"
| "le_bytes (Suc n) v = word_of_int (v mod 256) # le_bytes n (v div 256)"

text \<open>The in-memory layout of \<open>ssle_header_t\<close> on the targets: little endian, no padding, 288 bytes.\<close>

definition header_bytes :: "ssle_header_t \<Rightarrow> u8 list" where
  "header_bytes h =
     le_bytes 4 (sh_magic h) @ le_bytes 4 (sh_version h) @ le_bytes 4 (sh_num_files h) @
     le_bytes 4 (sh_manifest_size h) @ le_bytes 8 (sh_manifest_offset h) @ le_bytes 8 (sh_data_offset h) @
     sh_signature h"

definition bytes_of_string :: "string \<Rightarrow> u8 list" where
  "bytes_of_string s = map (\<lambda>c. word_of_int (of_char c)) s"

text \<open>The copy loop over the files; \<open>None\<close> when one cannot be opened.\<close>

fun copy_files :: "pack_env \<Rightarrow> string list \<Rightarrow> u8 list option" where
  "copy_files env [] = Some []"
| "copy_files env (f # fs) =
     (case pe_read env f of
        None \<Rightarrow> None
      | Some data \<Rightarrow> (case copy_files env fs of None \<Rightarrow> None | Some rest \<Rightarrow> Some (data @ rest)))"

text \<open>Result and output file: \<open>None\<close> when there is none (or it was unlinked).\<close>

definition pack_ssle :: "pack_env \<Rightarrow> string \<Rightarrow> int \<times> u8 list option" where
  "pack_ssle env input_dir =
     (case collect_files env input_dir of
        None \<Rightarrow> (-1, None)
      | Some files \<Rightarrow>
          if files = [] then (-1, None)
          else
            (let (manifest_len, manifest) = generate_manifest env files MAX_MANIFEST_SIZE in
             if \<not> pe_create env then (-1, None)
             else
               (let header = \<lparr>sh_magic = SSLE_MAGIC, sh_version = 1, sh_num_files = int (length files),
                      sh_manifest_size = to_u32 manifest_len, sh_manifest_offset = 288,
                      sh_data_offset = 288 + manifest_len, sh_signature = replicate 256 0\<rparr>
                in case copy_files env files of
                     None \<Rightarrow> (-1, None)
                   | Some data \<Rightarrow>
                       (0, Some (header_bytes header @ bytes_of_string (take (nat manifest_len) manifest) @ data)))))"

text \<open>
  \<open>main\<close> over what \<open>getopt\<close> delivers: the options with their arguments, then the rest of the command
  line.  The key, certificate and manifest options are read and not used.
\<close>

fun parse_options :: "(char \<times> string) list \<Rightarrow> string option \<Rightarrow> int + string option" where
  "parse_options [] output = Inr output"
| "parse_options ((opt, optarg) # opts) output =
     (if opt = CHR ''o'' then parse_options opts (Some optarg)
      else if opt \<in> {CHR ''k'', CHR ''c'', CHR ''m'', CHR ''v''} then parse_options opts output
      else if opt = CHR ''h'' then Inl 0 else Inl 1)"

definition packer_main :: "pack_env \<Rightarrow> (char \<times> string) list \<Rightarrow> string list \<Rightarrow> int \<times> u8 list option" where
  "packer_main env opts rest =
     (case parse_options opts None of
        Inl rc \<Rightarrow> (rc, None)
      | Inr None \<Rightarrow> (1, None)
      | Inr (Some output) \<Rightarrow> (case rest of [] \<Rightarrow> (1, None) | input_dir # _ \<Rightarrow> pack_ssle env input_dir))"

section \<open>The manifest always fits\<close>

lemma length_oct_nat: "n < 8 ^ Suc k \<Longrightarrow> length (oct_nat n) \<le> Suc k"
proof (induction k arbitrary: n)
  case 0
  then show ?case by (simp add: oct_nat.simps)
next
  case (Suc k)
  then have "n div 8 < 8 ^ Suc k" by (simp add: less_mult_imp_div_less)
  with Suc.IH [of "n div 8"] show ?case by (subst oct_nat.simps) simp
qed

definition stat_ok :: "file_stat \<Rightarrow> bool" where
  "stat_ok st \<longleftrightarrow> 0 \<le> fst_size st \<and> fst_size st < 2 ^ 63"

lemma length_basename: "length (manifest_basename f) \<le> length f"
proof -
  have "strrchr f c = Some r \<Longrightarrow> length r \<le> length f" for c r
    by (induction f arbitrary: r) (auto split: option.splits if_splits)
  from this [of "CHR ''/''"] show ?thesis
    by (auto simp: manifest_basename_def intro: le_trans [OF diff_le_self] split: option.split)
qed

lemma length_manifest_line:
  assumes "stat_ok st" "length f \<le> 255"
  shows "length (manifest_line f st sep) \<le> 315"
proof -
  have "nat (fst_size st) < 10 ^ Suc 18" using assms(1) by (simp add: stat_ok_def nat_less_iff)
  then have "length (dec (fst_size st)) \<le> 19"
    using assms(1) length_dec_nat [of "nat (fst_size st)" 18] by (simp add: dec_def stat_ok_def)
  moreover have "length (oct_nat (fst_mode st mod 512)) \<le> 3"
    using length_oct_nat [of "fst_mode st mod 512" 2] by simp
  ultimately show ?thesis using length_basename [of f] assms(2)
    by (simp add: manifest_line_def)
qed

lemma manifest_loop_fits:
  assumes "length acc + 315 * length files < msize" "\<forall>f \<in> set files. length f \<le> 255"
    and "\<forall>f st. pe_stat env f = Some st \<longrightarrow> stat_ok st"
  shows "\<exists>lines. manifest_loop env msize files acc = Some (acc @ lines) \<and> length lines \<le> 315 * length files \<and>
           (lines = [] \<or> last lines = LF)"
  using assms(1,2)
proof (induction "files" arbitrary: acc)
  case (Cons f fs)
  show ?case
  proof (cases "pe_stat env f")
    case None
    with Cons.IH [of acc] Cons.prems show ?thesis by auto
  next
    case (Some st)
    let ?line = "manifest_line f st (fs \<noteq> [])"
    have l: "length ?line \<le> 315" using length_manifest_line assms(3) Some Cons.prems(2) by simp
    obtain lines where lines: "manifest_loop env msize fs (acc @ ?line) = Some ((acc @ ?line) @ lines)"
      "length lines \<le> 315 * length fs" "lines = [] \<or> last lines = LF"
      using Cons.IH [of "acc @ ?line"] Cons.prems l by auto
    have "last ?line = LF" by (simp add: manifest_line_def)
    then have "last (?line @ lines) = LF" using lines(3) by (cases "lines = []") simp_all
    moreover have "\<not> msize - length acc \<le> length ?line" using l Cons.prems(1) by simp
    ultimately show ?thesis using lines l Some Cons.prems(1)
      by (intro exI [of _ "?line @ lines"]) (simp add: Let_def)
  qed
qed simp

lemma length_manifest_head: "length timebuf \<le> 63 \<Longrightarrow> length (manifest_head timebuf) \<le> 130"
  by (simp add: manifest_head_def)

lemma length_manifest_tail: "length (concat manifest_tail) \<le> 300"
  by (simp add: manifest_tail_def)

lemma manifest_fits:
  assumes "length files \<le> 128" "\<forall>f \<in> set files. length f \<le> 255"
    and "\<forall>f st. pe_stat env f = Some st \<longrightarrow> stat_ok st"
  shows "\<exists>lines. generate_manifest env files 65536 =
      (let m = manifest_head (fit 64 (pe_time env)) @ lines @ concat manifest_tail in (int (length m), m)) \<and>
      length (manifest_head (fit 64 (pe_time env)) @ lines @ concat manifest_tail) < 65536 \<and>
      (lines = [] \<or> last lines = LF)"
proof -
  let ?head = "manifest_head (fit 64 (pe_time env))"
  have h: "length ?head \<le> 130" by (rule length_manifest_head) simp
  then obtain lines where l: "manifest_loop env 65536 files ?head = Some (?head @ lines)"
    "length lines \<le> 315 * length files" "lines = [] \<or> last lines = LF"
    using manifest_loop_fits [of ?head "files" 65536 env] assms by auto
  then have "length (?head @ lines @ concat manifest_tail) < 65536"
    using h length_manifest_tail assms(1) by simp
  with l h show ?thesis by (intro exI [of _ lines]) (simp add: generate_manifest_def Let_def)
qed

lemma collect_entries_ok:
  "length files \<le> 128 \<Longrightarrow> \<forall>f \<in> set files. length f \<le> 255 \<Longrightarrow>
   length (collect_entries env dir ds files) \<le> 128 \<and> (\<forall>f \<in> set (collect_entries env dir ds files). length f \<le> 255)"
proof (induction ds arbitrary: "files")
  case (Cons d ds)
  let ?p = "fit 1024 (dir @ ''/'' @ d)"
  have "\<forall>f \<in> set (files @ [fit 256 ?p]). length f \<le> 255" using Cons.prems(2) by simp
  with Cons.IH [of "files"] Cons.IH [of "files @ [fit 256 ?p]"] Cons.prems show ?case
    by (cases "pe_stat env ?p") (simp_all add: MAX_FILES_def del: length_fit)
qed simp

section \<open>Properties\<close>

fun le_value :: "u8 list \<Rightarrow> int" where
  "le_value [] = 0"
| "le_value (b # bs) = uint b + 256 * le_value bs"

lemma length_le_bytes [simp]: "length (le_bytes n v) = n"
  by (induction n arbitrary: v) simp_all

lemma le_value_bytes: "le_value (le_bytes n v) = v mod 256 ^ n"
proof (induction n arbitrary: v)
  case (Suc n)
  have "uint (word_of_int (v mod 256) :: u8) = v mod 256" by (simp add: uint_word_of_int)
  moreover have "v mod (256 * 256 ^ n) = 256 * (v div 256 mod 256 ^ n) + v mod 256"
    by (rule zmod_zmult2_eq) simp
  ultimately show ?case using Suc by simp
qed simp

text \<open>
  Claim C34.  The package.  For a directory whose files can all be read, the packer writes the header,
  then the whole manifest at the recorded offset and with the recorded size, then the contents of the
  files at the recorded data offset and nothing more; the manifest always fits its buffer.  The
  signature field is left zero.
\<close>

theorem package_layout:
  assumes "collect_files env dir = Some files" "files \<noteq> []" "pe_create env"
    and "\<forall>f \<in> set files. pe_read env f \<noteq> None"
    and "\<forall>f st. pe_stat env f = Some st \<longrightarrow> stat_ok st"
  shows "\<exists>m out. generate_manifest env files 65536 = (int (length m), m) \<and> length m < 65536 \<and>
     pack_ssle env dir = (0, Some out) \<and>
     take (length m) (drop 288 out) = bytes_of_string m \<and>
     drop (288 + length m) out = concat (map (\<lambda>f. the (pe_read env f)) files) \<and>
     le_value (take 4 out) = 1397507411 \<and> le_value (take 4 (drop 12 out)) = int (length m) \<and>
     le_value (take 8 (drop 16 out)) = 288 \<and> le_value (take 8 (drop 24 out)) = 288 + int (length m) \<and>
     take 256 (drop 32 out) = replicate 256 0"
proof -
  have f: "length files \<le> 128" "\<forall>f \<in> set files. length f \<le> 255"
    using assms(1) collect_entries_ok [of "[]" env dir] by (auto simp: collect_files_def split: option.splits)
  from manifest_fits [OF f assms(5)]
  obtain m where m: "generate_manifest env files 65536 = (int (length m), m)" "length m < 65536"
    by (auto simp: Let_def)
  have data: "copy_files env files = Some (concat (map (\<lambda>f. the (pe_read env f)) files))"
    using assms(4) by (induction "files") auto
  define h where "h = \<lparr>sh_magic = SSLE_MAGIC, sh_version = 1, sh_num_files = int (length files),
      sh_manifest_size = to_u32 (int (length m)), sh_manifest_offset = 288,
      sh_data_offset = 288 + int (length m), sh_signature = replicate 256 (0 :: u8)\<rparr>"
  define out where "out = header_bytes h @ bytes_of_string m @ concat (map (\<lambda>f. the (pe_read env f)) files)"
  have "pack_ssle env dir = (0, Some out)"
    using assms(1-3) m data by (simp add: pack_ssle_def MAX_MANIFEST_SIZE_def Let_def out_def h_def)
  moreover have len: "length (header_bytes h) = 288" by (simp add: header_bytes_def h_def)
  moreover have "length (bytes_of_string m) = length m" by (simp add: bytes_of_string_def)
  moreover have "le_value (take 4 out) = 1397507411" "le_value (take 4 (drop 12 out)) = int (length m)"
     "le_value (take 8 (drop 16 out)) = 288" "le_value (take 8 (drop 24 out)) = 288 + int (length m)"
     "take 256 (drop 32 out) = replicate 256 0"
    using m(2) by (simp_all add: out_def header_bytes_def h_def le_value_bytes SSLE_MAGIC_def)
  ultimately show ?thesis using m by (intro exI [of _ m] exI [of _ out]) (simp add: out_def)
qed

definition demo_env :: pack_env where
  "demo_env =
     \<lparr>pe_readdir = \<lambda>_. Some [''.'', ''main.elf''],
      pe_stat = \<lambda>_. Some \<lparr>fst_regular = True, fst_size = 3, fst_mode = 493\<rparr>,
      pe_read = \<lambda>_. Some [1, 2, 3], pe_time = ''2024-01-01T00:00:00Z'', pe_create = True\<rparr>"

theorem package_layout_witness:
  "\<exists>(m :: string) out. pack_ssle demo_env ''app'' = (0, Some out) \<and> drop (288 + length m) out = [1, 2, 3]"
proof -
  have c: "collect_files demo_env ''app'' = Some [''app/main.elf'']"
    by (simp add: collect_files_def demo_env_def MAX_FILES_def)
  have "[''app/main.elf''] \<noteq> []" "pe_create demo_env" "\<forall>f \<in> set [''app/main.elf'']. pe_read demo_env f \<noteq> None"
    "\<forall>f st. pe_stat demo_env f = Some st \<longrightarrow> stat_ok st"
    by (auto simp: demo_env_def stat_ok_def)
  from package_layout [OF c this] obtain m :: string and out where o: "pack_ssle demo_env ''app'' = (0, Some out)"
    "drop (288 + length m) out = concat (map (\<lambda>f. the (pe_read demo_env f)) [''app/main.elf''])" by blast
  have "drop (288 + length m) out = [1, 2, 3]" using o(2) by (simp add: demo_env_def)
  with o(1) show ?thesis by blast
qed

end
