(* ===== verification/App_Sandbox.thy ===== *)
theory App_Sandbox
  imports Ssle_Packer
begin

text \<open>
  The application sandbox library \<open>frontend/deps/app/app_sandbox.c\<close>: permission sets, the manifest
  parser, launching and terminating.  The answers of \<open>fork\<close> and \<open>kill\<close> are parameters, a file is its
  text.
\<close>

section \<open>Permissions\<close>

type_synonym app_perm_t = nat

abbreviation "APP_PERM_NETWORK \<equiv> (0 :: app_perm_t)"
abbreviation "APP_PERM_STORAGE_READ \<equiv> (1 :: app_perm_t)"
abbreviation "APP_PERM_STORAGE_WRITE \<equiv> (2 :: app_perm_t)"
abbreviation "APP_PERM_LOCATION \<equiv> (3 :: app_perm_t)"
abbreviation "APP_PERM_CAMERA \<equiv> (4 :: app_perm_t)"
abbreviation "APP_PERM_MICROPHONE \<equiv> (5 :: app_perm_t)"
abbreviation "APP_PERM_NOTIFICATIONS \<equiv> (6 :: app_perm_t)"

definition APP_PERM_COUNT :: app_perm_t where "APP_PERM_COUNT = 7"

definition app_perm_names :: "string list" where
  "app_perm_names =
     [''network'', ''storage_read'', ''storage_write'', ''location'', ''camera'', ''microphone'',
      ''notifications'']"

type_synonym app_permset_t = "int list"

record app_instance_t =
  ap_name :: string
  ap_package_path :: string
  ap_pid :: pid_t
  ap_perms :: app_permset_t
  ap_perm_level :: int
  ap_is_running :: int

definition app_permset_init :: app_permset_t where
  "app_permset_init = replicate APP_PERM_COUNT 0"

definition app_permset_grant :: "app_perm_t \<Rightarrow> app_permset_t \<Rightarrow> int \<times> app_permset_t" where
  "app_permset_grant perm perms = (if perm \<ge> APP_PERM_COUNT then (-1, perms) else (0, perms[perm := 1]))"

definition app_permset_revoke :: "app_perm_t \<Rightarrow> app_permset_t \<Rightarrow> int \<times> app_permset_t" where
  "app_permset_revoke perm perms = (if perm \<ge> APP_PERM_COUNT then (-1, perms) else (0, perms[perm := 0]))"

definition app_permset_check :: "app_perm_t \<Rightarrow> app_permset_t \<Rightarrow> int" where
  "app_permset_check perm perms = (if perm \<ge> APP_PERM_COUNT then 0 else perms ! perm)"

definition app_perm_name :: "app_perm_t \<Rightarrow> string" where
  "app_perm_name perm = (if perm < APP_PERM_COUNT then app_perm_names ! perm else ''unknown'')"

definition app_perm_from_name :: "string option \<Rightarrow> app_perm_t" where
  "app_perm_from_name name =
     (case name of
        None \<Rightarrow> APP_PERM_COUNT
      | Some n \<Rightarrow> (case index_of (\<lambda>s. s = n) app_perm_names of Some i \<Rightarrow> i | None \<Rightarrow> APP_PERM_COUNT))"

section \<open>The manifest\<close>

text \<open>\<open>fgets\<close> with a buffer of \<open>Suc n\<close> bytes: up to the next newline, at most \<open>n\<close> characters.\<close>

fun fgets :: "nat \<Rightarrow> string \<Rightarrow> string \<times> string" where
  "fgets n [] = ([], [])"
| "fgets 0 s = ([], s)"
| "fgets (Suc n) (c # cs) =
     (if c = LF then ([LF], cs) else (let (l, r) = fgets n cs in (c # l, r)))"

lemma fgets_length: "length (snd (fgets n s)) \<le> length s"
  by (induction n s rule: fgets.induct) (auto simp: Let_def split: prod.splits)

lemma fgets_nonempty: "s \<noteq> [] \<Longrightarrow> length (snd (fgets 511 s)) < length s"
proof -
  assume "s \<noteq> []"
  then obtain c cs where s: "s = c # cs" by (cases s) auto
  obtain l r where lr: "fgets 510 cs = (l, r)" by force
  have "fgets 511 (c # cs) = (if c = LF then ([LF], cs) else (let (l, r) = fgets 510 cs in (c # l, r)))"
    using fgets.simps(3) [of 510 c cs] by simp
  with s lr fgets_length [of 510 cs] show ?thesis by simp
qed

function fgets_lines :: "string \<Rightarrow> string list" where
  "fgets_lines s = (if s = [] then [] else fst (fgets 511 s) # fgets_lines (snd (fgets 511 s)))"
  by pat_completeness auto
termination by (relation "measure length") (simp_all add: fgets_nonempty)

declare fgets_lines.simps [simp del]

definition set_perm :: "app_perm_t \<Rightarrow> string \<Rightarrow> app_instance_t \<Rightarrow> app_instance_t" where
  "set_perm perm line app =
     app\<lparr>ap_perms := (ap_perms app)[perm := (if strstr line ''true'' \<noteq> None then 1 else 0)]\<rparr>"

definition scan_level :: "string \<Rightarrow> int option" where
  "scan_level line =
     (let s = dropWhile is_space line; pat = quoted ''min_permission_level'' @ '':'' in
      if prefix pat s then scan_d (drop (length pat) s) else None)"

definition parse_line :: "string \<Rightarrow> app_instance_t \<Rightarrow> app_instance_t" where
  "parse_line line app =
     (let has = (\<lambda>key. strstr line (quoted key @ '':'') \<noteq> None);
          app = (if has ''network'' then set_perm APP_PERM_NETWORK line app else app);
          app = (if has ''storage'' then set_perm APP_PERM_STORAGE_READ line app else app);
          app = (if has ''location'' then set_perm APP_PERM_LOCATION line app else app);
          app = (if has ''notifications'' then set_perm APP_PERM_NOTIFICATIONS line app else app)
      in if has ''min_permission_level''
         then (case scan_level line of Some level \<Rightarrow> app\<lparr>ap_perm_level := level\<rparr> | None \<Rightarrow> app)
         else app)"

definition app_parse_manifest :: "string option \<Rightarrow> app_instance_t \<Rightarrow> int \<times> app_instance_t" where
  "app_parse_manifest file app =
     (case file of None \<Rightarrow> (-1, app) | Some s \<Rightarrow> (0, fold parse_line (fgets_lines s) app))"

section \<open>Life cycle\<close>

datatype fork_result = Fork_error | Fork_child pid_t | Fork_parent pid_t

text \<open>The child's \<open>getpid\<close> is in \<open>Fork_child\<close>; both processes return from the call.\<close>

definition app_launch :: "fork_result \<Rightarrow> string \<Rightarrow> app_instance_t \<Rightarrow> int \<times> app_instance_t" where
  "app_launch fork ssle_path app =
     (case fork of
        Fork_error \<Rightarrow> (-1, app)
      | Fork_child self \<Rightarrow>
          (0, app\<lparr>ap_package_path := fit 256 ssle_path, ap_is_running := 1, ap_pid := self\<rparr>)
      | Fork_parent child \<Rightarrow> (0, app\<lparr>ap_pid := child, ap_is_running := 1\<rparr>))"

definition app_terminate :: "(pid_t \<Rightarrow> bool) \<Rightarrow> app_instance_t \<Rightarrow> int \<times> app_instance_t" where
  "app_terminate kill_ok app =
     (if ap_is_running app = 0 then (-1, app)
      else if kill_ok (ap_pid app) then (0, app\<lparr>ap_is_running := 0, ap_pid := 0\<rparr>)
      else (-1, app))"

definition app_get_status :: "(pid_t \<Rightarrow> bool) \<Rightarrow> app_instance_t \<Rightarrow> int" where
  "app_get_status alive app =
     (if ap_is_running app = 0 then 0 else if alive (ap_pid app) then 1 else 0)"

section \<open>Lines\<close>

lemma fgets_append:
  "a \<noteq> [] \<Longrightarrow> last a = LF \<Longrightarrow> fgets (Suc n) (a @ b) = (fst (fgets (Suc n) a), snd (fgets (Suc n) a) @ b)
    \<and> (snd (fgets (Suc n) a) = [] \<or> last (snd (fgets (Suc n) a)) = LF)"
proof (induction a arbitrary: n)
  case (Cons c cs)
  show ?case
  proof (cases "c = LF")
    case True
    with Cons.prems show ?thesis by (cases "cs = []") auto
  next
    case False
    with Cons.prems have cs: "cs \<noteq> []" "last cs = LF" by (auto split: if_splits)
    show ?thesis
    proof (cases n)
      case 0
      with False cs show ?thesis by (cases cs) auto
    next
      case (Suc k)
      with False Cons.IH [OF cs, of k] show ?thesis by (simp add: Let_def case_prod_beta)
    qed
  qed
qed simp

lemma fgets_lines_append:
  "a = [] \<or> last a = LF \<Longrightarrow> fgets_lines (a @ b) = fgets_lines a @ fgets_lines b"
proof (induction a rule: measure_induct_rule [of length])
  case (less a)
  show ?case
  proof (cases "a = []")
    case True
    then show ?thesis by (simp add: fgets_lines.simps [of "[]"])
  next
    case False
    with less.prems have "last a = LF" by simp
    note f = fgets_append [OF False this, of 510 b]
    have "fgets_lines (a @ b) = fst (fgets 511 a) # fgets_lines (snd (fgets 511 a) @ b)"
      using f False by (subst fgets_lines.simps) simp
    also have "\<dots> = (fst (fgets 511 a) # fgets_lines (snd (fgets 511 a))) @ fgets_lines b"
      using less.IH [OF fgets_nonempty [OF False]] f by simp
    also have "fst (fgets 511 a) # fgets_lines (snd (fgets 511 a)) = fgets_lines a"
      using False by (simp add: fgets_lines.simps [of a])
    finally show ?thesis .
  qed
qed

lemma fgets_line: "LF \<notin> set s \<Longrightarrow> length s < n \<Longrightarrow> fgets n (s @ [LF]) = (s @ [LF], [])"
proof (induction s arbitrary: n)
  case Nil
  then show ?case by (cases n) auto
next
  case (Cons c s)
  then show ?case by (cases n) auto
qed

lemma fgets_lines_concat:
  "\<forall>l \<in> set ls. \<exists>s. l = s @ [LF] \<and> LF \<notin> set s \<and> length s < 511 \<Longrightarrow> fgets_lines (concat ls) = ls"
proof (induction ls)
  case Nil
  then show ?case by (simp add: fgets_lines.simps)
next
  case (Cons l ls)
  then obtain s where s: "l = s @ [LF]" "LF \<notin> set s" "length s < 511" by auto
  have "fgets_lines (l @ concat ls) = fgets_lines l @ fgets_lines (concat ls)"
    by (rule fgets_lines_append) (simp add: s)
  moreover have "fgets_lines l = [l]"
    using fgets_line [OF s(2,3)] s(1) by (subst fgets_lines.simps) (simp add: fgets_lines.simps [of "[]"])
  ultimately show ?case using Cons by simp
qed

lemma tail_lines: "fgets_lines (concat manifest_tail) = manifest_tail"
proof (rule fgets_lines_concat)
  have "\<forall>l \<in> set manifest_tail. last l = LF \<and> l \<noteq> [] \<and> LF \<notin> set (butlast l) \<and> length (butlast l) < 511"
    by (simp add: manifest_tail_def)
  then show "\<forall>l \<in> set manifest_tail. \<exists>s. l = s @ [LF] \<and> LF \<notin> set s \<and> length s < 511"
    by (metis append_butlast_last_id)
qed

text \<open>What the lines of the manifest's tail do to an application.\<close>

lemma parse_tail:
  "fold parse_line manifest_tail app =
     app\<lparr>ap_perms := (ap_perms app)[0 := 0, 1 := 0, 3 := 0, 6 := 1], ap_perm_level := 1\<rparr>"
  by (simp add: manifest_tail_def parse_line_def set_perm_def scan_level_def Let_def scan_d_def
      is_space_def is_digit_def atoi_def)

definition settle :: "app_instance_t \<Rightarrow> app_instance_t" where
  "settle app = app\<lparr>ap_perms := (ap_perms app)[0 := 0, 1 := 0, 3 := 0, 6 := 1], ap_perm_level := 1\<rparr>"

lemma settle_perm:
  "p \<in> {0, 1, 3, 6} \<Longrightarrow>
   (xs[p := v])[0 := a, Suc 0 := b, 3 := c, 6 := d] = xs[0 := a, Suc 0 := b, 3 := c, 6 := d]"
  by (elim insertE) (simp_all add: list_update_swap)

lemma settle_parse_line: "settle (parse_line line app) = settle app"
  by (auto simp: settle_def parse_line_def set_perm_def settle_perm Let_def split: option.split)

lemma settle_parse_lines: "settle (fold parse_line ls app) = settle app"
  by (induction ls arbitrary: app) (simp_all add: settle_parse_line)

section \<open>Properties\<close>

text \<open>
  Claim C35.  A packed manifest.  Whatever the files of a package are called, also when a name contains
  the text of a permission entry, parsing the manifest the packer generates gives the application no
  network, storage read or location permission, the notification permission and level 1, and leaves
  everything else as it was.
\<close>

theorem packed_manifest_grants:
  assumes "collect_files env dir = Some files" "\<forall>f st. pe_stat env f = Some st \<longrightarrow> stat_ok st"
  shows "app_parse_manifest (Some (snd (generate_manifest env files 65536))) app =
    (0, app\<lparr>ap_perms := (ap_perms app)[APP_PERM_NETWORK := 0, APP_PERM_STORAGE_READ := 0,
              APP_PERM_LOCATION := 0, APP_PERM_NOTIFICATIONS := 1],
            ap_perm_level := 1\<rparr>)"
proof -
  have f: "length files \<le> 128" "\<forall>f \<in> set files. length f \<le> 255"
    using assms(1) collect_entries_ok [of "[]" env dir] by (auto simp: collect_files_def split: option.splits)
  obtain lines where m: "snd (generate_manifest env files 65536) =
      manifest_head (fit 64 (pe_time env)) @ lines @ concat manifest_tail" "lines = [] \<or> last lines = LF"
    using manifest_fits [OF f assms(2)] by (auto simp: Let_def)
  let ?front = "manifest_head (fit 64 (pe_time env)) @ lines"
  have "last ?front = LF" using m(2) by (cases "lines = []") (simp_all add: manifest_head_def)
  then have "fgets_lines (?front @ concat manifest_tail) = fgets_lines ?front @ manifest_tail"
    using fgets_lines_append [of ?front "concat manifest_tail"] tail_lines by simp
  then have "app_parse_manifest (Some (snd (generate_manifest env files 65536))) app =
      (0, settle (fold parse_line (fgets_lines ?front) app))"
    by (simp add: app_parse_manifest_def m(1) parse_tail settle_def)
  then show ?thesis by (simp add: settle_parse_lines) (simp add: settle_def)
qed

theorem packed_manifest_grants_witness:
  "app_parse_manifest (Some (snd (generate_manifest demo_env [''app/main.elf''] 65536)))
     \<lparr>ap_name = ''a'', ap_package_path = [], ap_pid = 0, ap_perms = app_permset_init, ap_perm_level = 0,
      ap_is_running = 0\<rparr> =
   (0, \<lparr>ap_name = ''a'', ap_package_path = [], ap_pid = 0, ap_perms = [0, 0, 0, 0, 0, 0, 1],
        ap_perm_level = 1, ap_is_running = 0\<rparr>)"
proof -
  have c: "collect_files demo_env ''app'' = Some [''app/main.elf'']"
    by (simp add: collect_files_def demo_env_def MAX_FILES_def)
  have s: "\<forall>f st. pe_stat demo_env f = Some st \<longrightarrow> stat_ok st"
    by (auto simp: demo_env_def stat_ok_def)
  have p: "app_permset_init = [0, 0, 0, 0, 0, 0, 0]"
    by (simp add: app_permset_init_def APP_PERM_COUNT_def eval_nat_numeral)
  show ?thesis unfolding packed_manifest_grants [OF c s] by (simp add: p)
qed

text \<open>Permission sets, and the names of permissions.\<close>

lemma permset_check_grant:
  "length perms = 7 \<Longrightarrow> app_permset_check p (snd (app_permset_grant q perms)) =
     (if p = q \<and> q < 7 then 1 else app_permset_check p perms)"
  by (auto simp: app_permset_check_def app_permset_grant_def APP_PERM_COUNT_def)

lemma permset_check_revoke:
  "length perms = 7 \<Longrightarrow> app_permset_check p (snd (app_permset_revoke q perms)) =
     (if p = q \<and> q < 7 then 0 else app_permset_check p perms)"
  by (auto simp: app_permset_check_def app_permset_revoke_def APP_PERM_COUNT_def)

lemma perm_name_roundtrip: "p \<le> 7 \<Longrightarrow> app_perm_from_name (Some (app_perm_name p)) = p"
proof -
  assume "p \<le> 7"
  then have "p \<in> {0, 1, 2, 3, 4, 5, 6, 7}" by auto
  then show ?thesis
    by (elim insertE) (simp_all add: app_perm_from_name_def app_perm_name_def app_perm_names_def APP_PERM_COUNT_def)
qed

end
