(* ===== verification/Guard.thy ===== *)
theory Guard
  imports Prelude
begin

text \<open>
  The kernel guard module \<open>kernel/modules/guard/guard.c\<close>: the read-only sentinel and its checksum, the
  two security hooks, and the table of oops records with its storm detection.  The kernel's
  \<open>crc32_le\<close>, the clock (in nanoseconds) and the task lookup are parameters; the mutex makes each
  operation atomic.  Kills, alarms and the panic are recorded in the state.
\<close>

section \<open>Data\<close>

definition GUARD_OOPS_WINDOW :: int where "GUARD_OOPS_WINDOW = 300"
definition GUARD_OOPS_THRESH :: nat where "GUARD_OOPS_THRESH = 8"
definition GUARD_CRC_INTERVAL :: int where "GUARD_CRC_INTERVAL = 10"
definition GUARD_OOPS_MAX :: nat where "GUARD_OOPS_MAX = 32"

record guard_oops_rec =
  go_pid :: pid_t
  go_count :: nat
  go_window_start :: int

record guard_t =
  gd_mode :: int
  gd_deny_setuid :: int
  gd_rodata_check :: int
  gd_oops_watch :: int
  gd_oops :: "guard_oops_rec list"
  gd_base_crc :: u32
  gd_kills :: "pid_t list"
  gd_alarms :: nat
  gd_panic :: bool
  gd_timer :: int

definition guard_load :: guard_t where
  "guard_load =
     \<lparr>gd_mode = 1, gd_deny_setuid = 1, gd_rodata_check = 1, gd_oops_watch = 1,
      gd_oops = replicate 32 \<lparr>go_pid = 0, go_count = 0, go_window_start = 0\<rparr>,
      gd_base_crc = 0, gd_kills = [], gd_alarms = 0, gd_panic = False, gd_timer = 0\<rparr>"

text \<open>The initialiser is longer than the array; the array keeps its first 64 characters.\<close>

definition guard_sentinel :: string where
  "guard_sentinel =
     take 64 (''ServEcosysGuardSentinel'' @
       ''0123456789abcdef0123456789abcdef0123456789abcdef0123456789abc'')"

section \<open>The sentinel\<close>

definition guard_rebuild_rodata_crc :: "(string \<Rightarrow> u32) \<Rightarrow> string \<Rightarrow> guard_t \<Rightarrow> guard_t" where
  "guard_rebuild_rodata_crc crc32 rodata g =
     (if gd_rodata_check g = 0 then g else g\<lparr>gd_base_crc := crc32 rodata\<rparr>)"

definition guard_rodata_tampered :: "(string \<Rightarrow> u32) \<Rightarrow> string \<Rightarrow> guard_t \<Rightarrow> int \<times> guard_t" where
  "guard_rodata_tampered crc32 rodata g =
     (if gd_rodata_check g = 0 then (0, g)
      else if crc32 rodata \<noteq> gd_base_crc g then
        (1, g\<lparr>gd_alarms := gd_alarms g + 1, gd_panic := (gd_panic g \<or> gd_mode g \<ge> 2)\<rparr>)
      else (0, g))"

definition guard_timer_fn :: "(string \<Rightarrow> u32) \<Rightarrow> string \<Rightarrow> int \<Rightarrow> guard_t \<Rightarrow> guard_t" where
  "guard_timer_fn crc32 rodata now_ms g =
     (snd (guard_rodata_tampered crc32 rodata g))\<lparr>gd_timer := now_ms + GUARD_CRC_INTERVAL * 1000\<rparr>"

section \<open>Credentials\<close>

record kcred =
  kc_uid :: int
  kc_euid :: int
  kc_suid :: int
  kc_cap_sys_admin :: bool

definition guard_detect_cred_escalation :: "kcred option \<Rightarrow> int" where
  "guard_detect_cred_escalation task_cred =
     (case task_cred of
        None \<Rightarrow> 0
      | Some c \<Rightarrow> if kc_uid c \<noteq> 0 \<and> kc_cap_sys_admin c then 1 else 0)"

definition EPERM :: int where "EPERM = 1"

definition guard_task_fix_setuid :: "kcred \<Rightarrow> kcred \<Rightarrow> guard_t \<Rightarrow> int" where
  "guard_task_fix_setuid new old g =
     (if gd_mode g \<ge> 1 \<and> gd_deny_setuid g \<noteq> 0 \<and> kc_uid old \<noteq> 0 \<and> kc_uid new = 0 \<and>
         kc_euid old \<noteq> 0 \<and> kc_suid old \<noteq> 0 then - EPERM else 0)"

definition CAP_SYS_ADMIN :: int where "CAP_SYS_ADMIN = 21"

definition guard_capable :: "kcred option \<Rightarrow> int \<Rightarrow> guard_t \<Rightarrow> int" where
  "guard_capable current_cred cap g =
     (if gd_mode g \<ge> 1 \<and> gd_deny_setuid g \<noteq> 0 \<and> cap = CAP_SYS_ADMIN then
        (if guard_detect_cred_escalation current_cred \<noteq> 0 then - EPERM else 0)
      else 0)"

section \<open>Oops records\<close>

text \<open>The scan: the index of the record of \<open>pid\<close>, and the index of the oldest one seen before it.\<close>

fun oops_scan ::
  "pid_t \<Rightarrow> guard_oops_rec list \<Rightarrow> nat \<Rightarrow> nat option \<Rightarrow> guard_oops_rec list \<Rightarrow> nat option \<times> nat option" where
  "oops_scan pid tab i oldest [] = (None, oldest)"
| "oops_scan pid tab i oldest (r # rs) =
     (if go_pid r = pid then (Some i, oldest)
      else oops_scan pid tab (i + 1)
             (case oldest of
                None \<Rightarrow> Some i
              | Some k \<Rightarrow> if go_window_start r < go_window_start (tab ! k) then Some i else Some k) rs)"

text \<open>Counting one oops in a record, with the reset of an expired window.\<close>

definition bump :: "int \<Rightarrow> guard_oops_rec \<Rightarrow> guard_oops_rec" where
  "bump now r =
     (let r1 = (if (now - go_window_start r) div 1000000 > GUARD_OOPS_WINDOW * 1000
                then r\<lparr>go_count := 0, go_window_start := now\<rparr> else r)
      in r1\<lparr>go_count := go_count r1 + 1\<rparr>)"

text \<open>\<open>found\<close> tells whether \<open>find_task_by_vpid\<close> finds the task.\<close>

definition guard_note_oops :: "int \<Rightarrow> (pid_t \<Rightarrow> bool) \<Rightarrow> pid_t \<Rightarrow> guard_t \<Rightarrow> guard_t" where
  "guard_note_oops now found pid g =
     (let tab = gd_oops g;
          (hit, oldest) = oops_scan pid tab 0 None tab;
          j = (case hit of Some i \<Rightarrow> i | None \<Rightarrow> (case oldest of Some k \<Rightarrow> k | None \<Rightarrow> 0));
          r0 = (case hit of Some i \<Rightarrow> tab ! i
                | None \<Rightarrow> \<lparr>go_pid = pid, go_count = 0, go_window_start = now\<rparr>);
          r = bump now r0
      in if go_count r \<ge> GUARD_OOPS_THRESH then
           g\<lparr>gd_oops := tab[j := r\<lparr>go_count := 0\<rparr>],
             gd_kills := (if gd_mode g \<ge> 1 \<and> found pid then gd_kills g @ [pid] else gd_kills g)\<rparr>
         else g\<lparr>gd_oops := tab[j := r]\<rparr>)"

definition guard_die_notify :: "int \<Rightarrow> (pid_t \<Rightarrow> bool) \<Rightarrow> bool \<Rightarrow> pid_t \<Rightarrow> guard_t \<Rightarrow> guard_t" where
  "guard_die_notify now found is_oops current_pid g =
     (if gd_oops_watch g \<noteq> 0 \<and> is_oops then guard_note_oops now found current_pid g else g)"

definition servecosys_guard_init :: "(string \<Rightarrow> u32) \<Rightarrow> int \<Rightarrow> guard_t" where
  "servecosys_guard_init crc32 now_ms =
     (guard_rebuild_rodata_crc crc32 guard_sentinel guard_load)
       \<lparr>gd_timer := now_ms + GUARD_CRC_INTERVAL * 1000\<rparr>"

section \<open>The table\<close>

lemma oops_scan_hit:
  "fst (oops_scan pid tab i oldest rs) =
     map_option (\<lambda>k. i + k) (index_of (\<lambda>r. go_pid r = pid) rs)"
  by (induction rs arbitrary: i oldest)
    (auto simp: option.map_comp comp_def intro!: option.map_cong split: option.split)

lemma oops_scan_oldest:
  "fst (oops_scan pid tab i oldest rs) = None \<Longrightarrow> (\<And>k. oldest = Some k \<Longrightarrow> k < i) \<Longrightarrow>
   oldest \<noteq> None \<or> rs \<noteq> [] \<Longrightarrow>
   \<exists>k. snd (oops_scan pid tab i oldest rs) = Some k \<and> k < i + length rs"
proof (induction rs arbitrary: i oldest)
  case (Cons r rs)
  define o' where "o' = (case oldest of None \<Rightarrow> Some i
      | Some k \<Rightarrow> if go_window_start r < go_window_start (tab ! k) then Some i else Some k)"
  have ne: "go_pid r \<noteq> pid" using Cons.prems(1) by auto
  have o': "o' \<noteq> None" "\<And>k. o' = Some k \<Longrightarrow> k < i + 1"
    using Cons.prems(2) by (auto simp: o'_def less_Suc_eq split: option.splits if_splits)
  have "fst (oops_scan pid tab (i + 1) o' rs) = None" using Cons.prems(1) ne by (simp add: o'_def)
  from Cons.IH [OF this o'(2)] o'(1) ne show ?case by (simp add: o'_def)
qed auto

text \<open>The slot an oops of \<open>pid\<close> goes to, and the record it starts from.\<close>

definition slot :: "pid_t \<Rightarrow> guard_t \<Rightarrow> nat" where
  "slot pid g =
     (case oops_scan pid (gd_oops g) 0 None (gd_oops g) of
        (Some i, _) \<Rightarrow> i | (None, Some k) \<Rightarrow> k | (None, None) \<Rightarrow> 0)"

definition start_rec :: "int \<Rightarrow> pid_t \<Rightarrow> guard_t \<Rightarrow> guard_oops_rec" where
  "start_rec now pid g =
     (case index_of (\<lambda>r. go_pid r = pid) (gd_oops g) of
        Some i \<Rightarrow> gd_oops g ! i
      | None \<Rightarrow> \<lparr>go_pid = pid, go_count = 0, go_window_start = now\<rparr>)"

lemma slot_bound: "gd_oops g \<noteq> [] \<Longrightarrow> slot pid g < length (gd_oops g)"
proof -
  assume ne: "gd_oops g \<noteq> []"
  obtain h k where s: "oops_scan pid (gd_oops g) 0 None (gd_oops g) = (h, k)" by force
  show ?thesis
  proof (cases h)
    case (Some i)
    then have "index_of (\<lambda>r. go_pid r = pid) (gd_oops g) = Some i"
      using s oops_scan_hit [of pid "gd_oops g" 0 None "gd_oops g"]
      by (cases "index_of (\<lambda>r. go_pid r = pid) (gd_oops g)") auto
    with s Some show ?thesis by (auto simp: slot_def dest: index_of_SomeD)
  next
    case None
    with s ne oops_scan_oldest [of pid "gd_oops g" 0 None "gd_oops g"] show ?thesis
      by (auto simp: slot_def)
  qed
qed

lemma note_oops_eq:
  "guard_note_oops now found pid g =
     (let r = bump now (start_rec now pid g) in
      if go_count r \<ge> 8 then
        g\<lparr>gd_oops := (gd_oops g)[slot pid g := r\<lparr>go_count := 0\<rparr>],
          gd_kills := (if gd_mode g \<ge> 1 \<and> found pid then gd_kills g @ [pid] else gd_kills g)\<rparr>
      else g\<lparr>gd_oops := (gd_oops g)[slot pid g := r]\<rparr>)"
proof -
  obtain h k where s: "oops_scan pid (gd_oops g) 0 None (gd_oops g) = (h, k)" by force
  then have h: "h = index_of (\<lambda>r. go_pid r = pid) (gd_oops g)"
    using oops_scan_hit [of pid "gd_oops g" 0 None "gd_oops g"]
    by (cases "index_of (\<lambda>r. go_pid r = pid) (gd_oops g)") auto
  show ?thesis
    by (cases h; cases k)
      (simp_all add: guard_note_oops_def s slot_def start_rec_def Let_def GUARD_OOPS_THRESH_def
        flip: h)
qed

lemma slot_hit: "index_of (\<lambda>r. go_pid r = pid) (gd_oops g) = Some i \<Longrightarrow> slot pid g = i"
  using oops_scan_hit [of pid "gd_oops g" 0 None "gd_oops g"]
  by (cases "oops_scan pid (gd_oops g) 0 None (gd_oops g)") (auto simp: slot_def)

lemma bump_pid [simp]: "go_pid (bump now r) = go_pid r"
  by (simp add: bump_def Let_def)

lemma start_rec_pid [simp]: "go_pid (start_rec now pid g) = pid"
  by (auto simp: start_rec_def dest: index_of_SomeD split: option.split)

definition guard_inv :: "guard_t \<Rightarrow> bool" where
  "guard_inv g \<longleftrightarrow>
     length (gd_oops g) = 32 \<and> (\<forall>r \<in> set (gd_oops g). go_count r < 8) \<and>
     distinct (filter (\<lambda>p. p \<noteq> 0) (map go_pid (gd_oops g)))"

lemma guard_inv_load: "guard_inv guard_load"
  by (simp add: guard_inv_def guard_load_def)


lemma distinct_filter_update:
  "distinct (filter P xs) \<Longrightarrow> y \<notin> set xs \<Longrightarrow> distinct (filter P (xs[j := y]))"
proof (induction xs arbitrary: j)
  case (Cons x xs)
  have sub: "set (filter P (xs[i := y])) \<subseteq> insert y (set (filter P xs))" for i
    using set_update_subset_insert [of xs i y] by auto
  show ?case
  proof (cases j)
    case 0
    with Cons.prems show ?thesis by (auto split: if_splits)
  next
    case (Suc i)
    with Cons sub [of i] show ?thesis by (auto split: if_splits)
  qed
qed simp

lemma note_pids:
  assumes "length (gd_oops g) = 32"
  shows "map go_pid (gd_oops (guard_note_oops now found pid g)) = (map go_pid (gd_oops g))[slot pid g := pid]"
  by (simp add: note_oops_eq Let_def map_update)

lemma guard_inv_note:
  assumes "guard_inv g"
  shows "guard_inv (guard_note_oops now found pid g)"
proof -
  let ?g = "guard_note_oops now found pid g"
  have len: "length (gd_oops ?g) = 32" using assms by (simp add: guard_inv_def note_oops_eq Let_def)
  define r where "r = bump now (start_rec now pid g)"
  have "set (gd_oops ?g) \<subseteq> insert (if go_count r \<ge> 8 then r\<lparr>go_count := 0\<rparr> else r) (set (gd_oops g))"
    using set_update_subset_insert [of "gd_oops g" "slot pid g"]
    by (auto simp: note_oops_eq Let_def simp flip: r_def)
  then have cnt: "\<forall>r \<in> set (gd_oops ?g). go_count r < 8"
    using assms by (auto simp: guard_inv_def split: if_splits)
  have "distinct (filter (\<lambda>p. p \<noteq> 0) ((map go_pid (gd_oops g))[slot pid g := pid]))"
  proof (cases "index_of (\<lambda>r. go_pid r = pid) (gd_oops g)")
    case None
    then have "pid \<notin> set (map go_pid (gd_oops g))" by (auto simp: index_of_None)
    with assms show ?thesis by (intro distinct_filter_update) (simp_all add: guard_inv_def)
  next
    case (Some i)
    then have "slot pid g = i" "map go_pid (gd_oops g) ! i = pid"
      by (auto simp: slot_hit dest: index_of_SomeD)
    then have "(map go_pid (gd_oops g))[slot pid g := pid] = map go_pid (gd_oops g)"
      using list_update_id [of "map go_pid (gd_oops g)" i] by simp
    with assms show ?thesis by (simp add: guard_inv_def)
  qed
  with len cnt show ?thesis using assms note_pids [of g now found pid] by (simp add: guard_inv_def)
qed

section \<open>One process crashing again and again\<close>

text \<open>The record of \<open>pid\<close>, when it has one.\<close>

lemma first_index_update:
  assumes "index_of (\<lambda>r. go_pid r = pid) tab = None" "j < length tab" "go_pid r = pid"
  shows "index_of (\<lambda>r. go_pid r = pid) (tab[j := r]) = Some j"
  using assms
proof (induction tab arbitrary: j)
  case (Cons x xs)
  then show ?case by (cases j) (auto split: if_splits)
qed simp

lemma note_entry:
  assumes "length (gd_oops g) = 32"
  shows "index_of (\<lambda>r. go_pid r = pid) (gd_oops (guard_note_oops now found pid g)) = Some (slot pid g) \<and>
         gd_oops (guard_note_oops now found pid g) ! slot pid g =
           (let r = bump now (start_rec now pid g) in if go_count r \<ge> 8 then r\<lparr>go_count := 0\<rparr> else r)"
proof -
  let ?r = "bump now (start_rec now pid g)"
  let ?r' = "if go_count ?r \<ge> 8 then ?r\<lparr>go_count := 0\<rparr> else ?r"
  have tab: "gd_oops (guard_note_oops now found pid g) = (gd_oops g)[slot pid g := ?r']"
    by (simp add: note_oops_eq Let_def)
  have ne: "gd_oops g \<noteq> []" using assms by auto
  have j: "slot pid g < length (gd_oops g)" using slot_bound [OF ne] .
  have "index_of (\<lambda>r. go_pid r = pid) ((gd_oops g)[slot pid g := ?r']) = Some (slot pid g)"
  proof (cases "index_of (\<lambda>r. go_pid r = pid) (gd_oops g)")
    case None
    then show ?thesis using j by (intro first_index_update) auto
  next
    case (Some i)
    then have "slot pid g = i" "go_pid (gd_oops g ! i) = pid" "i < length (gd_oops g)"
      by (auto simp: slot_hit dest: index_of_SomeD)
    with Some index_of_key_update [of i "gd_oops g" go_pid ?r' pid] show ?thesis by simp
  qed
  with tab j show ?thesis by (simp add: Let_def)
qed

text \<open>
  After \<open>n\<close> oopses of a process that was not in the table, all within one window, its record counts
  \<open>n mod 8\<close> and it has been killed \<open>n div 8\<close> times.
\<close>

lemma storm_run:
  fixes found :: "pid_t \<Rightarrow> bool"
  assumes "length (gd_oops g) = 32" "index_of (\<lambda>r. go_pid r = pid) (gd_oops g) = None"
    and "\<forall>t \<in> set ts. t0 \<le> t \<and> (t - t0) div 1000000 \<le> 300000"
  defines "run \<equiv> fold (\<lambda>t. guard_note_oops t found pid) (t0 # ts) g"
  shows "gd_kills run = gd_kills g @ (if gd_mode g \<ge> 1 \<and> found pid then replicate ((length ts + 1) div 8) pid else []) \<and>
         gd_mode run = gd_mode g \<and> length (gd_oops run) = 32 \<and>
         start_rec t pid run = \<lparr>go_pid = pid, go_count = (length ts + 1) mod 8, go_window_start = t0\<rparr>"
  using assms(3) unfolding run_def
proof (induction ts arbitrary: t rule: rev_induct)
  case Nil
  have r: "bump t0 (start_rec t0 pid g) = \<lparr>go_pid = pid, go_count = 1, go_window_start = t0\<rparr>"
    using assms(2) by (simp add: bump_def start_rec_def GUARD_OOPS_WINDOW_def Let_def)
  show ?case using note_entry [OF assms(1), of pid t0 found] assms(1) r
    by (simp add: start_rec_def) (simp add: note_oops_eq Let_def r)
next
  case (snoc u ts)
  let ?g = "fold (\<lambda>t. guard_note_oops t found pid) (t0 # ts) g"
  let ?n = "length ts + 1"
  have ih: "gd_kills ?g = gd_kills g @ (if gd_mode g \<ge> 1 \<and> found pid then replicate (?n div 8) pid else [])"
    "gd_mode ?g = gd_mode g" "length (gd_oops ?g) = 32"
    "start_rec u pid ?g = \<lparr>go_pid = pid, go_count = ?n mod 8, go_window_start = t0\<rparr>"
    using snoc.IH [of u] snoc.prems by simp_all
  have r: "bump u (start_rec u pid ?g) = \<lparr>go_pid = pid, go_count = ?n mod 8 + 1, go_window_start = t0\<rparr>"
    using snoc.prems unfolding ih(4) by (simp add: bump_def Let_def GUARD_OOPS_WINDOW_def)
  have fold: "fold (\<lambda>t. guard_note_oops t found pid) (t0 # ts @ [u]) g = guard_note_oops u found pid ?g"
    by simp
  have entry: "start_rec t pid (guard_note_oops u found pid ?g) =
      (let r = bump u (start_rec u pid ?g) in if go_count r \<ge> 8 then r\<lparr>go_count := 0\<rparr> else r)"
    using note_entry [OF ih(3), of pid u found] by (simp add: start_rec_def)
  show ?case
  proof (cases "?n mod 8 = 7")
    case True
    then have d: "(?n + 1) mod 8 = 0" "(?n + 1) div 8 = ?n div 8 + 1" by presburger+
    have nx: "guard_note_oops u found pid ?g = ?g\<lparr>gd_oops := (gd_oops ?g)[slot pid ?g :=
        \<lparr>go_pid = pid, go_count = 0, go_window_start = t0\<rparr>],
        gd_kills := (if gd_mode ?g \<ge> 1 \<and> found pid then gd_kills ?g @ [pid] else gd_kills ?g)\<rparr>"
      unfolding note_oops_eq r Let_def using True by simp
    have e: "start_rec t pid (guard_note_oops u found pid ?g) = \<lparr>go_pid = pid, go_count = 0, go_window_start = t0\<rparr>"
      unfolding entry r Let_def using True by simp
    show ?thesis unfolding fold e unfolding nx using ih(1-3) d
      by (simp add: replicate_append_same)
  next
    case False
    then have d: "(?n + 1) mod 8 = ?n mod 8 + 1" "(?n + 1) div 8 = ?n div 8" "?n mod 8 + 1 < 8" by presburger+
    have nx: "guard_note_oops u found pid ?g = ?g\<lparr>gd_oops := (gd_oops ?g)[slot pid ?g :=
        \<lparr>go_pid = pid, go_count = ?n mod 8 + 1, go_window_start = t0\<rparr>]\<rparr>"
      unfolding note_oops_eq r Let_def using d(3) by simp
    have e: "start_rec t pid (guard_note_oops u found pid ?g) = \<lparr>go_pid = pid, go_count = ?n mod 8 + 1, go_window_start = t0\<rparr>"
      unfolding entry r Let_def using d(3) by simp
    show ?thesis unfolding fold e unfolding nx using ih(1-3) d by simp
  qed
qed


section \<open>Properties\<close>

type_synonym die_event = "int \<times> (pid_t \<Rightarrow> bool) \<times> bool \<times> pid_t"

fun die_step :: "die_event \<Rightarrow> guard_t \<Rightarrow> guard_t" where
  "die_step (now, found, is_oops, pid) g = guard_die_notify now found is_oops pid g"

lemma guard_inv_die: "guard_inv g \<Longrightarrow> guard_inv (die_step ev g)"
  by (cases ev) (simp add: guard_die_notify_def guard_inv_note)

lemma guard_inv_run: "guard_inv g \<Longrightarrow> guard_inv (fold die_step evs g)"
  by (induction evs arbitrary: g) (simp_all add: guard_inv_die)

lemma guard_inv_init: "guard_inv (servecosys_guard_init crc32 now)"
  using guard_inv_load by (simp add: servecosys_guard_init_def guard_rebuild_rodata_crc_def guard_inv_def)

text \<open>
  The oops table.  After every sequence of die notifications the table has its 32 records,
  no two of them for the same process, and every counter is below the threshold.
\<close>

lemma guard_table_invariant:
  "length (gd_oops (fold die_step evs (servecosys_guard_init crc32 now))) = 32 \<and>
   distinct (filter (\<lambda>p. p \<noteq> 0) (map go_pid (gd_oops (fold die_step evs (servecosys_guard_init crc32 now))))) \<and>
   list_all (\<lambda>r. go_count r < 8) (gd_oops (fold die_step evs (servecosys_guard_init crc32 now)))"
  using guard_inv_run [OF guard_inv_init, of evs crc32 now]
  by (simp add: guard_inv_def list_all_iff)



text \<open>
  The blind spot of fixed windows.  Thirteen oopses within two seconds, six at the end of
  one window and seven at the start of the next, raise no alarm and kill nobody, although eight within
  300 seconds is the stated threshold.
\<close>

theorem oops_window_blind_spot:
  "gd_kills (fold (\<lambda>t. guard_note_oops (t * 1000000) (\<lambda>_. True) 77)
     [0, 299000, 299100, 299200, 299300, 299400, 299500,
      300001, 300100, 300200, 300300, 300400, 300500, 300600] guard_load) = []"
  by code_simp

text \<open>
  Tamper alarms.  With whatever checksum function, every timer tick that finds the sentinel
  with another checksum than at load raises one alarm, every other tick none; in the default mode the
  guard never panics.
\<close>

theorem rodata_alarms:
  "gd_alarms (fold (\<lambda>(now, rodata). guard_timer_fn crc32 rodata now) ticks (servecosys_guard_init crc32 now0)) =
     length (filter (\<lambda>(now, rodata). crc32 rodata \<noteq> crc32 guard_sentinel) ticks) \<and>
   \<not> gd_panic (fold (\<lambda>(now, rodata). guard_timer_fn crc32 rodata now) ticks (servecosys_guard_init crc32 now0))"
proof -
  have "gd_alarms (fold (\<lambda>(now, rodata). guard_timer_fn crc32 rodata now) ticks g) =
      gd_alarms g + length (filter (\<lambda>(now, rodata). crc32 rodata \<noteq> gd_base_crc g) ticks) \<and>
    \<not> gd_panic (fold (\<lambda>(now, rodata). guard_timer_fn crc32 rodata now) ticks g)"
    if "gd_rodata_check g = 1" "gd_mode g = 1" "\<not> gd_panic g" for g
    using that
  proof (induction ticks arbitrary: g)
    case (Cons tick ticks)
    obtain now rodata where tick: "tick = (now, rodata)" by force
    let ?g = "guard_timer_fn crc32 rodata now g"
    have "gd_rodata_check ?g = 1" "gd_mode ?g = 1" "\<not> gd_panic ?g" "gd_base_crc ?g = gd_base_crc g"
      "gd_alarms ?g = gd_alarms g + (if crc32 rodata \<noteq> gd_base_crc g then 1 else 0)"
      using Cons.prems by (auto simp: guard_timer_fn_def guard_rodata_tampered_def)
    with Cons.IH [of ?g] show ?case by (simp add: tick)
  qed simp
  from this [of "servecosys_guard_init crc32 now0"] show ?thesis
    by (simp add: servecosys_guard_init_def guard_rebuild_rodata_crc_def guard_load_def)
qed

end
