(* ===== verification/Guard_Module.thy ===== *)
theory Guard_Module
  imports Guard
begin

text \<open>
  The guard as a kernel module: the hook table, the sysctl table, loading and unloading of
  \<open>kernel/modules/guard/guard.c\<close>, and the kernel's calls into it.  What the kernel keeps of the module is a
  record: the security hooks, the sysctl header, the pending timer and the die notifier.
\<close>

section \<open>Tables\<close>

definition KERNEL_VERSION :: "nat \<Rightarrow> nat \<Rightarrow> nat \<Rightarrow> nat" where
  "KERNEL_VERSION a b c = a * 65536 + b * 256 + c"

datatype guard_hook = Hook_capable | Hook_task_fix_setuid

definition guard_hooks :: "nat \<Rightarrow> guard_hook list" where
  "guard_hooks version =
     (if version \<ge> KERNEL_VERSION 4 7 0 then [Hook_capable] else []) @
     (if version \<ge> KERNEL_VERSION 5 3 0 then [Hook_task_fix_setuid] else [])"

datatype guard_var = Var_mode | Var_deny_setuid | Var_rodata_check | Var_oops_watch

record ctl_table =
  ct_procname :: string
  ct_data :: guard_var
  ct_maxlen :: nat
  ct_mode :: nat

definition guard_sysctl_table :: "ctl_table list" where
  "guard_sysctl_table =
     [\<lparr>ct_procname = ''mode'', ct_data = Var_mode, ct_maxlen = 4, ct_mode = 420\<rparr>,
      \<lparr>ct_procname = ''deny_setuid'', ct_data = Var_deny_setuid, ct_maxlen = 4, ct_mode = 420\<rparr>,
      \<lparr>ct_procname = ''rodata_check'', ct_data = Var_rodata_check, ct_maxlen = 4, ct_mode = 420\<rparr>,
      \<lparr>ct_procname = ''oops_watch'', ct_data = Var_oops_watch, ct_maxlen = 4, ct_mode = 420\<rparr>]"

text \<open>\<open>proc_dointvec\<close>: the written integer is stored as it is.\<close>

fun guard_set :: "guard_var \<Rightarrow> int \<Rightarrow> guard_t \<Rightarrow> guard_t" where
  "guard_set Var_mode v g = g\<lparr>gd_mode := v\<rparr>"
| "guard_set Var_deny_setuid v g = g\<lparr>gd_deny_setuid := v\<rparr>"
| "guard_set Var_rodata_check v g = g\<lparr>gd_rodata_check := v\<rparr>"
| "guard_set Var_oops_watch v g = g\<lparr>gd_oops_watch := v\<rparr>"

definition sysctl_write :: "string \<Rightarrow> int \<Rightarrow> guard_t \<Rightarrow> guard_t" where
  "sysctl_write name v g =
     (case index_of (\<lambda>t. ct_procname t = name) guard_sysctl_table of
        None \<Rightarrow> g
      | Some i \<Rightarrow> guard_set (ct_data (guard_sysctl_table ! i)) v g)"

section \<open>Loading and unloading\<close>

record guard_sys =
  gs_guard :: guard_t
  gs_hooks :: "guard_hook list"
  gs_sysctl :: bool
  gs_timer :: bool
  gs_notifier :: bool
  gs_loaded :: bool

text \<open>
  \<open>header\<close> tells whether the kernel returned a header for the table; by either of the two registration calls its
  entries appear below \<open>guard\<close>.
\<close>

definition guard_module_init :: "nat \<Rightarrow> bool \<Rightarrow> (string \<Rightarrow> u32) \<Rightarrow> int \<Rightarrow> int \<times> guard_sys" where
  "guard_module_init version header crc32 now_ms =
     (0, \<lparr>gs_guard = servecosys_guard_init crc32 now_ms, gs_hooks = guard_hooks version,
          gs_sysctl = header,
          gs_timer = True, gs_notifier = True, gs_loaded = True\<rparr>)"

definition servecosys_guard_exit :: "guard_sys \<Rightarrow> guard_sys" where
  "servecosys_guard_exit s = s\<lparr>gs_sysctl := False, gs_notifier := False, gs_timer := False, gs_loaded := False\<rparr>"

section \<open>The kernel's calls\<close>

datatype kernel_call =
    Call_die int "pid_t \<Rightarrow> bool" bool pid_t
  | Call_tick string int
  | Call_setuid kcred kcred
  | Call_capable "kcred option" int
  | Call_write string int
  | Call_exit

datatype verdict = Verdict int | Unloaded_code

text \<open>
  A hook that is registered is called, also after its module has gone; a check without a hook is left to the other
  security modules.
\<close>

definition hook_call :: "guard_hook \<Rightarrow> int \<Rightarrow> guard_sys \<Rightarrow> verdict" where
  "hook_call h answer s =
     (if h \<notin> set (gs_hooks s) then Verdict 0 else if gs_loaded s then Verdict answer else Unloaded_code)"

fun guard_call :: "(string \<Rightarrow> u32) \<Rightarrow> kernel_call \<Rightarrow> guard_sys \<Rightarrow> verdict option \<times> guard_sys" where
  "guard_call crc32 (Call_die now found is_oops pid) s =
     (None, if gs_notifier s then s\<lparr>gs_guard := guard_die_notify now found is_oops pid (gs_guard s)\<rparr> else s)"
| "guard_call crc32 (Call_tick rodata now_ms) s =
     (None, if gs_timer s then s\<lparr>gs_guard := guard_timer_fn crc32 rodata now_ms (gs_guard s)\<rparr> else s)"
| "guard_call crc32 (Call_setuid new old) s =
     (Some (hook_call Hook_task_fix_setuid (guard_task_fix_setuid new old (gs_guard s)) s), s)"
| "guard_call crc32 (Call_capable cred cap) s =
     (Some (hook_call Hook_capable (guard_capable cred cap (gs_guard s)) s), s)"
| "guard_call crc32 (Call_write name v) s =
     (None, if gs_sysctl s then s\<lparr>gs_guard := sysctl_write name v (gs_guard s)\<rparr> else s)"
| "guard_call crc32 Call_exit s = (None, if gs_loaded s then servecosys_guard_exit s else s)"

definition guard_run :: "(string \<Rightarrow> u32) \<Rightarrow> kernel_call list \<Rightarrow> guard_sys \<Rightarrow> guard_sys" where
  "guard_run crc32 cs s = fold (\<lambda>c s. snd (guard_call crc32 c s)) cs s"

section \<open>The policy\<close>

text \<open>The last value written to a name, if any.\<close>

fun last_write :: "string \<Rightarrow> kernel_call list \<Rightarrow> int \<Rightarrow> int" where
  "last_write name [] v = v"
| "last_write name (Call_write n w # cs) v = last_write name cs (if n = name then w else v)"
| "last_write name (_ # cs) v = last_write name cs v"

lemma sysctl_write_policy:
  "gd_mode (sysctl_write name v g) = (if name = ''mode'' then v else gd_mode g)"
  "gd_deny_setuid (sysctl_write name v g) = (if name = ''deny_setuid'' then v else gd_deny_setuid g)"
  by (auto simp: sysctl_write_def guard_sysctl_table_def)

lemma die_policy [simp]:
  "gd_mode (guard_die_notify now found is_oops pid g) = gd_mode g"
  "gd_deny_setuid (guard_die_notify now found is_oops pid g) = gd_deny_setuid g"
  by (simp_all add: guard_die_notify_def note_oops_eq Let_def)

lemma timer_policy [simp]:
  "gd_mode (guard_timer_fn crc32 rodata now g) = gd_mode g"
  "gd_deny_setuid (guard_timer_fn crc32 rodata now g) = gd_deny_setuid g"
  by (simp_all add: guard_timer_fn_def guard_rodata_tampered_def)

lemma guard_call_loaded:
  fixes crc32 :: "string \<Rightarrow> u32"
  assumes "c \<noteq> Call_exit" "gs_loaded s" "gs_sysctl s"
  defines "s' \<equiv> snd (guard_call crc32 c s)"
  shows "gs_loaded s'" "gs_sysctl s'" "gs_hooks s' = gs_hooks s"
    "gd_mode (gs_guard s') = last_write ''mode'' [c] (gd_mode (gs_guard s))"
    "gd_deny_setuid (gs_guard s') = last_write ''deny_setuid'' [c] (gd_deny_setuid (gs_guard s))"
  unfolding s'_def using assms(1-3) by (cases c; auto simp: sysctl_write_policy)+

lemma last_write_Cons: "last_write name (c # cs) v = last_write name cs (last_write name [c] v)"
  by (cases c) simp_all

lemma guard_run_policy:
  fixes crc32 :: "string \<Rightarrow> u32"
  assumes "Call_exit \<notin> set cs" "gs_loaded s" "gs_sysctl s"
  defines "s' \<equiv> guard_run crc32 cs s"
  shows "gs_loaded s' \<and> gs_hooks s' = gs_hooks s \<and>
    gd_mode (gs_guard s') = last_write ''mode'' cs (gd_mode (gs_guard s)) \<and>
    gd_deny_setuid (gs_guard s') = last_write ''deny_setuid'' cs (gd_deny_setuid (gs_guard s))"
  unfolding s'_def using assms(1-3)
proof (induction cs arbitrary: s)
  case (Cons c cs)
  let ?s = "snd (guard_call crc32 c s)"
  have "c \<noteq> Call_exit" using Cons.prems(1) by auto
  note step = guard_call_loaded [OF this Cons.prems(2,3), of crc32]
  have "guard_run crc32 (c # cs) s = guard_run crc32 cs ?s" by (simp add: guard_run_def)
  moreover have "Call_exit \<notin> set cs" using Cons.prems(1) by simp
  ultimately show ?case
    using Cons.IH [OF _ step(1,2)] step(3-5) last_write_Cons [of _ c cs] by simp
qed (simp add: guard_run_def)

text \<open>
  Claim C37.  The guard's policy over a whole run.  On a kernel of version 5.3 or later, from loading on and through any
  sequence of oopses, timer ticks, hook calls and sysctl writes, a process none of whose three user ids is root that
  turns to user id 0 is refused exactly when the last value written to \<open>mode\<close> is at least 1 and the last one written to
  \<open>deny_setuid\<close> is not 0, both being 1 before the first write; a process that has a root id is never refused.
\<close>

theorem setuid_policy:
  assumes "version \<ge> KERNEL_VERSION 5 3 0" "Call_exit \<notin> set cs" "kc_uid new = 0"
  shows "fst (guard_call crc32 (Call_setuid new old)
      (guard_run crc32 cs (snd (guard_module_init version True crc32 now)))) =
    Some (Verdict (if last_write ''mode'' cs 1 \<ge> 1 \<and> last_write ''deny_setuid'' cs 1 \<noteq> 0 \<and>
        0 \<notin> {kc_uid old, kc_euid old, kc_suid old} then - EPERM else 0))"
proof -
  let ?s = "snd (guard_module_init version True crc32 now)"
  have s: "gs_loaded ?s" "gs_sysctl ?s" "Hook_task_fix_setuid \<in> set (gs_hooks ?s)"
    "gd_mode (gs_guard ?s) = 1" "gd_deny_setuid (gs_guard ?s) = 1"
    using assms(1) by (simp_all add: guard_module_init_def guard_hooks_def servecosys_guard_init_def
        guard_rebuild_rodata_crc_def guard_load_def)
  show ?thesis
    using guard_run_policy [OF assms(2) s(1,2), of crc32] s(3-5) assms(3)
    by (auto simp: hook_call_def guard_task_fix_setuid_def)
qed

theorem setuid_policy_witness:
  "fst (guard_call (\<lambda>s. 0)
      (Call_setuid \<lparr>kc_uid = 0, kc_euid = 0, kc_suid = 0, kc_cap_sys_admin = True\<rparr>
         \<lparr>kc_uid = 1000, kc_euid = 1000, kc_suid = 1000, kc_cap_sys_admin = False\<rparr>)
      (guard_run (\<lambda>s. 0) [Call_write ''mode'' 0, Call_tick ''x'' 10, Call_write ''mode'' 2]
         (snd (guard_module_init (KERNEL_VERSION 6 6 0) True (\<lambda>s. 0) 0)))) = Some (Verdict (- EPERM))"
  using setuid_policy [of "KERNEL_VERSION 6 6 0" "[Call_write ''mode'' 0, Call_tick ''x'' 10, Call_write ''mode'' 2]"
      "\<lparr>kc_uid = 0, kc_euid = 0, kc_suid = 0, kc_cap_sys_admin = True\<rparr>" "\<lambda>s. 0"
      "\<lparr>kc_uid = 1000, kc_euid = 1000, kc_suid = 1000, kc_cap_sys_admin = False\<rparr>" 0]
  by (simp add: KERNEL_VERSION_def)

text \<open>Before 5.3 the setuid hook is not compiled in and nothing is refused.\<close>

lemma setuid_unchecked:
  "version < KERNEL_VERSION 5 3 0 \<Longrightarrow>
   fst (guard_call crc32 (Call_setuid new old) (snd (guard_module_init version header crc32 now))) = Some (Verdict 0)"
  by (simp add: guard_module_init_def guard_hooks_def hook_call_def)

text \<open>
  Unloading takes back the table, the notifier and the timer but not the hooks: the next change of user ids calls code
  that is no longer there.
\<close>

lemma unload_leaves_hooks:
  "version \<ge> KERNEL_VERSION 5 3 0 \<Longrightarrow>
   fst (guard_call crc32 (Call_setuid new old)
     (guard_run crc32 [Call_exit] (snd (guard_module_init version header crc32 now)))) = Some Unloaded_code"
  by (simp add: guard_run_def guard_module_init_def guard_hooks_def hook_call_def servecosys_guard_exit_def)

lemma unload_silences:
  "\<not> gs_loaded s \<Longrightarrow> \<not> gs_sysctl s \<Longrightarrow> \<not> gs_timer s \<Longrightarrow> \<not> gs_notifier s \<Longrightarrow> guard_run crc32 cs s = s"
proof (induction cs)
  case (Cons c cs)
  then have "snd (guard_call crc32 c s) = s" by (cases c) simp_all
  with Cons show ?case by (simp add: guard_run_def)
qed (simp add: guard_run_def)

end
