(* ===== verification/Ipc_Lib.thy ===== *)
theory Ipc_Lib
  imports Prelude
begin

text \<open>
  The two IPC libraries, \<open>backend/deps/ipc/ipc.c\<close> and \<open>frontend/deps/ipc/ipc.c\<close>: local sockets that carry
  fixed-size messages.  A small model of the socket calls says which descriptor is listening or connected;
  whether a call on a fitting descriptor succeeds, and how many bytes it moves, is a parameter.  Calls that
  release a descriptor or remove a path are recorded.  The definitions of the front end have the prefix
  \<open>fe_\<close>.
\<close>

section \<open>Sockets\<close>

datatype sock_kind = Sock_new | Sock_listening | Sock_connected

record sock_env =
  se_socket :: int
  se_bind :: "string \<Rightarrow> bool"
  se_listen :: bool
  se_connect :: "string \<Rightarrow> bool"
  se_accept :: int
  se_write :: "nat \<Rightarrow> nat \<Rightarrow> int"
  se_read :: "nat \<Rightarrow> nat \<Rightarrow> u8 list"

record sock_state =
  ss_kind :: "int \<Rightarrow> sock_kind option"
  ss_closed :: "int list"
  ss_unlinked :: "string list"
  ss_chmod :: "(string \<times> nat) list"

definition sys_close :: "int \<Rightarrow> sock_state \<Rightarrow> sock_state" where
  "sys_close fd k = k\<lparr>ss_kind := (ss_kind k)(fd := None), ss_closed := ss_closed k @ [fd]\<rparr>"

definition sys_unlink :: "string \<Rightarrow> sock_state \<Rightarrow> sock_state" where
  "sys_unlink path k = k\<lparr>ss_unlinked := ss_unlinked k @ [path]\<rparr>"

definition sys_socket :: "sock_env \<Rightarrow> sock_state \<Rightarrow> int \<times> sock_state" where
  "sys_socket env k =
     (if se_socket env < 0 then (-1, k)
      else (se_socket env, k\<lparr>ss_kind := (ss_kind k)(se_socket env \<mapsto> Sock_new)\<rparr>))"

text \<open>Only a listening descriptor accepts, only a connected one is written or read.\<close>

definition sys_accept :: "sock_env \<Rightarrow> int \<Rightarrow> sock_state \<Rightarrow> int" where
  "sys_accept env fd k = (if ss_kind k fd = Some Sock_listening then se_accept env else -1)"

definition sys_write :: "sock_env \<Rightarrow> int \<Rightarrow> nat \<Rightarrow> nat \<Rightarrow> sock_state \<Rightarrow> int" where
  "sys_write env fd tot n k = (if ss_kind k fd = Some Sock_connected then se_write env tot n else -1)"

section \<open>The back end\<close>

datatype ipc_error_t = IPC_OK | IPC_ERR_CREATE | IPC_ERR_BIND | IPC_ERR_CONNECT | IPC_ERR_SEND
  | IPC_ERR_RECV | IPC_ERR_TIMEOUT | IPC_ERR_INVAL

definition IPC_PATH_MAX :: nat where "IPC_PATH_MAX = 108"
definition IPC_MAX_MSG :: nat where "IPC_MAX_MSG = 65536"
definition IPC_MAGIC :: u32 where "IPC_MAGIC = 1229996833"

record lib_message_t =
  ip_magic :: u32
  ip_type :: u32
  ip_seq :: u32
  ip_sender_pid :: u32
  ip_target_pid :: u32
  ip_payload_len :: u64
  ip_payload :: "u8 list"

record ipc_channel_t =
  ch_fd :: int
  ch_path :: string
  ch_is_server :: int

definition ipc_server_create ::
  "sock_env \<Rightarrow> string option \<Rightarrow> ipc_channel_t \<Rightarrow> sock_state \<Rightarrow> ipc_error_t \<times> ipc_channel_t \<times> sock_state" where
  "ipc_server_create env path ch k =
     (case path of
        None \<Rightarrow> (IPC_ERR_INVAL, ch, k)
      | Some p \<Rightarrow>
          (let (fd, k) = sys_socket env (sys_unlink p k); ch = ch\<lparr>ch_fd := fd\<rparr> in
           if fd < 0 then (IPC_ERR_CREATE, ch, k)
           else if \<not> se_bind env (fit 108 p) then (IPC_ERR_BIND, ch, sys_close fd k)
           else
             (let k = k\<lparr>ss_chmod := ss_chmod k @ [(p, 432)]\<rparr>;
                  ch = ch\<lparr>ch_path := fit IPC_PATH_MAX p, ch_is_server := 1\<rparr>
              in if \<not> se_listen env then (IPC_ERR_CREATE, ch, sys_close fd k)
                 else (IPC_OK, ch, k\<lparr>ss_kind := (ss_kind k)(fd \<mapsto> Sock_listening)\<rparr>))))"

definition ipc_client_connect ::
  "sock_env \<Rightarrow> string option \<Rightarrow> ipc_channel_t \<Rightarrow> sock_state \<Rightarrow> ipc_error_t \<times> ipc_channel_t \<times> sock_state" where
  "ipc_client_connect env path ch k =
     (case path of
        None \<Rightarrow> (IPC_ERR_INVAL, ch, k)
      | Some p \<Rightarrow>
          (let (fd, k) = sys_socket env k; ch = ch\<lparr>ch_fd := fd\<rparr> in
           if fd < 0 then (IPC_ERR_CREATE, ch, k)
           else if \<not> se_connect env (fit 108 p) then (IPC_ERR_CONNECT, ch, sys_close fd k)
           else (IPC_OK, ch\<lparr>ch_path := fit IPC_PATH_MAX p, ch_is_server := 0\<rparr>,
                 k\<lparr>ss_kind := (ss_kind k)(fd \<mapsto> Sock_connected)\<rparr>)))"

text \<open>The bytes of a message in memory: little-endian fields, and padding before the 64-bit length.\<close>

definition le32 :: "u32 \<Rightarrow> u8 list" where
  "le32 w = map (\<lambda>i. ucast (drop_bit (8 * i) w)) [0..<4]"

definition le64 :: "u64 \<Rightarrow> u8 list" where
  "le64 w = map (\<lambda>i. ucast (drop_bit (8 * i) w)) [0..<8]"

definition message_bytes :: "lib_message_t \<Rightarrow> u8 list" where
  "message_bytes m = le32 (ip_magic m) @ le32 (ip_type m) @ le32 (ip_seq m) @ le32 (ip_sender_pid m) @
     le32 (ip_target_pid m) @ [0, 0, 0, 0] @ le64 (ip_payload_len m) @ ip_payload m"

definition sizeof_message :: nat where "sizeof_message = 65568"

definition ipc_send :: "sock_env \<Rightarrow> ipc_channel_t \<Rightarrow> sock_state \<Rightarrow> ipc_error_t" where
  "ipc_send env ch k =
     (if ch_fd ch < 0 then IPC_ERR_INVAL
      else if sys_write env (ch_fd ch) 0 sizeof_message k < 0 then IPC_ERR_SEND
      else IPC_OK)"

text \<open>One \<open>read\<close> into the caller's message, whose other bytes stay.\<close>

definition ipc_recv ::
  "sock_env \<Rightarrow> ipc_channel_t \<Rightarrow> u8 list \<Rightarrow> sock_state \<Rightarrow> ipc_error_t \<times> u8 list \<times> sock_state" where
  "ipc_recv env ch msg k =
     (if ch_fd ch < 0 then (IPC_ERR_INVAL, msg, k)
      else let client_fd = sys_accept env (ch_fd ch) k in
        if client_fd < 0 then (IPC_ERR_RECV, msg, k)
        else let got = take sizeof_message (se_read env 0 sizeof_message);
                 k = sys_close client_fd k
             in if got = [] then (IPC_ERR_RECV, msg, k)
                else (IPC_OK, got @ drop (length got) msg, k))"

definition ipc_send_recv ::
  "sock_env \<Rightarrow> ipc_channel_t \<Rightarrow> u8 list \<Rightarrow> sock_state \<Rightarrow> ipc_error_t \<times> u8 list \<times> sock_state" where
  "ipc_send_recv env ch resp k =
     (let err = ipc_send env ch k in
      if err \<noteq> IPC_OK then (err, resp, k) else ipc_recv env ch resp k)"

definition ipc_close :: "ipc_channel_t \<Rightarrow> sock_state \<Rightarrow> ipc_channel_t \<times> sock_state" where
  "ipc_close ch k =
     (\<lparr>ch_fd = -1, ch_path = [], ch_is_server = 0\<rparr>,
      if ch_fd ch \<ge> 0
      then let k = sys_close (ch_fd ch) k in if ch_is_server ch \<noteq> 0 then sys_unlink (ch_path ch) k else k
      else k)"

definition ipc_msg_init :: "u32 \<Rightarrow> u32 \<Rightarrow> lib_message_t" where
  "ipc_msg_init ty pid =
     \<lparr>ip_magic = IPC_MAGIC, ip_type = ty, ip_seq = 0, ip_sender_pid = pid, ip_target_pid = 0,
      ip_payload_len = 0, ip_payload = replicate IPC_MAX_MSG 0\<rparr>"

section \<open>The front end\<close>

record fe_message =
  fm_type :: u32
  fm_seq :: u32
  fm_sender_pid :: u32
  fm_payload_len :: u64
  fm_payload :: "u8 list"

definition FE_IPC_MAX_MSG :: nat where "FE_IPC_MAX_MSG = 4096"
definition fe_sizeof_message :: nat where "fe_sizeof_message = 4120"

definition fe_message_bytes :: "fe_message \<Rightarrow> u8 list" where
  "fe_message_bytes m = le32 (fm_type m) @ le32 (fm_seq m) @ le32 (fm_sender_pid m) @ [0, 0, 0, 0] @
     le64 (fm_payload_len m) @ fm_payload m"

definition fe_server_create ::
  "sock_env \<Rightarrow> string option \<Rightarrow> ipc_channel_t \<Rightarrow> sock_state \<Rightarrow> ipc_error_t \<times> ipc_channel_t \<times> sock_state" where
  "fe_server_create env path ch k =
     (case path of
        None \<Rightarrow> (IPC_ERR_CREATE, ch, k)
      | Some p \<Rightarrow>
          (let (fd, k) = sys_socket env (sys_unlink p k); ch = ch\<lparr>ch_fd := fd\<rparr> in
           if fd < 0 then (IPC_ERR_CREATE, ch, k)
           else if \<not> se_bind env (fit 108 p) then (IPC_ERR_BIND, ch, sys_close fd k)
           else
             (let k = k\<lparr>ss_chmod := ss_chmod k @ [(p, 432)]\<rparr>;
                  k = (if se_listen env then k\<lparr>ss_kind := (ss_kind k)(fd \<mapsto> Sock_listening)\<rparr> else k)
              in (IPC_OK, ch\<lparr>ch_path := fit IPC_PATH_MAX p, ch_is_server := 1\<rparr>, k))))"

definition fe_client_connect ::
  "sock_env \<Rightarrow> string option \<Rightarrow> ipc_channel_t \<Rightarrow> sock_state \<Rightarrow> ipc_error_t \<times> ipc_channel_t \<times> sock_state" where
  "fe_client_connect env path ch k =
     (case path of
        None \<Rightarrow> (IPC_ERR_CREATE, ch, k)
      | Some p \<Rightarrow>
          (let (fd, k) = sys_socket env k; ch = ch\<lparr>ch_fd := fd\<rparr> in
           if fd < 0 then (IPC_ERR_CREATE, ch, k)
           else if \<not> se_connect env (fit 108 p) then (IPC_ERR_CONNECT, ch, sys_close fd k)
           else (IPC_OK, ch\<lparr>ch_path := fit IPC_PATH_MAX p, ch_is_server := 0\<rparr>,
                 k\<lparr>ss_kind := (ss_kind k)(fd \<mapsto> Sock_connected)\<rparr>)))"

text \<open>
  The loops that write and read a message in full.  A call is determined by how much has been moved, so
  what the system answers is a function of the offset and the rest; a call that moves nothing ends the
  loop.  The writing loop also returns the bytes that went out.
\<close>

function fe_send_loop :: "(nat \<Rightarrow> nat \<Rightarrow> int) \<Rightarrow> u8 list \<Rightarrow> nat \<Rightarrow> u8 list \<Rightarrow> ipc_error_t \<times> u8 list" where
  "fe_send_loop wr msg tot wire =
     (if tot < length msg then
        (let n = wr tot (length msg - tot) in
         if n \<le> 0 then (IPC_ERR_SEND, wire)
         else fe_send_loop wr msg (tot + nat n) (wire @ take (nat n) (drop tot msg)))
      else (IPC_OK, wire))"
  by pat_completeness auto
termination by (relation "measure (\<lambda>(wr, msg, tot, wire). length msg - tot)") auto

definition fe_ipc_send :: "sock_env \<Rightarrow> ipc_channel_t \<Rightarrow> u8 list \<Rightarrow> sock_state \<Rightarrow> ipc_error_t \<times> u8 list" where
  "fe_ipc_send env ch msg k =
     (if ch_fd ch < 0 then (IPC_ERR_SEND, [])
      else fe_send_loop (\<lambda>tot n. sys_write env (ch_fd ch) tot n k) msg 0 [])"

function fe_recv_loop :: "(nat \<Rightarrow> nat \<Rightarrow> u8 list) \<Rightarrow> nat \<Rightarrow> nat \<Rightarrow> u8 list \<Rightarrow> ipc_error_t \<times> u8 list" where
  "fe_recv_loop rd sz tot msg =
     (if tot < sz then
        (let got = take (sz - tot) (rd tot (sz - tot)) in
         if got = [] then (IPC_ERR_RECV, msg)
         else fe_recv_loop rd sz (tot + length got) (take tot msg @ got @ drop (tot + length got) msg))
      else (IPC_OK, msg))"
  by pat_completeness auto
termination
  by (relation "measure (\<lambda>(rd, sz, tot, msg). sz - tot)")
    (auto simp: min_def length_greater_0_conv [symmetric] simp del: length_greater_0_conv)

declare fe_send_loop.simps [simp del] fe_recv_loop.simps [simp del]

definition fe_ipc_recv ::
  "sock_env \<Rightarrow> ipc_channel_t \<Rightarrow> u8 list \<Rightarrow> sock_state \<Rightarrow> ipc_error_t \<times> u8 list \<times> sock_state" where
  "fe_ipc_recv env ch msg k =
     (if ch_fd ch < 0 then (IPC_ERR_RECV, msg, k)
      else let client_fd = sys_accept env (ch_fd ch) k in
        if client_fd < 0 then (IPC_ERR_RECV, msg, k)
        else let (err, msg') = fe_recv_loop (se_read env) fe_sizeof_message 0 msg in
          (err, msg', sys_close client_fd k))"

definition fe_ipc_close :: "ipc_channel_t \<Rightarrow> sock_state \<Rightarrow> ipc_channel_t \<times> sock_state" where
  "fe_ipc_close ch k =
     (\<lparr>ch_fd = -1, ch_path = [], ch_is_server = 0\<rparr>,
      if ch_fd ch \<ge> 0
      then let k = sys_close (ch_fd ch) k in if ch_is_server ch \<noteq> 0 then sys_unlink (ch_path ch) k else k
      else k)"

section \<open>Transfers\<close>

lemma length_le32 [simp]: "length (le32 w) = 4"
  by (simp add: le32_def)

lemma length_le64 [simp]: "length (le64 w) = 8"
  by (simp add: le64_def)

lemma length_fe_message_bytes: "length (fm_payload m) = FE_IPC_MAX_MSG \<Longrightarrow> length (fe_message_bytes m) = fe_sizeof_message"
  by (simp add: fe_message_bytes_def FE_IPC_MAX_MSG_def fe_sizeof_message_def)

lemma length_message_bytes: "length (ip_payload m) = IPC_MAX_MSG \<Longrightarrow> length (message_bytes m) = sizeof_message"
  by (simp add: message_bytes_def IPC_MAX_MSG_def sizeof_message_def)

lemma fe_send_loop_all:
  "\<forall>t n. 0 < n \<longrightarrow> 0 < wr t n \<and> wr t n \<le> int n \<Longrightarrow> tot \<le> length msg \<Longrightarrow>
   fe_send_loop wr msg tot wire = (IPC_OK, wire @ drop tot msg)"
proof (induction wr msg tot wire rule: fe_send_loop.induct)
  case (1 wr msg tot wire)
  show ?case
  proof (cases "tot < length msg")
    case True
    define n where "n = nat (wr tot (length msg - tot))"
    have "0 < wr tot (length msg - tot)" "wr tot (length msg - tot) \<le> int (length msg - tot)"
      using 1(2) True zero_less_diff [of "length msg" tot] by blast+
    then have n: "0 < n" "n \<le> length msg - tot" "\<not> wr tot (length msg - tot) \<le> 0"
      by (auto simp: n_def)
    have "take n (drop tot msg) @ drop (tot + n) msg = drop tot msg"
      by (metis add.commute append_take_drop_id drop_drop)
    with 1(1) [OF True refl n(3) 1(2)] n True show ?thesis
      by (subst fe_send_loop.simps) (simp add: Let_def flip: n_def)
  qed (use 1 in \<open>simp add: fe_send_loop.simps\<close>)
qed

text \<open>A reader that is handed the bytes of a stream in pieces of at least one byte.\<close>

definition stream_reader :: "(nat \<Rightarrow> nat) \<Rightarrow> u8 list \<Rightarrow> nat \<Rightarrow> nat \<Rightarrow> u8 list" where
  "stream_reader piece wire tot n = take (Suc (piece tot)) (drop tot wire)"

lemma fe_recv_loop_all:
  assumes "tot \<le> sz" "sz \<le> length wire" "length msg = sz" "take tot msg = take tot wire"
  shows "fe_recv_loop (stream_reader piece wire) sz tot msg = (IPC_OK, take sz wire)"
  using assms
proof (induction "stream_reader piece wire" sz tot msg rule: fe_recv_loop.induct)
  case (1 sz tot msg)
  show ?case
  proof (cases "tot < sz")
    case True
    define n where "n = min (sz - tot) (Suc (piece tot))"
    define got where "got = take (sz - tot) (stream_reader piece wire tot (sz - tot))"
    have got: "got = take n (drop tot wire)" "length got = n" "0 < n" "n \<le> sz - tot"
      using True 1(3) by (auto simp: got_def n_def stream_reader_def)
    have "take (tot + n) (take tot msg @ got @ drop (tot + n) msg) = take (tot + n) wire"
      using got 1(3-5) True by (simp add: take_add)
    moreover have "length (take tot msg @ got @ drop (tot + n) msg) = sz"
      using got 1(4) True by simp
    ultimately have "fe_recv_loop (stream_reader piece wire) sz (tot + n) (take tot msg @ got @ drop (tot + n) msg)
        = (IPC_OK, take sz wire)"
      using 1(1) [OF True got_def] got 1(3) True by (auto simp: got(2))
    then show ?thesis using True got by (subst fe_recv_loop.simps) (auto simp: Let_def simp flip: got_def)
  qed (use 1 in \<open>simp add: fe_recv_loop.simps\<close>)
qed

text \<open>
  Claim C24.  The front end's loops move whole messages: over a connection whose writes each take
  at least one byte and whose reads each deliver at least one, in pieces of any size on either side, sending a message
  and receiving into any buffer of the same size both succeed and the buffer holds the message.
\<close>

theorem fe_transfer:
  assumes "length (fm_payload m) = FE_IPC_MAX_MSG" "length old = fe_sizeof_message"
    "0 \<le> ch_fd tx" "ss_kind k (ch_fd tx) = Some Sock_connected"
    "\<forall>t n. 0 < n \<longrightarrow> 0 < se_write tx_env t n \<and> se_write tx_env t n \<le> int n"
    "0 \<le> ch_fd rx" "ss_kind k' (ch_fd rx) = Some Sock_listening" "0 \<le> se_accept rx_env"
    "se_read rx_env = stream_reader piece (snd (fe_ipc_send tx_env tx (fe_message_bytes m) k))"
  shows "fe_ipc_send tx_env tx (fe_message_bytes m) k = (IPC_OK, fe_message_bytes m) \<and>
    fe_ipc_recv rx_env rx old k' = (IPC_OK, fe_message_bytes m, sys_close (se_accept rx_env) k')"
proof -
  let ?wr = "\<lambda>t n. sys_write tx_env (ch_fd tx) t n k"
  have len: "length (fe_message_bytes m) = fe_sizeof_message" using assms(1) by (rule length_fe_message_bytes)
  have "\<forall>t n. 0 < n \<longrightarrow> 0 < ?wr t n \<and> ?wr t n \<le> int n" using assms(4,5) by (simp add: sys_write_def)
  then have "fe_send_loop ?wr (fe_message_bytes m) 0 [] = (IPC_OK, [] @ drop 0 (fe_message_bytes m))"
    by (rule fe_send_loop_all) simp
  with assms(3) have send: "fe_ipc_send tx_env tx (fe_message_bytes m) k = (IPC_OK, fe_message_bytes m)"
    by (simp add: fe_ipc_send_def)
  have "fe_recv_loop (stream_reader piece (fe_message_bytes m)) fe_sizeof_message 0 old = (IPC_OK, fe_message_bytes m)"
    using fe_recv_loop_all [of 0 fe_sizeof_message "fe_message_bytes m" old piece] len assms(2) by simp
  with send assms(6-9) show ?thesis by (simp add: fe_ipc_recv_def sys_accept_def Let_def)
qed

definition example_env :: "u8 list \<Rightarrow> sock_env" where
  "example_env wire = \<lparr>se_socket = 5, se_bind = \<lambda>p. True, se_listen = True, se_connect = \<lambda>p. True,
     se_accept = 6, se_write = \<lambda>t n. 1, se_read = stream_reader (\<lambda>t. 2) wire\<rparr>"

definition example_message :: fe_message where
  "example_message = \<lparr>fm_type = 3, fm_seq = 1, fm_sender_pid = 7, fm_payload_len = 0,
     fm_payload = replicate FE_IPC_MAX_MSG 0\<rparr>"

definition example_socks :: "sock_kind \<Rightarrow> sock_state" where
  "example_socks kind = \<lparr>ss_kind = [5 \<mapsto> kind], ss_closed = [], ss_unlinked = [], ss_chmod = []\<rparr>"

definition example_channel :: ipc_channel_t where
  "example_channel = \<lparr>ch_fd = 5, ch_path = ''/s'', ch_is_server = 0\<rparr>"

theorem fe_transfer_witness:
  "fe_ipc_recv (example_env (snd (fe_ipc_send (example_env []) example_channel (fe_message_bytes example_message)
      (example_socks Sock_connected)))) example_channel (replicate fe_sizeof_message 255) (example_socks Sock_listening) =
   (IPC_OK, fe_message_bytes example_message, sys_close 6 (example_socks Sock_listening))"
proof -
  let ?w = "snd (fe_ipc_send (example_env []) example_channel (fe_message_bytes example_message) (example_socks Sock_connected))"
  have "fe_ipc_recv (example_env ?w) example_channel (replicate fe_sizeof_message 255) (example_socks Sock_listening) =
      (IPC_OK, fe_message_bytes example_message, sys_close (se_accept (example_env ?w)) (example_socks Sock_listening))"
    by (rule fe_transfer [where tx_env = "example_env []" and tx = example_channel
          and k = "example_socks Sock_connected" and piece = "\<lambda>t. 2", THEN conjunct2])
      (simp_all add: example_env_def example_message_def example_socks_def example_channel_def)
  then show ?thesis by (simp add: example_env_def)
qed

text \<open>A stream that ends early is an error of the front end.\<close>

lemma fe_recv_short:
  "length wire < sz \<Longrightarrow> length msg = sz \<Longrightarrow> tot \<le> length wire \<Longrightarrow>
   fst (fe_recv_loop (stream_reader piece wire) sz tot msg) = IPC_ERR_RECV"
proof (induction "stream_reader piece wire" sz tot msg rule: fe_recv_loop.induct)
  case (1 sz tot msg)
  define got where "got = take (sz - tot) (stream_reader piece wire tot (sz - tot))"
  have tot: "tot < sz" using 1(2,4) by simp
  show ?case
  proof (cases "got = []")
    case True
    with tot show ?thesis by (subst fe_recv_loop.simps) (simp add: Let_def flip: got_def)
  next
    case False
    have "tot + length got \<le> length wire" using 1(4) by (auto simp: got_def stream_reader_def)
    then show ?thesis using 1(1) [OF tot got_def False 1(2)] False tot 1(2,3)
      by (subst fe_recv_loop.simps) (simp add: Let_def flip: got_def)
  qed
qed

text \<open>The back end takes any first piece for a message: the rest of the caller's buffer is stale.\<close>

lemma recv_accepts_short:
  assumes "0 \<le> ch_fd ch" "ss_kind k (ch_fd ch) = Some Sock_listening" "0 \<le> se_accept env"
    "se_read env 0 sizeof_message = got" "got \<noteq> []" "length got \<le> sizeof_message"
  shows "ipc_recv env ch msg k = (IPC_OK, got @ drop (length got) msg, sys_close (se_accept env) k)"
  using assms by (simp add: ipc_recv_def sys_accept_def Let_def)

text \<open>
  The two libraries do not speak the same format: the first word of a front end message, its type, is
  where the back end keeps its magic number.
\<close>

lemma fe_message_has_no_magic:
  "take 4 (fe_message_bytes m) = le32 (fm_type m) \<and> take 4 (message_bytes b) = le32 (ip_magic b)"
  by (simp add: fe_message_bytes_def message_bytes_def)

section \<open>Channels\<close>

definition server_channel :: "ipc_channel_t \<Rightarrow> sock_state \<Rightarrow> bool" where
  "server_channel ch k = (0 \<le> ch_fd ch \<and> ch_is_server ch = 1 \<and> ss_kind k (ch_fd ch) = Some Sock_listening)"

definition client_channel :: "ipc_channel_t \<Rightarrow> sock_state \<Rightarrow> bool" where
  "client_channel ch k = (0 \<le> ch_fd ch \<and> ch_is_server ch = 0 \<and> ss_kind k (ch_fd ch) = Some Sock_connected)"

lemma ipc_server_create_ok:
  "ipc_server_create env path ch k = (IPC_OK, ch', k') \<Longrightarrow> server_channel ch' k'"
  by (auto simp: ipc_server_create_def sys_socket_def sys_unlink_def server_channel_def Let_def
      split: option.splits if_splits)

lemma ipc_client_connect_ok:
  "ipc_client_connect env path ch k = (IPC_OK, ch', k') \<Longrightarrow> client_channel ch' k'"
  by (auto simp: ipc_client_connect_def sys_socket_def client_channel_def Let_def
      split: option.splits if_splits)

text \<open>
  Claim C25.  The back end's request-reply call can never succeed: on a channel made by either constructor it
  ends with an error, since it writes to and then accepts on the same descriptor, and a listening descriptor
  cannot be written while a connected one cannot accept.
\<close>

theorem send_recv_never_ok:
  assumes "ipc_server_create env path ch0 k0 = (IPC_OK, ch, k) \<or> ipc_client_connect env path ch0 k0 = (IPC_OK, ch, k)"
  shows "fst (ipc_send_recv env' ch resp k) \<in> {IPC_ERR_SEND, IPC_ERR_RECV} \<and> fst (snd (ipc_send_recv env' ch resp k)) = resp"
proof -
  have "server_channel ch k \<or> client_channel ch k"
    using assms ipc_server_create_ok ipc_client_connect_ok by blast
  then show ?thesis
    by (auto simp: server_channel_def client_channel_def ipc_send_recv_def ipc_send_def ipc_recv_def
        sys_write_def sys_accept_def Let_def)
qed

theorem send_recv_never_ok_witness:
  "fst (ipc_send_recv (example_env [1, 2, 3])
     \<lparr>ch_fd = 5, ch_path = ''/s'', ch_is_server = 0\<rparr> [] (example_socks Sock_connected)) \<in> {IPC_ERR_SEND, IPC_ERR_RECV}"
  using send_recv_never_ok
    [of "example_env []" "Some ''/s''" "\<lparr>ch_fd = -1, ch_path = [], ch_is_server = 0\<rparr>"
        "\<lparr>ss_kind = (\<lambda>d. None), ss_closed = [], ss_unlinked = [], ss_chmod = []\<rparr>"
        "\<lparr>ch_fd = 5, ch_path = ''/s'', ch_is_server = 0\<rparr>" "example_socks Sock_connected" "example_env [1, 2, 3]" "[]"]
  by (simp add: ipc_client_connect_def sys_socket_def example_env_def example_socks_def IPC_PATH_MAX_def)

text \<open>
  The error paths of the back end release the descriptor but leave its number in the channel, so closing the
  channel afterwards releases the number a second time.
\<close>

lemma failed_bind_double_close:
  assumes "0 \<le> se_socket env" "\<not> se_bind env (fit 108 p)" "ch_is_server ch = 0"
    "ipc_server_create env (Some p) ch k = (err, ch', k')"
  shows "err = IPC_ERR_BIND \<and> ss_closed (snd (ipc_close ch' k')) = ss_closed k @ [se_socket env, se_socket env]"
  using assms by (auto simp: ipc_server_create_def sys_socket_def sys_unlink_def sys_close_def ipc_close_def Let_def)

lemma ipc_close_idle: "fst (ipc_close ch k) = ch' \<Longrightarrow> snd (ipc_close ch' k') = k'"
  by (auto simp: ipc_close_def)

end
