(* ===== verification/Arbiter_Server.thy ===== *)
theory Arbiter_Server
  imports Arbiter_Safety Ipc_Lib Number_Text
begin

text \<open>
  The arbiter's side of its socket: the set-up of \<open>backend/sub_kernel/permission_arbiter.c\<close>, the layout of
  requests and responses in memory, and the loops that read a request and write a response in full, around the
  request handling of \<open>Arbiter\<close>.  The client's side is \<open>request_arbiter\<close> of \<open>system_manager.c\<close>.
\<close>

section \<open>Bytes\<close>

definition i32_bytes :: "int \<Rightarrow> u8 list" where
  "i32_bytes i = le32 (word_of_int i)"

definition le_value :: "u8 list \<Rightarrow> nat" where
  "le_value bs = foldr (\<lambda>b v. unat b + 256 * v) bs 0"

definition i32_of :: "u8 list \<Rightarrow> int" where
  "i32_of bs = sint (of_nat (le_value bs) :: u32)"

definition char_byte :: "char \<Rightarrow> u8" where
  "char_byte c = of_nat (of_char c)"

definition byte_char :: "u8 \<Rightarrow> char" where
  "byte_char b = char_of (unat b)"

text \<open>A \<open>char\<close> array of \<open>n\<close> bytes that holds a string, zero behind its end.\<close>

definition char_field :: "nat \<Rightarrow> string \<Rightarrow> u8 list" where
  "char_field n s = map char_byte s @ replicate (n - length s) 0"

definition field_string :: "u8 list \<Rightarrow> string" where
  "field_string bs = cstr (map byte_char bs)"

definition sizeof_request :: nat where "sizeof_request = 336"
definition sizeof_response :: nat where "sizeof_response = 140"

definition encode_request :: "perm_request_t \<Rightarrow> u8 list" where
  "encode_request r = i32_bytes (rq_type r) @ i32_bytes (rq_pid r) @ i32_bytes (rq_target_level r) @
     char_field 64 (rq_capability r) @ char_field 256 (rq_resource r) @ i32_bytes (rq_request_id r)"

definition decode_request :: "u8 list \<Rightarrow> perm_request_t" where
  "decode_request bs =
     \<lparr>rq_type = i32_of (take 4 bs), rq_pid = i32_of (take 4 (drop 4 bs)),
      rq_target_level = i32_of (take 4 (drop 8 bs)), rq_capability = field_string (take 64 (drop 12 bs)),
      rq_resource = field_string (take 256 (drop 76 bs)), rq_request_id = i32_of (take 4 (drop 332 bs))\<rparr>"

definition encode_response :: "perm_response_t \<Rightarrow> u8 list" where
  "encode_response r = i32_bytes (rs_status r) @ i32_bytes (rs_current_level r) @ i32_bytes (rs_request_id r) @
     char_field 128 (rs_reason r)"

definition decode_response :: "u8 list \<Rightarrow> perm_response_t" where
  "decode_response bs =
     \<lparr>rs_status = i32_of (take 4 bs), rs_current_level = i32_of (take 4 (drop 4 bs)),
      rs_request_id = i32_of (take 4 (drop 8 bs)), rs_reason = field_string (take 128 (drop 12 bs))\<rparr>"

section \<open>The server\<close>

definition ARBITER_SOCK_PATH :: string where "ARBITER_SOCK_PATH = ''/var/run/servecosys_perm.sock''"

definition setup_ipc_socket :: "sock_env \<Rightarrow> sock_state \<Rightarrow> int \<times> sock_state" where
  "setup_ipc_socket env k =
     (let (sock, k) = sys_socket env (sys_unlink ARBITER_SOCK_PATH k) in
      if sock < 0 then (-1, k)
      else if \<not> se_bind env ARBITER_SOCK_PATH then (-1, sys_close sock k)
      else let k = k\<lparr>ss_chmod := ss_chmod k @ [(ARBITER_SOCK_PATH, 432)]\<rparr> in
        if \<not> se_listen env then (-1, sys_close sock k)
        else (sock, k\<lparr>ss_kind := (ss_kind k)(sock \<mapsto> Sock_listening)\<rparr>))"

text \<open>The loops of \<open>main\<close>: a read that delivers nothing abandons the request, a write that moves nothing the response.\<close>

function read_full :: "(nat \<Rightarrow> nat \<Rightarrow> u8 list) \<Rightarrow> nat \<Rightarrow> u8 list \<Rightarrow> u8 list option" where
  "read_full rd sz acc =
     (if length acc < sz then
        (let got = take (sz - length acc) (rd (length acc) (sz - length acc)) in
         if got = [] then None else read_full rd sz (acc @ got))
      else Some acc)"
  by pat_completeness auto
termination
  by (relation "measure (\<lambda>(rd, sz, acc). sz - length acc)")
    (auto simp: min_def length_greater_0_conv [symmetric] simp del: length_greater_0_conv)

function write_full :: "(nat \<Rightarrow> nat \<Rightarrow> int) \<Rightarrow> u8 list \<Rightarrow> nat \<Rightarrow> u8 list \<Rightarrow> u8 list" where
  "write_full wr msg tot wire =
     (if tot < length msg then
        (let n = wr tot (length msg - tot) in
         if n \<le> 0 then wire
         else write_full wr msg (tot + nat n) (wire @ take (nat n) (drop tot msg)))
      else wire)"
  by pat_completeness auto
termination by (relation "measure (\<lambda>(wr, msg, tot, wire). length msg - tot)") auto

declare read_full.simps [simp del] write_full.simps [simp del]

text \<open>One client: what its connection delivers and takes, and what is sent back.\<close>

definition arbiter_turn ::
  "os_view \<Rightarrow> pid_t option \<Rightarrow> (nat \<Rightarrow> nat \<Rightarrow> u8 list) \<Rightarrow> (nat \<Rightarrow> nat \<Rightarrow> int) \<Rightarrow> arbiter_t \<Rightarrow> u8 list \<times> arbiter_t" where
  "arbiter_turn os cred rd wr st =
     (case read_full rd sizeof_request [] of
        None \<Rightarrow> ([], st)
      | Some bytes \<Rightarrow>
          (let (resp, st') = handle_request os (decode_request bytes) (get_peer_pid cred) (reap_dead_processes os st)
           in (write_full wr (encode_response resp) 0 [], st')))"

text \<open>\<open>main\<close> up to the loop: the exit code, or the socket and the table it serves.\<close>

definition arbiter_boot ::
  "os_view \<Rightarrow> pid_t \<Rightarrow> sock_env \<Rightarrow> sock_state \<Rightarrow> (int + int \<times> arbiter_t) \<times> sock_state" where
  "arbiter_boot os self env k =
     (let st = arbiter_start os self; (sock, k) = setup_ipc_socket env k in
      if sock < 0 then (Inl 1, k) else (Inr (sock, st), k))"

text \<open>The accept loop: an interrupted \<open>accept\<close> is repeated, any other failure ends the loop.\<close>

datatype 'c accepted = Client 'c | Interrupted | Failed

fun arbiter_loop ::
  "(os_view \<times> pid_t option \<times> (nat \<Rightarrow> nat \<Rightarrow> u8 list) \<times> (nat \<Rightarrow> nat \<Rightarrow> int)) accepted list \<Rightarrow> arbiter_t \<Rightarrow>
   u8 list list \<times> arbiter_t" where
  "arbiter_loop [] st = ([], st)"
| "arbiter_loop (Interrupted # as) st = arbiter_loop as st"
| "arbiter_loop (Failed # as) st = ([], st)"
| "arbiter_loop (Client (os, cred, rd, wr) # as) st =
     (let (out, st1) = arbiter_turn os cred rd wr st; (outs, st2) = arbiter_loop as st1 in (out # outs, st2))"

definition arbiter_main ::
  "os_view \<Rightarrow> pid_t \<Rightarrow> sock_env \<Rightarrow>
   (os_view \<times> pid_t option \<times> (nat \<Rightarrow> nat \<Rightarrow> u8 list) \<times> (nat \<Rightarrow> nat \<Rightarrow> int)) accepted list \<Rightarrow>
   sock_state \<Rightarrow> int \<times> sock_state \<times> u8 list list \<times> arbiter_t" where
  "arbiter_main os self env as k =
     (case arbiter_boot os self env k of
        (Inl rc, k1) \<Rightarrow> (rc, k1, [], arbiter_start os self)
      | (Inr (sock, st), k1) \<Rightarrow>
          (0, sys_unlink ''/var/run/permission_arbiter.pid'' (sys_unlink ARBITER_SOCK_PATH (sys_close sock k1)),
           arbiter_loop as st))"

section \<open>The loops\<close>

lemma read_full_stream:
  "length acc \<le> length wire \<Longrightarrow> take (length acc) wire = acc \<Longrightarrow> length acc \<le> sz \<Longrightarrow>
   read_full (stream_reader piece wire) sz acc = (if sz \<le> length wire then Some (take sz wire) else None)"
proof (induction "stream_reader piece wire" sz acc rule: read_full.induct)
  case (1 sz acc)
  show ?case
  proof (cases "length acc < sz")
    case True
    define got where "got = take (sz - length acc) (stream_reader piece wire (length acc) (sz - length acc))"
    define n where "n = min (sz - length acc) (Suc (piece (length acc)))"
    have got: "got = take n (drop (length acc) wire)" by (simp add: got_def n_def stream_reader_def)
    have n: "0 < n" "n \<le> sz - length acc" using True by (auto simp: n_def)
    show ?thesis
    proof (cases "length acc = length wire")
      case eof: True
      then have "got = []" by (simp add: got)
      with eof True show ?thesis by (subst read_full.simps) (simp add: Let_def got_def)
    next
      case False
      with 1(2) have "got \<noteq> []" using n(1) by (simp add: got)
      moreover have "take (length (acc @ got)) wire = acc @ got"
        using 1(3) by (simp add: got take_add min_def)
      moreover have "length (acc @ got) \<le> sz" "length (acc @ got) \<le> length wire"
        using 1(2) n by (auto simp: got min_def)
      ultimately show ?thesis using 1(1) [OF True got_def] True
        by (subst read_full.simps) (simp add: Let_def flip: got_def)
    qed
  next
    case False
    with 1(2-4) show ?thesis by (subst read_full.simps) auto
  qed
qed

text \<open>The writing loop is the one of the front end's library without its result.\<close>

lemma write_full_loop: "write_full wr msg tot wire = snd (fe_send_loop wr msg tot wire)"
proof (induction wr msg tot wire rule: write_full.induct)
  case (1 wr msg tot wire)
  show ?case
  proof (cases "tot < length msg \<and> \<not> wr tot (length msg - tot) \<le> 0")
    case True
    with 1 [of "wr tot (length msg - tot)"] show ?thesis
      by (subst write_full.simps, subst fe_send_loop.simps) (simp add: Let_def)
  next
    case False
    then show ?thesis by (subst write_full.simps, subst fe_send_loop.simps) (auto simp: Let_def)
  qed
qed

lemma write_full_all:
  "\<forall>t n. 0 < n \<longrightarrow> 0 < wr t n \<and> wr t n \<le> int n \<Longrightarrow> write_full wr msg 0 [] = msg"
  by (simp add: write_full_loop fe_send_loop_all)

section \<open>The layout\<close>

lemma le_value_Cons [simp]: "le_value (b # bs) = unat b + 256 * le_value bs"
  by (simp add: le_value_def)

lemma le_value_Nil [simp]: "le_value [] = 0"
  by (simp add: le_value_def)

lemma le_value_append: "le_value (xs @ ys) = le_value xs + 256 ^ length xs * le_value ys"
  by (induction xs) (simp_all add: algebra_simps)

lemma unat_byte: "unat (ucast (drop_bit k w) :: u8) = unat w div 2 ^ k mod 256" for w :: "'a::len word"
  by (simp add: unsigned_ucast_eq unat_drop_bit_eq take_bit_eq_mod) (simp add: drop_bit_eq_div)

lemma le_value_bytes_of: "le_value (map (\<lambda>i. ucast (drop_bit (8 * i) w)) [0..<n]) = unat w mod 2 ^ (8 * n)"
  for w :: "'a::len word"
proof (induction n)
  case (Suc n)
  have "unat w mod 2 ^ (8 * Suc n) = unat w mod (2 ^ (8 * n) * 256)" by (simp add: power_add mult.commute)
  also have "\<dots> = 2 ^ (8 * n) * (unat w div 2 ^ (8 * n) mod 256) + unat w mod 2 ^ (8 * n)" by (rule mod_mult2_eq)
  finally show ?case using Suc by (simp add: le_value_append unat_byte power_mult)
qed simp

lemma le32_value: "le_value (le32 w) = unat w"
  unfolding le32_def le_value_bytes_of using unsigned_less [of w, where ?'a = nat] by simp

lemma le64_value: "le_value (le64 w) = unat w"
  unfolding le64_def le_value_bytes_of using unsigned_less [of w, where ?'a = nat] by simp

lemma i32_of_bytes: "c_int i \<Longrightarrow> i32_of (i32_bytes i) = i"
  by (simp add: i32_of_def i32_bytes_def le32_value c_int_def sint_sbintrunc' signed_take_bit_int_eq_self)

lemma length_i32_bytes [simp]: "length (i32_bytes i) = 4"
  by (simp add: i32_bytes_def)

lemma byte_char_byte [simp]: "byte_char (char_byte c) = c"
proof -
  have "of_char c < (256 :: nat)" by (rule nat_of_char_less_256)
  then show ?thesis by (simp add: byte_char_def char_byte_def unat_of_nat)
qed

definition c_string :: "nat \<Rightarrow> string \<Rightarrow> bool" where
  "c_string n s = (length s < n \<and> NUL \<notin> set s)"

lemma length_char_field: "c_string n s \<Longrightarrow> length (char_field n s) = n"
  by (simp add: char_field_def c_string_def)

lemma field_string_char_field: "c_string n s \<Longrightarrow> field_string (char_field n s) = s"
proof -
  assume s: "c_string n s"
  then obtain k where "n - length s = Suc k" by (cases "n - length s") (auto simp: c_string_def)
  moreover have "byte_char 0 = NUL" by (simp add: byte_char_def char_of_def)
  moreover have "map (byte_char \<circ> char_byte) s = s" by (rule map_idI) simp
  ultimately show ?thesis using s
    by (simp add: field_string_def char_field_def cstr_def c_string_def takeWhile_append takeWhile_eq_all_conv)
qed

definition request_ok :: "perm_request_t \<Rightarrow> bool" where
  "request_ok r = (c_int (rq_type r) \<and> c_int (rq_pid r) \<and> c_int (rq_target_level r) \<and> c_int (rq_request_id r) \<and>
     c_string 64 (rq_capability r) \<and> c_string 256 (rq_resource r))"

definition response_ok :: "perm_response_t \<Rightarrow> bool" where
  "response_ok r = (c_int (rs_status r) \<and> c_int (rs_current_level r) \<and> c_int (rs_request_id r) \<and>
     c_string 128 (rs_reason r))"

lemma decode_encode_request: "request_ok r \<Longrightarrow> decode_request (encode_request r) = r"
  by (simp add: request_ok_def decode_request_def encode_request_def i32_of_bytes length_char_field field_string_char_field)

lemma length_encode_request: "request_ok r \<Longrightarrow> length (encode_request r) = sizeof_request"
  by (simp add: request_ok_def encode_request_def sizeof_request_def length_char_field)

lemma decode_encode_response: "response_ok r \<Longrightarrow> decode_response (encode_response r) = r"
  by (simp add: response_ok_def decode_response_def encode_response_def i32_of_bytes length_char_field field_string_char_field)

lemma length_encode_response: "response_ok r \<Longrightarrow> length (encode_response r) = sizeof_response"
  by (simp add: response_ok_def encode_response_def sizeof_response_def length_char_field)

section \<open>Responses fit their structure\<close>

lemma NUL_dec [simp]: "NUL \<notin> set (dec i)"
proof -
  have "\<not> is_digit NUL" by (simp add: is_digit_def)
  then show ?thesis using dec_nat_digits by (auto simp: dec_def split: if_splits)
qed

lemma NUL_level_name [simp]: "NUL \<notin> set (arb_level_name l)"
  by (simp add: arb_level_name_def)

lemma response_okI:
  "c_int status \<Longrightarrow> c_int level \<Longrightarrow> c_int rid \<Longrightarrow> NUL \<notin> set reason \<Longrightarrow> response_ok (response status level rid reason)"
  using set_fit_subset [of 128 reason] by (auto simp: response_ok_def response_def c_string_def)

lemma c_int_small [simp]: "c_int 0" "c_int (-1)" "c_int (to_s32 i)"
  using to_s32_range by (simp_all add: c_int_def)

lemma handle_request_response_ok:
  assumes "request_ok req"
  shows "response_ok (fst (handle_request os req peer st))"
proof (cases "request_type_of (rq_type req)")
  case None
  with assms show ?thesis by (simp add: handle_request_def request_ok_def response_okI)
next
  case (Some ty)
  note [simp] = handle_request_def response_okI
  show ?thesis using assms Some
    by (cases ty)
      (simp_all add: request_ok_def handle_check_def handle_get_level_def query_denied_def handle_set_level_def
        handle_register_manager_def handle_authorize_def Let_def split: prod.split)
qed

section \<open>The loop is the model of the arbiter\<close>

text \<open>The clients of a loop as events of the arbiter: what each delivers, decoded when it is a whole request.\<close>

fun loop_events ::
  "(os_view \<times> pid_t option \<times> (nat \<Rightarrow> nat \<Rightarrow> u8 list) \<times> (nat \<Rightarrow> nat \<Rightarrow> int)) accepted list \<Rightarrow> arb_event list" where
  "loop_events [] = []"
| "loop_events (Interrupted # as) = loop_events as"
| "loop_events (Failed # as) = []"
| "loop_events (Client (os, cred, rd, wr) # as) =
     (os, map_option decode_request (read_full rd sizeof_request []), cred) # loop_events as"

lemma arbiter_turn_serves:
  "snd (arbiter_turn os cred rd wr st) =
     snd (serve_client os (map_option decode_request (read_full rd sizeof_request [])) cred st)"
  by (simp add: arbiter_turn_def serve_client_def Let_def split: option.split prod.split)

lemma arbiter_loop_events: "snd (arbiter_loop as st) = fold arb_step (loop_events as) st"
proof (induction as st rule: arbiter_loop.induct)
  case (4 os cred rd wr as st)
  obtain out st1 where turn: "arbiter_turn os cred rd wr st = (out, st1)" by force
  with arbiter_turn_serves [of os cred rd wr st] 4 [OF refl, of out st1]
  show ?case by (auto split: prod.splits)
qed simp_all


definition demo_client ::
  "arb_event \<Rightarrow> (os_view \<times> pid_t option \<times> (nat \<Rightarrow> nat \<Rightarrow> u8 list) \<times> (nat \<Rightarrow> nat \<Rightarrow> int)) accepted" where
  "demo_client = (\<lambda>(os, got, cred). Client (os, cred,
     stream_reader (\<lambda>t. 9) (case got of None \<Rightarrow> [] | Some r \<Rightarrow> encode_request r), \<lambda>t n. 1))"

lemma read_encoded:
  "request_ok r \<Longrightarrow> read_full (stream_reader piece (encode_request r)) sizeof_request [] = Some (encode_request r)"
  using read_full_stream [of "[]" "encode_request r" sizeof_request piece] by (simp add: length_encode_request)

lemma demo_requests_ok: "c_int code \<Longrightarrow> c_int pid \<Longrightarrow> c_int l \<Longrightarrow> request_ok (demo_req code pid l)"
  by (simp add: request_ok_def demo_req_def c_string_def) (simp add: c_int_def)

lemma demo_loop_events: "loop_events (Interrupted # map demo_client demo_events) = demo_events"
  by (simp add: demo_events_def demo_client_def read_encoded decode_encode_request demo_requests_ok c_int_def)


text \<open>
  Claim C13.  A request and its answer survive the connection.  A client that sends a request whose fields fit its
  structure, in pieces of any size, is served exactly that request; the bytes sent back are as many as
  a response has, and a client that reads them in pieces of any size finds the response the arbiter gave.
\<close>

theorem wire_exchange:
  assumes "request_ok req" "\<forall>t n. 0 < n \<longrightarrow> 0 < wr t n \<and> wr t n \<le> int n"
  shows "\<exists>resp st' bytes. serve_client os (Some req) cred st = (Some resp, st') \<and>
    arbiter_turn os cred (stream_reader piece (encode_request req)) wr st = (bytes, st') \<and>
    length bytes = sizeof_response \<and>
    map_option decode_response (read_full (stream_reader piece' bytes) sizeof_response []) = Some resp"
proof -
  obtain resp st' where h: "handle_request os req (get_peer_pid cred) (reap_dead_processes os st) = (resp, st')" by force
  with handle_request_response_ok [OF assms(1), of os "get_peer_pid cred" "reap_dead_processes os st"]
  have ok: "response_ok resp" by simp
  have "arbiter_turn os cred (stream_reader piece (encode_request req)) wr st = (encode_response resp, st')"
    using assms h by (simp add: arbiter_turn_def read_encoded decode_encode_request write_full_all)
  moreover have "serve_client os (Some req) cred st = (Some resp, st')" using h by (simp add: serve_client_def)
  moreover have "read_full (stream_reader piece' (encode_response resp)) sizeof_response [] = Some (encode_response resp)"
    using read_full_stream [of "[]" "encode_response resp" sizeof_response piece'] ok
    by (simp add: length_encode_response)
  ultimately show ?thesis using ok decode_encode_response length_encode_response by fastforce
qed

theorem wire_exchange_witness:
  "\<exists>resp st' bytes. serve_client demo_os (Some (demo_req 5 30 8)) (Some 20) demo_state = (Some resp, st') \<and>
    arbiter_turn demo_os (Some 20) (stream_reader (\<lambda>t. 4) (encode_request (demo_req 5 30 8))) (\<lambda>t n. 1) demo_state = (bytes, st') \<and>
    length bytes = sizeof_response \<and>
    map_option decode_response (read_full (stream_reader (\<lambda>t. 0) bytes) sizeof_response []) = Some resp"
  by (rule wire_exchange) (simp_all add: demo_requests_ok c_int_def)

lemma handle_request_id: "rs_request_id (fst (handle_request os req peer st)) = rq_request_id req"
  by (auto simp: handle_request_def handle_check_def handle_get_level_def query_denied_def handle_set_level_def
      handle_register_manager_def handle_authorize_def response_def Let_def
      split: prod.split option.split request_type_t.split)

text \<open>
  Claim C16.  Responses are well-formed: for a request whose fields fit its C structure, every response of the arbiter, to any
  peer and in any state, fits the response structure (its numbers are ints and its reason a terminated
  string in 128 bytes) and carries the number of the request.
\<close>

theorem responses_fit_structure:
  assumes "request_ok req"
  shows "case fst (serve_client os (Some req) cred st) of
    None \<Rightarrow> False | Some resp \<Rightarrow> response_ok resp \<and> rs_request_id resp = rq_request_id req"
  using handle_request_response_ok [OF assms] handle_request_id
  by (simp add: serve_client_def Let_def split: prod.split) (metis fst_conv)

theorem responses_fit_structure_witness:
  "case fst (serve_client demo_os (Some (demo_req 5 30 8)) (Some 20) demo_state) of
    None \<Rightarrow> False | Some resp \<Rightarrow> response_ok resp \<and> rs_request_id resp = rq_request_id (demo_req 5 30 8)"
  by (rule responses_fit_structure) (simp add: demo_requests_ok c_int_def)

text \<open>A client that stops early changes nothing and is not answered.\<close>

lemma truncated_request_ignored:
  "length wire < sizeof_request \<Longrightarrow> arbiter_turn os cred (stream_reader piece wire) wr st = ([], st)"
  using read_full_stream [of "[]" wire sizeof_request piece] by (simp add: arbiter_turn_def)

text \<open>A failed set-up keeps no descriptor; a successful one listens.\<close>

lemma setup_ipc_socket_result:
  assumes "ss_kind k (se_socket env) = None" "setup_ipc_socket env k = (sock, k')"
  shows "(0 \<le> sock \<and> ss_kind k' = (ss_kind k)(sock \<mapsto> Sock_listening)) \<or> (sock = -1 \<and> ss_kind k' = ss_kind k)"
  using assms by (auto simp: setup_ipc_socket_def sys_socket_def sys_unlink_def sys_close_def Let_def fun_eq_iff
      split: if_splits)

end
