(* ===== verification/Display.thy ===== *)
theory Display
  imports Prelude
begin

text \<open>
  Drawing into the frame buffer: the library \<open>frontend/deps/display/display.c\<close> and the display server
  \<open>frontend/ui/display_server.c\<close>.  The mapped memory is a list of bytes; an access outside it is the
  value \<open>None\<close>.  Coordinates are ints whose sums are assumed not to overflow.
\<close>

section \<open>Memory\<close>

definition poke :: "int \<Rightarrow> u8 \<Rightarrow> u8 list \<Rightarrow> u8 list option" where
  "poke a b mem = (if 0 \<le> a \<and> a < int (length mem) then Some (mem[nat a := b]) else None)"

fun pokes :: "(int \<times> u8) list \<Rightarrow> u8 list \<Rightarrow> u8 list option" where
  "pokes [] mem = Some mem"
| "pokes ((a, b) # ws) mem = (case poke a b mem of None \<Rightarrow> None | Some mem' \<Rightarrow> pokes ws mem')"

fun loop :: "('a \<Rightarrow> 's \<Rightarrow> 's option) \<Rightarrow> 'a list \<Rightarrow> 's \<Rightarrow> 's option" where
  "loop f [] s = Some s"
| "loop f (x # xs) s = (case f x s of None \<Rightarrow> None | Some s' \<Rightarrow> loop f xs s')"

definition colour_byte :: "nat \<Rightarrow> u32 \<Rightarrow> u8" where
  "colour_byte k color = ucast (drop_bit (8 * k) color AND 255)"

text \<open>The three or four stores of one pixel.\<close>

definition put_pixel :: "int \<Rightarrow> int \<Rightarrow> u32 \<Rightarrow> u8 list \<Rightarrow> u8 list option" where
  "put_pixel bpp a color =
     pokes ([(a, colour_byte 0 color), (a + 1, colour_byte 1 color), (a + 2, colour_byte 2 color)] @
            (if bpp = 4 then [(a + 3, colour_byte 3 color)] else []))"

definition fill_loop :: "int \<Rightarrow> int \<Rightarrow> int \<Rightarrow> int \<Rightarrow> int \<Rightarrow> int \<Rightarrow> u32 \<Rightarrow> u8 list \<Rightarrow> u8 list option" where
  "fill_loop bpp stride x0 y0 x1 y1 color =
     loop (\<lambda>row. let line = row * stride + x0 * bpp in
              loop (\<lambda>col. put_pixel bpp (line + (col - x0) * bpp) color) [x0..x1 - 1])
       [y0..y1 - 1]"

section \<open>The library\<close>

record display_t =
  dp_fd :: int
  dp_width :: int
  dp_height :: int
  dp_bpp :: int
  dp_stride :: int
  dp_screensize :: nat
  dp_buffer :: "u8 list option"

text \<open>What the frame buffer driver reports, and the memory \<open>mmap\<close> returns.\<close>

record fb_info =
  fi_fd :: int
  fi_xres :: int
  fi_yres :: int
  fi_bits_per_pixel :: int
  fi_line_length :: int
  fi_smem_len :: nat
  fi_map :: "u8 list option"

text \<open>\<open>open\<close> and the two \<open>ioctl\<close>s give \<open>None\<close> together when one of them fails.\<close>

definition display_open :: "(string \<Rightarrow> fb_info option) \<Rightarrow> string \<Rightarrow> display_t option" where
  "display_open dev devpath =
     (case dev devpath of
        None \<Rightarrow> None
      | Some fi \<Rightarrow>
          (case fi_map fi of
             None \<Rightarrow> None
           | Some mem \<Rightarrow> Some
               \<lparr>dp_fd = fi_fd fi, dp_width = to_s32 (fi_xres fi), dp_height = to_s32 (fi_yres fi),
                dp_bpp = to_s32 (fi_bits_per_pixel fi), dp_stride = to_s32 (fi_line_length fi),
                dp_screensize = fi_smem_len fi, dp_buffer = Some mem\<rparr>))"

definition display_close :: display_t where
  "display_close = \<lparr>dp_fd = 0, dp_width = 0, dp_height = 0, dp_bpp = 0, dp_stride = 0, dp_screensize = 0,
     dp_buffer = None\<rparr>"

definition with_buffer :: "display_t \<Rightarrow> (u8 list \<Rightarrow> u8 list option) \<Rightarrow> display_t option" where
  "with_buffer disp f =
     (case dp_buffer disp of
        None \<Rightarrow> Some disp
      | Some mem \<Rightarrow> map_option (\<lambda>mem'. disp\<lparr>dp_buffer := Some mem'\<rparr>) (f mem))"

definition display_fill_rect :: "display_t \<Rightarrow> int \<Rightarrow> int \<Rightarrow> int \<Rightarrow> int \<Rightarrow> u32 \<Rightarrow> display_t option" where
  "display_fill_rect disp x y w h color =
     with_buffer disp (\<lambda>mem.
       let bpp = dp_bpp disp div 8 in
       if bpp \<le> 0 then Some mem
       else
         (let x0 = (if x < 0 then 0 else x); y0 = (if y < 0 then 0 else y);
              x1 = (if x + w > dp_width disp then dp_width disp else x + w);
              y1 = (if y + h > dp_height disp then dp_height disp else y + h)
          in fill_loop bpp (dp_stride disp) x0 y0 x1 y1 color mem))"

definition display_clear :: "display_t \<Rightarrow> u32 \<Rightarrow> display_t option" where
  "display_clear disp color = display_fill_rect disp 0 0 (dp_width disp) (dp_height disp) color"

definition display_draw_pixel :: "display_t \<Rightarrow> int \<Rightarrow> int \<Rightarrow> u32 \<Rightarrow> display_t option" where
  "display_draw_pixel disp x y color =
     with_buffer disp (\<lambda>mem.
       if x < 0 \<or> x \<ge> dp_width disp \<or> y < 0 \<or> y \<ge> dp_height disp then Some mem
       else (let bpp = dp_bpp disp div 8 in put_pixel bpp (y * dp_stride disp + x * bpp) color mem))"

text \<open>
  Changing the mode: \<open>get\<close> and \<open>put\<close> are the two \<open>ioctl\<close>s and \<open>dev\<close> is the driver in the new mode.  As for
  \<open>display_open\<close>, \<open>None\<close> is the result -1.
\<close>

definition display_set_variable ::
  "bool \<Rightarrow> (int \<Rightarrow> int \<Rightarrow> int \<Rightarrow> bool) \<Rightarrow> (int \<Rightarrow> int \<Rightarrow> int \<Rightarrow> string \<Rightarrow> fb_info option) \<Rightarrow>
   display_t \<Rightarrow> int \<Rightarrow> int \<Rightarrow> int \<Rightarrow> display_t option" where
  "display_set_variable get put dev disp width height bpp =
     (if dp_fd disp < 0 then None
      else if \<not> get then None
      else if \<not> put width height bpp then None
      else display_open (dev width height bpp) ''/dev/fb0'')"

text \<open>The new descriptor replaces the old one, which nothing closes.\<close>

lemma display_set_variable_fd:
  "display_set_variable get put dev disp w h b = Some d \<Longrightarrow>
   \<exists>fi. dev w h b ''/dev/fb0'' = Some fi \<and> dp_fd d = fi_fd fi \<and> dp_buffer d = fi_map fi"
  by (auto simp: display_set_variable_def display_open_def split: if_splits option.splits)

section \<open>The server\<close>

text \<open>
  The server's screen: the unsigned fields of the driver, and the buffer.  \<open>x + w > xres\<close> compares an
  \<open>int\<close> with an \<open>unsigned int\<close>, so the sum is converted to unsigned; the result is converted back.
\<close>

record ds_display =
  ds_xres :: int
  ds_yres :: int
  ds_bits_per_pixel :: int
  ds_line_length :: int
  ds_buffer :: "u8 list"

definition ds_fill_rect :: "int \<Rightarrow> int \<Rightarrow> int \<Rightarrow> int \<Rightarrow> u32 \<Rightarrow> ds_display \<Rightarrow> ds_display option" where
  "ds_fill_rect x y w h color ds =
     (let bpp = ds_bits_per_pixel ds div 8 in
      if bpp \<le> 0 then Some ds
      else
        (let x0 = (if x < 0 then 0 else x); y0 = (if y < 0 then 0 else y);
             x1 = to_s32 (if to_u32 (x + w) > ds_xres ds then ds_xres ds else to_u32 (x + w));
             y1 = to_s32 (if to_u32 (y + h) > ds_yres ds then ds_yres ds else to_u32 (y + h))
         in map_option (\<lambda>mem. ds\<lparr>ds_buffer := mem\<rparr>)
              (fill_loop bpp (to_s32 (ds_line_length ds)) x0 y0 x1 y1 color (ds_buffer ds))))"

definition ds_clear :: "u32 \<Rightarrow> ds_display \<Rightarrow> ds_display option" where
  "ds_clear color ds = ds_fill_rect 0 0 (to_s32 (ds_xres ds)) (to_s32 (ds_yres ds)) color ds"

text \<open>The text marks of the status bar: \<open>n\<close> values from \<open>a\<close> in steps of \<open>d\<close>.\<close>

definition steps :: "int \<Rightarrow> int \<Rightarrow> int \<Rightarrow> int list" where
  "steps a d b = map (\<lambda>k. a + d * int k) [0..<nat ((b - a + d - 1) div d)]"

definition render_status_bar :: "ds_display \<Rightarrow> ds_display option" where
  "render_status_bar ds =
     (case ds_fill_rect 0 0 (to_s32 (ds_xres ds)) 32 2105376 ds of
        None \<Rightarrow> None
      | Some ds \<Rightarrow>
          (let bpp = ds_bits_per_pixel ds div 8; stride = to_s32 (ds_line_length ds) in
           map_option (\<lambda>mem. ds\<lparr>ds_buffer := mem\<rparr>)
             (loop (\<lambda>x. loop (\<lambda>y.
                  let pos = y * stride + x * bpp in
                  pokes [(pos, colour_byte 0 16777215), (pos + 1, colour_byte 1 16777215),
                         (pos + 2, colour_byte 2 16777215)]) (steps 8 2 24))
               (steps 10 8 (to_u32 (ds_xres ds - 10))) (ds_buffer ds))))"

section \<open>What filling writes\<close>

lemma pokes_append: "pokes (ws @ vs) mem = Option.bind (pokes ws mem) (pokes vs)"
  by (induction ws mem rule: pokes.induct) (auto split: option.split)

lemma loop_pokes: "(\<And>x. f x = pokes (g x)) \<Longrightarrow> loop f xs mem = pokes (concat (map g xs)) mem"
proof (induction xs arbitrary: mem)
  case (Cons x xs)
  then show ?case by (simp add: pokes_append split: option.split)
qed simp

lemma pokes_result:
  assumes "\<And>a b. (a, b) \<in> set ws \<Longrightarrow> 0 \<le> a \<and> a < int (length mem) \<and> b = val a"
  shows "\<exists>mem'. pokes ws mem = Some mem' \<and> length mem' = length mem \<and>
    (\<forall>i < length mem. mem' ! i = (if int i \<in> fst ` set ws then val (int i) else mem ! i))"
  using assms
proof (induction ws arbitrary: mem)
  case (Cons w ws)
  obtain a b where w: "w = (a, b)" by force
  with Cons.prems have ab: "0 \<le> a" "a < int (length mem)" "b = val a" by auto
  let ?mem = "mem[nat a := b]"
  have "0 \<le> a' \<and> a' < int (length ?mem) \<and> b' = val a'" if "(a', b') \<in> set ws" for a' b'
    using Cons.prems [of a' b'] that by simp
  from Cons.IH [OF this] obtain mem' where m: "pokes ws ?mem = Some mem'" "length mem' = length mem"
    "\<forall>i < length mem. mem' ! i = (if int i \<in> fst ` set ws then val (int i) else ?mem ! i)"
    by auto
  have "mem' ! i = (if int i \<in> fst ` set (w # ws) then val (int i) else mem ! i)" if "i < length mem" for i
    using m(3) that ab w by (auto simp: nth_list_update)
  with m(1,2) ab w show ?case by (auto simp: poke_def)
qed simp

lemma put_pixel_pokes:
  assumes "n = 3 \<or> n = 4"
  shows "put_pixel n a color = pokes (map (\<lambda>k. (a + k, colour_byte (nat k) color)) [0..n - 1])"
proof -
  have "[0..2] = [0, 1, 2 :: int]" "[0..3] = [0, 1, 2, 3 :: int]" by (simp_all add: upto.simps)
  with assms show ?thesis by (auto simp: put_pixel_def)
qed

definition pixel_writes :: "int \<Rightarrow> int \<Rightarrow> int \<Rightarrow> u32 \<Rightarrow> int \<Rightarrow> int \<Rightarrow> (int \<times> u8) list" where
  "pixel_writes n stride x0 color row col =
     map (\<lambda>k. (row * stride + x0 * n + (col - x0) * n + k, colour_byte (nat k) color)) [0..n - 1]"

lemma fill_loop_pokes:
  assumes "n = 3 \<or> n = 4"
  shows "fill_loop n stride x0 y0 x1 y1 color mem =
    pokes (concat (map (\<lambda>row. concat (map (pixel_writes n stride x0 color row) [x0..x1 - 1])) [y0..y1 - 1])) mem"
proof -
  have "loop (\<lambda>col. put_pixel n (row * stride + x0 * n + (col - x0) * n) color) [x0..x1 - 1] =
      pokes (concat (map (pixel_writes n stride x0 color row) [x0..x1 - 1]))" for row
    by (rule ext, rule loop_pokes) (simp add: put_pixel_pokes [OF assms] pixel_writes_def)
  then show ?thesis unfolding fill_loop_def Let_def by (intro loop_pokes) simp
qed

lemma mem_writes:
  "(a, b) \<in> set (concat (map (\<lambda>row. concat (map (pixel_writes n stride x0 color row) [x0..x1 - 1])) [y0..y1 - 1]))
   \<longleftrightarrow> (\<exists>row col k. y0 \<le> row \<and> row < y1 \<and> x0 \<le> col \<and> col < x1 \<and> 0 \<le> k \<and> k < n \<and>
         a = row * stride + (col * n + k) \<and> b = colour_byte (nat k) color)"
  by (auto simp: pixel_writes_def algebra_simps) force+

lemma mult_le_iff_le_div:
  assumes "0 < (n :: int)"
  shows "x * n \<le> c \<longleftrightarrow> x \<le> c div n"
proof
  assume "x \<le> c div n"
  then have "x * n \<le> c div n * n" using assms by (intro mult_right_mono) auto
  also have "\<dots> \<le> c" using div_mult_mod_eq [of c n] pos_mod_sign [OF assms, of c] by linarith
  finally show "x * n \<le> c" .
next
  assume le: "x * n \<le> c"
  show "x \<le> c div n"
  proof (rule ccontr)
    assume "\<not> x \<le> c div n"
    then have "(c div n + 1) * n \<le> x * n" using assms by (intro mult_right_mono) auto
    moreover have "(c div n + 1) * n = c div n * n + n" by (simp add: algebra_simps)
    ultimately show False using le div_mult_mod_eq [of c n] pos_mod_bound [OF assms, of c] by linarith
  qed
qed

lemma less_mult_iff_div_less: "0 < (n :: int) \<Longrightarrow> c < x * n \<longleftrightarrow> c div n < x"
  using mult_le_iff_le_div [of n x c] by linarith

lemma cell_in_row:
  assumes "0 < n" "0 \<le> col" "col < x1" "0 \<le> k" "k < n" "x1 * n \<le> (stride :: int)"
  shows "0 \<le> col * n + k \<and> col * n + k < stride \<and> col * n + k < x1 * n \<and>
    (row * stride + (col * n + k)) mod stride = col * n + k \<and> (row * stride + (col * n + k)) div stride = row \<and>
    (col * n + k) mod n = k \<and> (col * n + k) div n = col"
proof -
  have "(col + 1) * n \<le> x1 * n" using assms(1,3) by (intro mult_right_mono) auto
  then have lt: "col * n + k < x1 * n" using assms(5) by (simp add: algebra_simps)
  moreover have nn: "0 \<le> col * n + k" using assms(1,2,4) by simp
  moreover have "(row * stride + (col * n + k)) mod stride = col * n + k"
    using nn lt assms(6) by (simp add: mod_pos_pos_trivial)
  moreover have "(row * stride + (col * n + k)) div stride = row"
    using nn lt assms(6) by (simp add: div_pos_pos_trivial)
  moreover have "(col * n + k) mod n = k" "(col * n + k) div n = col"
    using assms(1,4,5) by (simp_all add: mod_pos_pos_trivial div_pos_pos_trivial)
  ultimately show ?thesis using assms(6) by linarith
qed

definition in_rect :: "int \<Rightarrow> int \<Rightarrow> int \<Rightarrow> int \<Rightarrow> int \<Rightarrow> int \<Rightarrow> int \<Rightarrow> bool" where
  "in_rect n stride x0 y0 x1 y1 i \<longleftrightarrow>
     y0 \<le> i div stride \<and> i div stride < y1 \<and> x0 * n \<le> i mod stride \<and> i mod stride < x1 * n"

lemma fill_loop_correct:
  assumes n: "n = 3 \<or> n = 4" and g: "0 < stride" "0 \<le> x0" "0 \<le> y0" "x1 * n \<le> stride" "y1 * stride \<le> int (length mem)"
  shows "\<exists>mem'. fill_loop n stride x0 y0 x1 y1 color mem = Some mem' \<and> length mem' = length mem \<and>
    (\<forall>i < length mem. mem' ! i = (if in_rect n stride x0 y0 x1 y1 (int i)
        then colour_byte (nat (int i mod stride mod n)) color else mem ! i))"
proof -
  let ?ws = "concat (map (\<lambda>row. concat (map (pixel_writes n stride x0 color row) [x0..x1 - 1])) [y0..y1 - 1])"
  let ?val = "\<lambda>a. colour_byte (nat (a mod stride mod n)) color"
  have npos: "0 < n" using n by auto
  have "0 \<le> a \<and> a < int (length mem) \<and> b = ?val a" if "(a, b) \<in> set ?ws" for a b
  proof -
    from that obtain row col k where w: "y0 \<le> row" "row < y1" "x0 \<le> col" "col < x1" "0 \<le> k" "k < n"
      "a = row * stride + (col * n + k)" "b = colour_byte (nat k) color"
      unfolding mem_writes by blast
    have c: "0 \<le> col" "0 \<le> row" using w g by simp_all
    note cell = cell_in_row [OF npos c(1) w(4,5,6) g(4), of row]
    have "(row + 1) * stride \<le> y1 * stride" using w(2) g(1) by (intro mult_right_mono) auto
    then have "row * stride + stride \<le> int (length mem)" using g(5) by (simp add: algebra_simps)
    moreover have "0 \<le> row * stride" using c g(1) by simp
    ultimately show ?thesis using cell w(7,8) by auto
  qed
  from pokes_result [of ?ws mem ?val, OF this]
  obtain mem' where m: "pokes ?ws mem = Some mem'" "length mem' = length mem"
    "\<forall>i < length mem. mem' ! i = (if int i \<in> fst ` set ?ws then ?val (int i) else mem ! i)" by blast
  have "a \<in> fst ` set ?ws \<longleftrightarrow> in_rect n stride x0 y0 x1 y1 a" for a
  proof
    assume "a \<in> fst ` set ?ws"
    then obtain b where "(a, b) \<in> set ?ws" by force
    then obtain row col k where w: "y0 \<le> row" "row < y1" "x0 \<le> col" "col < x1" "0 \<le> k" "k < n"
      "a = row * stride + (col * n + k)" unfolding mem_writes by blast
    have "0 \<le> col" using w g by simp
    note cell = cell_in_row [OF npos this w(4,5,6) g(4), of row]
    have "x0 * n \<le> col * n" using w(3) npos by (intro mult_right_mono) auto
    then have "x0 * n \<le> col * n + k" using w(5) by linarith
    with cell w show "in_rect n stride x0 y0 x1 y1 a" by (simp add: in_rect_def)
  next
    assume r: "in_rect n stride x0 y0 x1 y1 a"
    define row c where "row = a div stride" and "c = a mod stride"
    have "a = row * stride + (c div n * n + c mod n)" by (simp add: row_def c_def)
    moreover have "x0 \<le> c div n" "c div n < x1"
      using r unfolding in_rect_def c_def mult_le_iff_le_div [OF npos] less_mult_iff_div_less [OF npos] by simp_all
    moreover have "0 \<le> c mod n" "c mod n < n" using npos by simp_all
    moreover have "y0 \<le> row" "row < y1" using r by (simp_all add: in_rect_def row_def)
    ultimately have "(a, colour_byte (nat (c mod n)) color) \<in> set ?ws" unfolding mem_writes by blast
    then show "a \<in> fst ` set ?ws" by force
  qed
  with m show ?thesis unfolding fill_loop_pokes [OF n] by auto
qed

section \<open>Properties\<close>

definition screen_ok :: "display_t \<Rightarrow> u8 list \<Rightarrow> bool" where
  "screen_ok disp mem \<longleftrightarrow>
     dp_buffer disp = Some mem \<and> (dp_bpp disp = 24 \<or> dp_bpp disp = 32) \<and> 0 < dp_stride disp \<and>
     dp_width disp * (dp_bpp disp div 8) \<le> dp_stride disp \<and> dp_height disp * dp_stride disp \<le> int (length mem)"

text \<open>Byte \<open>i\<close> belongs to a pixel of the screen inside the rectangle.\<close>

definition covered :: "display_t \<Rightarrow> int \<Rightarrow> int \<Rightarrow> int \<Rightarrow> int \<Rightarrow> int \<Rightarrow> bool" where
  "covered disp x y w h i =
     (let row = i div dp_stride disp; c = i mod dp_stride disp; col = c div (dp_bpp disp div 8) in
      row < dp_height disp \<and> col < dp_width disp \<and> x \<le> col \<and> col < x + w \<and> y \<le> row \<and> row < y + h)"

lemma covered_rect:
  assumes "0 < dp_stride disp" "0 < dp_bpp disp div 8" "0 \<le> i"
  shows "in_rect (dp_bpp disp div 8) (dp_stride disp) (max 0 x) (max 0 y) (min (x + w) (dp_width disp))
           (min (y + h) (dp_height disp)) i = covered disp x y w h i"
proof -
  have "0 \<le> i div dp_stride disp" "0 \<le> i mod dp_stride disp div (dp_bpp disp div 8)"
    using assms by (simp_all add: pos_imp_zdiv_nonneg_iff)
  with assms(2) show ?thesis
    unfolding in_rect_def covered_def Let_def mult_le_iff_le_div [OF assms(2)] less_mult_iff_div_less [OF assms(2)]
    by auto
qed



text \<open>Where the far corner has no negative coordinate the server draws what the library draws.\<close>

lemma server_fill_eq:
  assumes "0 \<le> x + w" "x + w < 2 ^ 31" "0 \<le> y + h" "y + h < 2 ^ 31" "0 \<le> ds_xres ds" "ds_xres ds < 2 ^ 31"
    "0 \<le> ds_yres ds" "ds_yres ds < 2 ^ 31" "0 \<le> ds_line_length ds" "ds_line_length ds < 2 ^ 31"
  shows "map_option (\<lambda>s. Some (ds_buffer s)) (ds_fill_rect x y w h color ds) =
    map_option dp_buffer (display_fill_rect
      \<lparr>dp_fd = 0, dp_width = ds_xres ds, dp_height = ds_yres ds, dp_bpp = ds_bits_per_pixel ds,
       dp_stride = ds_line_length ds, dp_screensize = 0, dp_buffer = Some (ds_buffer ds)\<rparr> x y w h color)"
  using assms by (auto simp: ds_fill_rect_def display_fill_rect_def with_buffer_def Let_def option.map_comp o_def)

text \<open>
  The server's clipping.  A rectangle that lies wholly to the left of the screen is drawn
  by the server over the full width of the screen: the comparison with the unsigned width takes the
  negative right edge for a huge one.
\<close>

lemma server_draws_offscreen_rect:
  assumes "- (2 ^ 31) \<le> x + w" "x + w < 0" "x < 0" "0 \<le> ds_xres ds" "ds_xres ds < 2 ^ 31"
  shows "ds_fill_rect x y w h color ds = ds_fill_rect 0 y (ds_xres ds) h color ds"
  using assms to_u32_neg [of "x + w"] by (simp add: ds_fill_rect_def Let_def)

lemma server_draws_offscreen_rect_witness:
  "ds_fill_rect (-20) 0 10 1 255 \<lparr>ds_xres = 1, ds_yres = 1, ds_bits_per_pixel = 32, ds_line_length = 4,
      ds_buffer = [0, 0, 0, 0]\<rparr> =
    Some \<lparr>ds_xres = 1, ds_yres = 1, ds_bits_per_pixel = 32, ds_line_length = 4, ds_buffer = [255, 0, 0, 0]\<rparr>"
proof -
  have "ds_fill_rect 0 0 1 1 255 \<lparr>ds_xres = 1, ds_yres = 1, ds_bits_per_pixel = 32, ds_line_length = 4,
      ds_buffer = [0, 0, 0, 0]\<rparr> =
    Some \<lparr>ds_xres = 1, ds_yres = 1, ds_bits_per_pixel = 32, ds_line_length = 4, ds_buffer = [255, 0, 0, 0]\<rparr>"
    by code_simp
  then show ?thesis using server_draws_offscreen_rect [of "-20" 10 "\<lparr>ds_xres = 1, ds_yres = 1,
      ds_bits_per_pixel = 32, ds_line_length = 4, ds_buffer = [0, 0, 0, 0]\<rparr>"] by simp
qed

text \<open>With 16 bits per pixel the three stores of the last pixel leave the mapped memory.\<close>

lemma sixteen_bit_overrun:
  "display_draw_pixel \<lparr>dp_fd = 3, dp_width = 2, dp_height = 1, dp_bpp = 16, dp_stride = 4,
     dp_screensize = 4, dp_buffer = Some [0, 0, 0, 0]\<rparr> 1 0 255 = None"
  by (simp add: display_draw_pixel_def with_buffer_def put_pixel_def poke_def)

end
