(* ===== verification/Display_Protocol.thy ===== *)
theory Display_Protocol
  imports Display Compositor Number_Text
begin

text \<open>
  The text protocol between the compositor and the display server: the commands the listener thread of
  \<open>frontend/ui/display_server.c\<close> accepts, its start-up, and the round trip of the commands
  \<open>frontend/ui/compositor.c\<close> writes.
\<close>

section \<open>Scanning numbers\<close>

definition split_sign :: "string \<Rightarrow> bool \<times> string" where
  "split_sign s =
     (case s of c # cs \<Rightarrow> if c = CHR ''-'' then (True, cs) else if c = CHR ''+'' then (False, cs) else (False, s)
      | [] \<Rightarrow> (False, []))"

text \<open>The \<open>%d\<close> of \<open>sscanf\<close>: the value and the rest of the input.\<close>

definition scan_int :: "string \<Rightarrow> (int \<times> string) option" where
  "scan_int s =
     (let (neg, u) = split_sign (dropWhile is_space s); ds = takeWhile is_digit u in
      if ds = [] then None
      else Some (to_s32 (if neg then - digits_value 0 ds else digits_value 0 ds), drop (length ds) u))"

definition hex_value :: "char \<Rightarrow> nat option" where
  "hex_value c =
     (let n = of_char c in
      if 48 \<le> n \<and> n \<le> 57 then Some (n - 48)
      else if 97 \<le> n \<and> n \<le> 102 then Some (n - 87)
      else if 65 \<le> n \<and> n \<le> 70 then Some (n - 55) else None)"

fun hex_digits :: "nat \<Rightarrow> string \<Rightarrow> nat" where
  "hex_digits acc [] = acc"
| "hex_digits acc (c # cs) = (case hex_value c of Some v \<Rightarrow> hex_digits (16 * acc + v) cs | None \<Rightarrow> acc)"

text \<open>The \<open>%x\<close> of \<open>sscanf\<close>.\<close>

definition scan_hex :: "string \<Rightarrow> u32 option" where
  "scan_hex s =
     (let (neg, u) = split_sign (dropWhile is_space s);
          u = (if prefix ''0x'' u \<or> prefix ''0X'' u then drop 2 u else u) in
      case u of
        [] \<Rightarrow> None
      | c # cs \<Rightarrow>
          (if hex_value c = None then None
           else Some (if neg then - of_nat (hex_digits 0 u) else of_nat (hex_digits 0 u))))"

definition scan_rect :: "string \<Rightarrow> (int \<times> int \<times> int \<times> int \<times> u32) option" where
  "scan_rect s =
     (case scan_int s of None \<Rightarrow> None | Some (x, s) \<Rightarrow>
      (case scan_int s of None \<Rightarrow> None | Some (y, s) \<Rightarrow>
       (case scan_int s of None \<Rightarrow> None | Some (w, s) \<Rightarrow>
        (case scan_int s of None \<Rightarrow> None | Some (h, s) \<Rightarrow>
         (case scan_hex s of None \<Rightarrow> None | Some color \<Rightarrow> Some (x, y, w, h, color))))))"

section \<open>The listener\<close>

text \<open>
  One client: \<open>cmd\<close> is what \<open>read\<close> delivered, at most 255 bytes up to the first NUL.  For a command of
  exactly nine (or five) letters \<open>cmd + 10\<close> (\<open>cmd + 6\<close>) lies behind the terminator; the model reads
  nothing there.
\<close>

definition ds_command :: "string \<Rightarrow> ds_display \<Rightarrow> ds_display option" where
  "ds_command cmd ds =
     (if prefix ''FILL_RECT'' cmd then
        (case scan_rect (drop 10 cmd) of
           Some (x, y, w, h, color) \<Rightarrow> ds_fill_rect x y w h color ds
         | None \<Rightarrow> Some ds)
      else if prefix ''CLEAR'' cmd then
        (case scan_hex (drop 6 cmd) of Some color \<Rightarrow> ds_clear color ds | None \<Rightarrow> Some ds)
      else Some ds)"

text \<open>Opening a device, and the start of \<open>main\<close> with its fallbacks.\<close>

definition ds_open_display :: "(string \<Rightarrow> fb_info option) \<Rightarrow> string \<Rightarrow> ds_display option" where
  "ds_open_display dev devpath =
     (case dev devpath of
        None \<Rightarrow> None
      | Some fi \<Rightarrow>
          (case fi_map fi of
             None \<Rightarrow> None
           | Some mem \<Rightarrow> Some \<lparr>ds_xres = fi_xres fi, ds_yres = fi_yres fi,
               ds_bits_per_pixel = fi_bits_per_pixel fi, ds_line_length = fi_line_length fi,
               ds_buffer = mem\<rparr>))"

fun open_first :: "(string \<Rightarrow> fb_info option) \<Rightarrow> string list \<Rightarrow> ds_display option" where
  "open_first dev [] = None"
| "open_first dev (p # ps) = (case ds_open_display dev p of Some ds \<Rightarrow> Some ds | None \<Rightarrow> open_first dev ps)"

definition ds_open_any :: "(string \<Rightarrow> fb_info option) \<Rightarrow> string option \<Rightarrow> ds_display option" where
  "ds_open_any dev arg =
     open_first dev ((case arg of Some p \<Rightarrow> p | None \<Rightarrow> ''/dev/fb0'') #
       [''/dev/fb0'', ''/dev/fb1'', ''/dev/dri/card0'', ''/dev/dri/card1''])"

datatype ds_start_result = Ds_no_device | Ds_crashed | Ds_running ds_display

definition ds_start :: "(string \<Rightarrow> fb_info option) \<Rightarrow> string option \<Rightarrow> ds_start_result" where
  "ds_start dev arg =
     (case ds_open_any dev arg of
        None \<Rightarrow> Ds_no_device
      | Some ds \<Rightarrow>
          (case Option.bind (ds_clear 1710638 ds) render_status_bar of
             None \<Rightarrow> Ds_crashed | Some ds' \<Rightarrow> Ds_running ds'))"

section \<open>Rendering and scanning numbers\<close>

lemma scan_int_dec:
  assumes "- (2 ^ 31) \<le> i" "i < 2 ^ 31"
  shows "scan_int (dec i @ CHR '' '' # r) = Some (i, CHR '' '' # r) \<and>
         scan_int (CHR '' '' # dec i @ CHR '' '' # r) = Some (i, CHR '' '' # r)"
proof -
  have dv: "digits_value 0 (dec_nat n) = int n" for n using digits_value_dec [of 0 n "[]"] by simp
  have "scan_int (dec i @ CHR '' '' # r) = Some (i, CHR '' '' # r)"
  proof (cases "i < 0")
    case True
    then show ?thesis using assms dec_nat_nonempty [of "nat (- i)"]
      by (simp add: dec_def scan_int_def split_sign_def is_space_def takeWhile_digits dv Let_def)
  next
    case False
    obtain c cs where c: "dec_nat (nat i) @ CHR '' '' # r = c # cs" "is_digit c" using dec_nat_head by blast
    then have "dropWhile is_space (dec i @ CHR '' '' # r) = dec_nat (nat i) @ CHR '' '' # r"
      using False digit_not_space by (simp add: dec_def)
    moreover have "split_sign (dec_nat (nat i) @ CHR '' '' # r) = (False, dec_nat (nat i) @ CHR '' '' # r)"
      using c(2) unfolding c(1) by (auto simp: split_sign_def)
    ultimately show ?thesis using assms False dec_nat_nonempty [of "nat i"]
      by (simp add: scan_int_def takeWhile_digits dv)
  qed
  moreover have "scan_int (CHR '' '' # s) = scan_int s" for s by (simp add: scan_int_def is_space_def)
  ultimately show ?thesis by simp
qed

lemma hex_value_digit: "d < 16 \<Longrightarrow> hex_value (hex_digit d) = Some d"
  by (auto simp: hex_value_def hex_digit_def Let_def)

lemma hex_digits_hex: "hex_digits acc (hex_nat n @ r) = hex_digits (16 ^ length (hex_nat n) * acc + n) r"
proof (induction n arbitrary: acc r rule: hex_nat.induct)
  case (1 n)
  show ?case
  proof (cases "n < 16")
    case True
    then show ?thesis by (simp add: hex_nat.simps [of n] hex_value_digit)
  next
    case False
    define q d where "q = n div 16" and "d = n mod 16"
    have n: "n = 16 * q + d" and d: "d < 16" by (simp_all add: q_def d_def)
    have "hex_nat n = hex_nat q @ [hex_digit d]" using False by (subst hex_nat.simps) (simp add: q_def d_def)
    moreover have "hex_digits acc (hex_nat q @ hex_digit d # r) =
        hex_digits (16 ^ length (hex_nat q) * acc + q) (hex_digit d # r)"
      using 1 [OF False] unfolding q_def .
    ultimately show ?thesis using hex_value_digit [OF d]
      by (simp add: n algebra_simps)
  qed
qed

lemma hex_nat_chars: "\<forall>c \<in> set (hex_nat n). hex_value c \<noteq> None"
  by (induction n rule: hex_nat.induct) (subst hex_nat.simps, auto simp: hex_value_digit)

lemma hex_nat_nonempty: "hex_nat n \<noteq> []"
  by (subst hex_nat.simps) simp

lemma hex_char_plain:
  "hex_value c \<noteq> None \<Longrightarrow> \<not> is_space c \<and> c \<noteq> CHR ''-'' \<and> c \<noteq> CHR ''+'' \<and> c \<noteq> CHR ''x'' \<and> c \<noteq> CHR ''X''"
  by (auto simp: hex_value_def is_space_def Let_def)

lemma scan_hex_hex: "scan_hex (CHR '' '' # hex_nat n) = Some (of_nat n)"
proof -
  obtain c cs where h: "hex_nat n = c # cs" "hex_value c \<noteq> None"
    using hex_nat_chars [of n] hex_nat_nonempty [of n] by (cases "hex_nat n") auto
  have "\<not> prefix ''0x'' (c # cs) \<and> \<not> prefix ''0X'' (c # cs)"
    using hex_nat_chars [of n] hex_char_plain unfolding h(1) by (cases cs) auto
  then have "\<not> (prefix ''0x'' (c # cs) \<or> prefix ''0X'' (c # cs))" by blast
  then have p: "(if prefix ''0x'' (c # cs) \<or> prefix ''0X'' (c # cs) then drop 2 (c # cs) else c # cs) = c # cs"
    by (rule if_not_P)
  have v: "hex_digits 0 (c # cs) = n" using hex_digits_hex [of 0 n "[]"] by (simp add: h(1))
  note k = hex_char_plain [OF h(2)]
  have "dropWhile is_space (CHR '' '' # c # cs) = c # cs" using k by (simp add: is_space_def)
  moreover have "split_sign (c # cs) = (False, c # cs)" using k by (simp add: split_sign_def)
  ultimately show ?thesis using h(2) unfolding scan_hex_def h(1) Let_def
    by (simp only: prod.case p list.case v if_False)
qed

lemma length_dec: "- (2 ^ 31) \<le> i \<Longrightarrow> i < 2 ^ 31 \<Longrightarrow> length (dec i) \<le> 11"
proof -
  have small: "n < 10 ^ k \<Longrightarrow> 0 < k \<Longrightarrow> length (dec_nat n) \<le> k" for n k
  proof (induction k arbitrary: n)
    case (Suc k)
    show ?case
    proof (cases "n < 10")
      case False
      then have "0 < k" using Suc.prems(1) by (cases k) auto
      moreover have "n div 10 < 10 ^ k" using Suc.prems(1) by (simp add: less_mult_imp_div_less mult.commute)
      ultimately show ?thesis using Suc.IH [of "n div 10"] False by (subst dec_nat.simps) simp
    qed (simp add: dec_nat.simps [of n])
  qed simp
  assume "- (2 ^ 31) \<le> i" "i < 2 ^ 31"
  then have "nat (- i) < 10 ^ 10" "nat i < 10 ^ 10" by simp_all
  with small [of "nat (- i)" 10] small [of "nat i" 10] show ?thesis by (simp add: dec_def)
qed

lemma length_hex: "n < 16 ^ Suc k \<Longrightarrow> length (hex_nat n) \<le> Suc k"
proof (induction k arbitrary: n)
  case 0
  then show ?case by (simp add: hex_nat.simps)
next
  case (Suc k)
  then have "n div 16 < 16 ^ Suc k" by (simp add: less_mult_imp_div_less mult.commute)
  with Suc.IH [of "n div 16"] show ?case by (subst hex_nat.simps) simp
qed

section \<open>Properties\<close>

text \<open>
  Claim C32.  Drawing commands arrive.  Every rectangle command the compositor writes, with any
  coordinates of type \<open>int\<close> and any colour, is executed by the display server as exactly that fill.
\<close>

theorem draw_command_roundtrip:
  assumes "c_int x" "c_int y" "c_int w" "c_int h" "color < 2 ^ 32"
  shows "ds_command (fill_rect_cmd x y w h color) ds = ds_fill_rect x y w h (of_nat color) ds"
proof -
  have "length (hex_nat color) \<le> 8" using length_hex [of color 7] assms(5) by simp
  then have "fill_rect_cmd x y w h color = ''FILL_RECT '' @ dec x @ '' '' @ dec y @ '' '' @ dec w @ '' '' @
      dec h @ '' '' @ hex_nat color"
    using assms length_dec [of x] length_dec [of y] length_dec [of w] length_dec [of h]
    by (simp add: fill_rect_cmd_def c_int_def)
  then show ?thesis using assms scan_int_dec scan_hex_hex
    by (simp add: ds_command_def scan_rect_def c_int_def)
qed

theorem draw_command_roundtrip_witness:
  "ds_command (fill_rect_cmd (-5) 3 40 7 4886745)
     \<lparr>ds_xres = 1, ds_yres = 1, ds_bits_per_pixel = 32, ds_line_length = 4, ds_buffer = [0, 0, 0, 0]\<rparr> =
   ds_fill_rect (-5) 3 40 7 4886745
     \<lparr>ds_xres = 1, ds_yres = 1, ds_bits_per_pixel = 32, ds_line_length = 4, ds_buffer = [0, 0, 0, 0]\<rparr>"
  using draw_command_roundtrip [of "-5" 3 40 7 4886745
     "\<lparr>ds_xres = 1, ds_yres = 1, ds_bits_per_pixel = 32, ds_line_length = 4, ds_buffer = [0, 0, 0, 0]\<rparr>"]
  by (simp add: c_int_def)

text \<open>The background command of the compositor.\<close>

lemma clear_command: "ds_command ''CLEAR 1A1A2E'' ds = ds_clear 1710638 ds"
  by (simp add: ds_command_def scan_hex_def split_sign_def is_space_def hex_value_def)

end
