(* ===== verification/Daemon_Loops.thy ===== *)
theory Daemon_Loops
  imports Arbiter_Server System_Manager Ipc_Bus Display_Protocol
begin

text \<open>
  How the other daemons run: the socket set-up, the accept loop and the shutdown of the system manager
  (\<open>system_manager.c\<close>), of the message bus (\<open>ipc_bus.c\<close>) and of the display server (\<open>display_server.c\<close>), around
  the handling of one client that their own theories model.  A client of the manager or of the bus is what was
  read from it; the loops end when \<open>accept\<close> fails for a reason other than an interruption.
\<close>

section \<open>System manager\<close>

definition MGR_SOCK_PATH :: string where "MGR_SOCK_PATH = ''/var/run/servecosys_mgr.sock''"
definition MGR_PID_FILE :: string where "MGR_PID_FILE = ''/var/run/system_manager.pid''"

definition setup_console_socket :: "sock_env \<Rightarrow> sock_state \<Rightarrow> int \<times> sock_state" where
  "setup_console_socket env k =
     (let (sock, k) = sys_socket env (sys_unlink MGR_SOCK_PATH k) in
      if sock < 0 then (-1, k)
      else if \<not> se_bind env MGR_SOCK_PATH then (-1, sys_close sock k)
      else let k = k\<lparr>ss_chmod := ss_chmod k @ [(MGR_SOCK_PATH, 432)]\<rparr> in
        if \<not> se_listen env then (-1, sys_close sock k)
        else (sock, k\<lparr>ss_kind := (ss_kind k)(sock \<mapsto> Sock_listening)\<rparr>))"

text \<open>\<open>main\<close> without arguments, up to the loop: the exit code, or the socket.\<close>

definition mgr_start ::
  "(nat \<Rightarrow> mgr_env) \<Rightarrow> sock_env \<Rightarrow> sock_state \<Rightarrow> manager_t \<Rightarrow> (int + int) \<times> sock_state \<times> manager_t" where
  "mgr_start env senv k m =
     (let m = audit (env 0) ''system manager starting'' m;
          (sock, k) = setup_console_socket senv k
      in if sock < 0 then (Inl 1, k, m)
         else let (r, m) = register_as_manager env m in
           if r \<noteq> 0 then (Inl 1, sys_unlink MGR_SOCK_PATH (sys_close sock k), m) else (Inr sock, k, m))"

type_synonym mgr_client = "mgr_env \<times> console_msg_t option \<times> int option"

fun mgr_loop :: "mgr_client accepted list \<Rightarrow> manager_t \<Rightarrow> manager_t" where
  "mgr_loop [] m = m"
| "mgr_loop (a # as) m =
     (if \<not> mg_running m then m
      else case a of
          Interrupted \<Rightarrow> mgr_loop as m
        | Failed \<Rightarrow> m
        | Client (env, got, cred) \<Rightarrow> mgr_loop as (serve_console env got cred m))"

definition mgr_main ::
  "(nat \<Rightarrow> mgr_env) \<Rightarrow> sock_env \<Rightarrow> mgr_client accepted list \<Rightarrow> sock_state \<Rightarrow> manager_t \<Rightarrow> int \<times> sock_state \<times> manager_t" where
  "mgr_main env senv as k m =
     (case mgr_start env senv k m of
        (Inl rc, k1, m1) \<Rightarrow> (rc, k1, m1)
      | (Inr sock, k1, m1) \<Rightarrow>
          (0, sys_unlink MGR_PID_FILE (sys_unlink MGR_SOCK_PATH (sys_close sock k1)),
           audit (env 0) ''system manager stopping'' (mgr_loop as m1)))"

section \<open>Message bus\<close>

definition BUS_SOCK_PATH :: string where "BUS_SOCK_PATH = ''/var/run/servecosys_ipc.sock''"
definition BUS_PID_FILE :: string where "BUS_PID_FILE = ''/var/run/ipc_bus.pid''"

definition bus_setup :: "sock_env \<Rightarrow> sock_state \<Rightarrow> int \<times> sock_state" where
  "bus_setup env k =
     (let (sock, k) = sys_socket env (sys_unlink BUS_SOCK_PATH k) in
      if sock < 0 then (-1, k)
      else if \<not> se_bind env BUS_SOCK_PATH then (-1, sys_close sock k)
      else let k = k\<lparr>ss_chmod := ss_chmod k @ [(BUS_SOCK_PATH, 432)]\<rparr> in
        if \<not> se_listen env then (-1, sys_close sock k)
        else (sock, k\<lparr>ss_kind := (ss_kind k)(sock \<mapsto> Sock_listening)\<rparr>))"

text \<open>A client is the time it is served at and the message it sent; the answers are collected.\<close>

fun bus_loop ::
  "(int \<times> Ipc_Bus.ipc_message_t option) accepted list \<Rightarrow> ipc_bus_t \<Rightarrow> Ipc_Bus.ipc_message_t option list \<times> ipc_bus_t" where
  "bus_loop [] b = ([], b)"
| "bus_loop (Interrupted # as) b = bus_loop as b"
| "bus_loop (Failed # as) b = ([], b)"
| "bus_loop (Client (now, got) # as) b =
     (let (r, b1) = serve_message now got b; (rs, b2) = bus_loop as b1 in (r # rs, b2))"

definition bus_main ::
  "sock_env \<Rightarrow> (int \<times> Ipc_Bus.ipc_message_t option) accepted list \<Rightarrow> sock_state \<Rightarrow> int \<times> sock_state \<times> ipc_bus_t" where
  "bus_main env as k =
     (let (sock, k) = bus_setup env k in
      if sock < 0 then (1, k, ipc_bus_init)
      else (0, sys_unlink BUS_PID_FILE (sys_unlink BUS_SOCK_PATH (sys_close sock k)),
            audit_log ''IPC Bus stopped'' (snd (bus_loop as (audit_log ''IPC Bus started'' ipc_bus_init)))))"

section \<open>Display server\<close>

definition DS_SOCK_PATH :: string where "DS_SOCK_PATH = ''/var/run/servecosys_display.sock''"
definition DS_PID_FILE :: string where "DS_PID_FILE = ''/var/run/display_server.pid''"

definition ds_setup :: "sock_env \<Rightarrow> sock_state \<Rightarrow> int \<times> sock_state" where
  "ds_setup env k =
     (let (fd, k) = sys_socket env (sys_unlink DS_SOCK_PATH k) in
      if fd \<ge> 0 then
        (if \<not> se_bind env DS_SOCK_PATH \<or> \<not> se_listen env then (-1, sys_close fd k)
         else (fd, k\<lparr>ss_kind := (ss_kind k)(fd \<mapsto> Sock_listening)\<rparr>))
      else (fd, k))"

text \<open>
  The listener thread: every failed \<open>accept\<close> is ignored; a client sends one command of at most 255 bytes.  \<open>None\<close> is a
  write outside the mapped memory.
\<close>

fun ds_listener :: "string accepted list \<Rightarrow> ds_display \<Rightarrow> ds_display option" where
  "ds_listener [] ds = Some ds"
| "ds_listener (a # as) ds =
     (case a of
        Client bytes \<Rightarrow>
          (let cmd = take 255 bytes in
           if cmd = [] then ds_listener as ds
           else case ds_command (cstr cmd) ds of None \<Rightarrow> None | Some ds' \<Rightarrow> ds_listener as ds')
      | _ \<Rightarrow> ds_listener as ds)"

text \<open>The process after the device is open: drawing, the listener, and the shutdown.\<close>

definition ds_main ::
  "(string \<Rightarrow> fb_info option) \<Rightarrow> string option \<Rightarrow> sock_env \<Rightarrow> string accepted list \<Rightarrow> sock_state \<Rightarrow>
   (int \<times> sock_state \<times> ds_display) option" where
  "ds_main dev arg env as k =
     (case ds_start dev arg of
        Ds_no_device \<Rightarrow> Some (1, k, \<lparr>ds_xres = 0, ds_yres = 0, ds_bits_per_pixel = 0, ds_line_length = 0, ds_buffer = []\<rparr>)
      | Ds_crashed \<Rightarrow> None
      | Ds_running ds \<Rightarrow>
          (let (fd, k) = ds_setup env k in
           case ds_listener as ds of
             None \<Rightarrow> None
           | Some ds' \<Rightarrow>
               Some (0, if fd \<ge> 0 then sys_unlink DS_PID_FILE (sys_unlink DS_SOCK_PATH (sys_close fd k))
                        else sys_unlink DS_PID_FILE k, ds')))"

section \<open>Descriptors\<close>

text \<open>
  The contract of a set-up: it keeps the descriptor the system gave it, listening, or none.  Its clients may then
  close the socket and have what they started with.
\<close>

locale server_socket =
  fixes mk_sock :: "sock_env \<Rightarrow> sock_state \<Rightarrow> int \<times> sock_state"
  assumes setup_kind: "ss_kind k (se_socket env) = None \<Longrightarrow> mk_sock env k = (sock, k') \<Longrightarrow>
      ss_kind k' = (if 0 \<le> sock then (ss_kind k)(sock \<mapsto> Sock_listening) else ss_kind k)"
    and setup_sock: "mk_sock env k = (sock, k') \<Longrightarrow> sock = se_socket env \<or> sock < 0"
begin

lemma failed_keeps:
  "ss_kind k (se_socket env) = None \<Longrightarrow> mk_sock env k = (sock, k') \<Longrightarrow> sock < 0 \<Longrightarrow> ss_kind k' = ss_kind k"
  by (drule (1) setup_kind) simp

lemma close_restores:
  assumes "ss_kind k (se_socket env) = None" "mk_sock env k = (sock, k')" "0 \<le> sock"
  shows "ss_kind (sys_close sock k') = ss_kind k"
proof -
  have "ss_kind k sock = None" using setup_sock [OF assms(2)] assms(1,3) by auto
  with setup_kind [OF assms(1,2)] assms(3) show ?thesis by (simp add: sys_close_def fun_upd_idem)
qed

end

lemmas sock_defs = sys_socket_def sys_unlink_def sys_close_def

interpretation arb_sock: server_socket setup_ipc_socket
  by unfold_locales (auto simp: setup_ipc_socket_def sock_defs Let_def fun_eq_iff split: if_splits)

interpretation mgr_sock: server_socket setup_console_socket
  by unfold_locales (auto simp: setup_console_socket_def sock_defs Let_def fun_eq_iff split: if_splits)

interpretation bus_sock: server_socket bus_setup
  by unfold_locales (auto simp: bus_setup_def sock_defs Let_def fun_eq_iff split: if_splits)

interpretation ds_sock: server_socket ds_setup
  by unfold_locales (auto simp: ds_setup_def sock_defs Let_def fun_eq_iff split: if_splits)

lemma ss_kind_unlink [simp]: "ss_kind (sys_unlink p k) = ss_kind k"
  by (simp add: sys_unlink_def)

lemma mgr_main_clean:
  assumes "ss_kind k (se_socket senv) = None"
  shows "ss_kind (fst (snd (mgr_main env senv as k m))) = ss_kind k"
proof -
  obtain sock k1 where s: "setup_console_socket senv k = (sock, k1)" by force
  show ?thesis
  proof (cases "sock < 0")
    case True
    with mgr_sock.failed_keeps [OF assms s] s show ?thesis by (simp add: mgr_main_def mgr_start_def)
  next
    case False
    with mgr_sock.close_restores [OF assms s] s show ?thesis
      by (simp add: mgr_main_def mgr_start_def Let_def split: prod.split)
  qed
qed

lemma bus_main_clean:
  assumes "ss_kind k (se_socket senv) = None"
  shows "ss_kind (fst (snd (bus_main senv as k))) = ss_kind k"
proof -
  obtain sock k1 where s: "bus_setup senv k = (sock, k1)" by force
  with bus_sock.failed_keeps [OF assms s] bus_sock.close_restores [OF assms s] show ?thesis
    by (simp add: bus_main_def)
qed

lemma ds_main_clean:
  assumes "ss_kind k (se_socket senv) = None" "ds_main dev arg senv as k = Some (rc, k', ds)"
  shows "ss_kind k' = ss_kind k"
proof -
  obtain sock k1 where s: "ds_setup senv k = (sock, k1)" by force
  with ds_sock.failed_keeps [OF assms(1) s] ds_sock.close_restores [OF assms(1) s] assms(2) show ?thesis
    by (auto simp: ds_main_def split: ds_start_result.splits option.splits if_splits)
qed

lemma arbiter_main_clean:
  assumes "ss_kind k (se_socket senv) = None"
  shows "ss_kind (fst (snd (arbiter_main os self senv as k))) = ss_kind k"
proof -
  obtain sock k1 where s: "setup_ipc_socket senv k = (sock, k1)" by force
  with arb_sock.failed_keeps [OF assms s] arb_sock.close_restores [OF assms s] show ?thesis
    by (simp add: arbiter_main_def arbiter_boot_def)
qed



section \<open>Stopping and starting\<close>

lemma mgr_loop_stopped: "\<not> mg_running m \<Longrightarrow> mgr_loop as m = m"
  by (cases as) simp_all

text \<open>After a trusted client's quit command nobody is served any more.\<close>

lemma quit_stops_manager:
  assumes "mg_running m" "cm_cmd msg = Some CMD_QUIT" "to_u32 (get_peer_uid cred) = me_euid env"
  shows "mgr_loop (Client (env, Some msg, cred) # as) m = (emit ''Shutting down system manager...'' m)\<lparr>mg_running := False\<rparr>"
  using assms by (simp add: serve_console_def handle_console_def mgr_loop_stopped Let_def)

text \<open>A manager that cannot set up its socket exits before it asks the arbiter for anything.\<close>

lemma mgr_setup_failure:
  assumes "fst (setup_console_socket senv k) < 0"
  shows "fst (mgr_main env senv as k m) = 1 \<and> mg_arb (snd (snd (mgr_main env senv as k m))) = mg_arb m"
  using assms by (auto simp: mgr_main_def mgr_start_def audit_def Let_def split: prod.splits)

text \<open>
  The front end's constructor reports success although \<open>listen\<close> failed: its channel does not accept anybody.
\<close>

lemma fe_server_not_listening:
  assumes "0 \<le> se_socket env" "se_bind env (fit 108 p)" "\<not> se_listen env"
  shows "fst (fe_server_create env (Some p) ch k) = IPC_OK \<and>
    ss_kind (snd (snd (fe_server_create env (Some p) ch k))) (se_socket env) = Some Sock_new"
  using assms by (simp add: fe_server_create_def sys_socket_def Let_def)

text \<open>Without a socket the display server's listener sees only failures, and never ends by itself.\<close>

lemma ds_listener_failures: "\<forall>a \<in> set as. \<forall>c. a \<noteq> Client c \<Longrightarrow> ds_listener as ds = Some ds"
  by (induction as) (auto split: accepted.split)

section \<open>The compositor at the display server\<close>

text \<open>The first record of a connection is all the listener reads from it.\<close>

definition connection_read :: "string list \<Rightarrow> string" where
  "connection_read records = (case records of [] \<Rightarrow> [] | r # rs \<Rightarrow> r)"

lemma sent_window_cmds:
  "cp_display c \<Longrightarrow>
   cp_sent (fold (\<lambda>cmd s. snd (send_display_cmd cmd s)) cmds c) = cp_sent c @ cmds \<and>
   cp_display (fold (\<lambda>cmd s. snd (send_display_cmd cmd s)) cmds c)"
  by (induction cmds arbitrary: c) (simp_all add: send_display_cmd_def)

lemma sent_windows:
  "cp_display c \<Longrightarrow>
   cp_sent (fold (\<lambda>w s. if wn_visible w = 0 then s else fold (\<lambda>cmd s. snd (send_display_cmd cmd s)) (window_cmds w) s) ws c) =
     cp_sent c @ concat (map window_cmds (filter (\<lambda>w. wn_visible w \<noteq> 0) ws))"
  by (induction ws arbitrary: c) (auto simp: sent_window_cmds)

lemma render_sent:
  "cp_display c \<Longrightarrow> cp_sent (render_all_windows c) =
     cp_sent c @ ''CLEAR 1A1A2E'' # concat (map window_cmds (filter (\<lambda>w. wn_visible w \<noteq> 0) (cp_windows c)))"
  by (simp add: render_all_windows_def sent_windows) (simp add: send_display_cmd_def)

text \<open>
  Claim C27.  The desktop is never drawn.  The compositor writes the ten commands of its desktop, the clearing and three
  rectangles for each of its three windows, to one connection; the display server serves one command per
  connection, so what reaches the screen is the clearing alone.
\<close>

theorem desktop_never_drawn:
  "length (cp_sent (compositor_main True)) = 10 \<and>
   ds_listener [Client (connection_read (cp_sent (compositor_main True)))] ds = ds_clear 1710638 ds"
proof -
  define c where "c = snd (create_window ''Terminal'' 200 120 500 350 (snd (create_window ''File Manager'' 100 80 600 400
      (snd (create_window ''Settings'' 50 50 400 300 (compositor_init\<lparr>cp_display := True\<rparr>))))))"
  have c: "cp_display c" "cp_sent c = []" "length (cp_windows c) = 3" "\<forall>w \<in> set (cp_windows c). wn_visible w \<noteq> 0"
    by (simp_all add: c_def create_window_def compositor_init_def MAX_WINDOWS_def)
  define ws where "ws = cp_windows (set_focus 1 c)"
  have ws: "length ws = 3" "\<forall>w \<in> set ws. wn_visible w \<noteq> 0" using c(3,4) by (auto simp: ws_def set_focus_def)
  have "cp_display (set_focus 1 c)" "cp_sent (set_focus 1 c) = []" using c(1,2) by (simp_all add: set_focus_def)
  then have "cp_sent (compositor_main True) = ''CLEAR 1A1A2E'' # concat (map window_cmds (filter (\<lambda>w. wn_visible w \<noteq> 0) ws))"
    by (simp add: compositor_main_def init_desktop_def Let_def render_sent ws_def flip: c_def)
  also have "filter (\<lambda>w. wn_visible w \<noteq> 0) ws = ws" using ws(2) by simp
  finally have sent: "cp_sent (compositor_main True) = ''CLEAR 1A1A2E'' # concat (map window_cmds ws)" .
  obtain w1 w2 w3 where "ws = [w1, w2, w3]" using ws(1) by (auto simp: numeral_3_eq_3 length_Suc_conv)
  then have "length (cp_sent (compositor_main True)) = 10" by (simp add: sent window_cmds_def)
  then show ?thesis by (simp add: sent connection_read_def cstr_def clear_command split: option.split)
qed

end
