(* ===== verification/Bus_Wire.thy ===== *)
theory Bus_Wire
  imports Arbiter_Server Ipc_Bus
begin

text \<open>
  The messages of \<open>backend/sub_kernel/ipc_bus.c\<close> in bytes, and one client of its loop at that level: the message is read
  in full, served, and the answer written in full.
\<close>

section \<open>The layout\<close>

definition sizeof_bus_message :: nat where "sizeof_bus_message = 65856"

text \<open>The \<open>int\<close> fields, the contexts and the token take 312 bytes, so the 64-bit size needs no padding.\<close>

definition encode_message :: "Ipc_Bus.ipc_message_t \<Rightarrow> u8 list" where
  "encode_message m =
     i32_bytes (im_type m) @ i32_bytes (im_session_id m) @ i32_bytes (im_request_id m) @
     i32_bytes (im_sender_pid m) @ i32_bytes (im_target_pid m) @ char_field 128 (im_sender_ctx m) @
     char_field 128 (im_target_ctx m) @ i32_bytes (im_perm_level m) @ im_capability_token m @
     le64 (of_nat (im_payload_size m)) @ char_field 65536 (im_payload m)"

definition decode_message :: "u8 list \<Rightarrow> Ipc_Bus.ipc_message_t" where
  "decode_message bs =
     \<lparr>im_type = i32_of (take 4 bs), im_session_id = i32_of (take 4 (drop 4 bs)),
      im_request_id = i32_of (take 4 (drop 8 bs)), im_sender_pid = i32_of (take 4 (drop 12 bs)),
      im_target_pid = i32_of (take 4 (drop 16 bs)), im_sender_ctx = field_string (take 128 (drop 20 bs)),
      im_target_ctx = field_string (take 128 (drop 148 bs)), im_perm_level = i32_of (take 4 (drop 276 bs)),
      im_capability_token = take 32 (drop 280 bs), im_payload_size = le_value (take 8 (drop 312 bs)),
      im_payload = field_string (take 65536 (drop 320 bs))\<rparr>"

definition message_ok :: "Ipc_Bus.ipc_message_t \<Rightarrow> bool" where
  "message_ok m = (c_int (im_type m) \<and> c_int (im_session_id m) \<and> c_int (im_request_id m) \<and> c_int (im_sender_pid m) \<and>
     c_int (im_target_pid m) \<and> c_int (im_perm_level m) \<and> c_string 128 (im_sender_ctx m) \<and> c_string 128 (im_target_ctx m) \<and>
     length (im_capability_token m) = 32 \<and> im_payload_size m < 2 ^ 64 \<and> c_string 65536 (im_payload m))"

lemma length_encode_message: "message_ok m \<Longrightarrow> length (encode_message m) = sizeof_bus_message"
  by (simp add: message_ok_def encode_message_def sizeof_bus_message_def length_char_field)

lemma decode_encode_message: "message_ok m \<Longrightarrow> decode_message (encode_message m) = m"
  by (simp add: message_ok_def decode_message_def encode_message_def i32_of_bytes length_char_field field_string_char_field
      le64_value unat_of_nat)

section \<open>One client\<close>

definition bus_turn ::
  "int \<Rightarrow> (nat \<Rightarrow> nat \<Rightarrow> u8 list) \<Rightarrow> (nat \<Rightarrow> nat \<Rightarrow> int) \<Rightarrow> ipc_bus_t \<Rightarrow> u8 list \<times> ipc_bus_t" where
  "bus_turn now rd wr b =
     (case serve_message now (map_option decode_message (read_full rd sizeof_bus_message [])) b of
        (None, b') \<Rightarrow> ([], b')
      | (Some resp, b') \<Rightarrow> (write_full wr (encode_message resp) 0 [], b'))"

lemma serve_message_ok:
  assumes "message_ok msg" "c_int (bus_next_session_id b)"
  shows "\<exists>resp b'. serve_message now (Some msg) b = (Some resp, b') \<and> message_ok resp"
proof -
  have payload: "c_string 65536 (fit 65536 s)" if "NUL \<notin> set s" for s
    using that set_fit_subset [of 65536 s] by (auto simp: c_string_def)
  have codes: "c_int (msg_code ty)" for ty
    by (cases ty) (simp_all add: msg_code_def ipc_msg_types_def c_int_def)
  have zero: "message_ok zero_message" by (simp add: message_ok_def zero_message_def c_string_def)
  have route: "message_ok (fst (route_message m c))" if "message_ok m" for m c
    using that zero codes payload by (auto simp: route_message_def message_ok_def Let_def)
  obtain sid c where s: "create_session now (im_sender_pid msg) (im_target_pid msg) b = (sid, c)" by force
  then have "c_int sid" using assms(2) by (auto simp: create_session_def Let_def split: if_splits)
  then have "message_ok (msg\<lparr>im_session_id := sid\<rparr>)" using assms(1) by (simp add: message_ok_def)
  with route assms(1) s show ?thesis
    by (auto simp: serve_message_def Let_def prod_eq_iff split: prod.splits)
qed

text \<open>
  The bus over the wire.  A client that sends any message whose fields fit the structure, in pieces of any size,
  reads back, in pieces of any size, exactly the answer the bus gave to that message; a permission check for whatever
  level comes back as a grant of that level.
\<close>

lemma bus_wire_exchange:
  assumes "message_ok msg" "c_int (bus_next_session_id b)" "\<forall>t n. 0 < n \<longrightarrow> 0 < wr t n \<and> wr t n \<le> int n"
  shows "\<exists>resp b' bytes. serve_message now (Some msg) b = (Some resp, b') \<and>
    bus_turn now (stream_reader piece (encode_message msg)) wr b = (bytes, b') \<and> length bytes = sizeof_bus_message \<and>
    map_option decode_message (read_full (stream_reader piece' bytes) sizeof_bus_message []) = Some resp \<and>
    (im_type msg = msg_code IPC_MSG_PERM_CHECK \<longrightarrow>
       im_type resp = msg_code IPC_MSG_PERM_GRANT \<and> im_perm_level resp = im_perm_level msg)"
proof -
  have full: "read_full (stream_reader q (encode_message m)) sizeof_bus_message [] = Some (encode_message m)"
    if "message_ok m" for m q
    using that read_full_stream [of "[]" "encode_message m" sizeof_bus_message q] by (simp add: length_encode_message)
  obtain resp b' where r: "serve_message now (Some msg) b = (Some resp, b')" "message_ok resp"
    using serve_message_ok [OF assms(1,2)] by blast
  have "bus_turn now (stream_reader piece (encode_message msg)) wr b = (encode_message resp, b')"
    using assms r by (simp add: bus_turn_def full decode_encode_message write_full_all)
  moreover have "im_type resp = msg_code IPC_MSG_PERM_GRANT \<and> im_perm_level resp = im_perm_level msg"
    if "im_type msg = msg_code IPC_MSG_PERM_CHECK"
  proof -
    have "msg_code IPC_MSG_PERM_CHECK \<noteq> msg_code IPC_MSG_HEARTBEAT" by (simp add: msg_code_def ipc_msg_types_def)
    then have "route_message msg b = (resp, b')" using that r(1) by (auto simp: serve_message_def split: prod.splits)
    with route_message_decisions [of msg b] that show ?thesis by simp
  qed
  ultimately show ?thesis using r full decode_encode_message length_encode_message by fastforce
qed

lemma bus_wire_exchange_witness:
  "\<exists>resp b' bytes. serve_message 7 (Some (zero_message\<lparr>im_perm_level := 11\<rparr>)) ipc_bus_init = (Some resp, b') \<and>
    bus_turn 7 (stream_reader (\<lambda>t. 4) (encode_message (zero_message\<lparr>im_perm_level := 11\<rparr>))) (\<lambda>t n. 1) ipc_bus_init = (bytes, b') \<and>
    length bytes = sizeof_bus_message \<and>
    map_option decode_message (read_full (stream_reader (\<lambda>t. 0) bytes) sizeof_bus_message []) = Some resp \<and>
    im_perm_level resp = 11"
proof -
  have "message_ok (zero_message\<lparr>im_perm_level := 11\<rparr>)"
    by (simp add: message_ok_def zero_message_def c_string_def) (simp add: c_int_def)
  moreover have "c_int (bus_next_session_id ipc_bus_init)" by (simp add: ipc_bus_init_def c_int_def)
  moreover have "im_type (zero_message\<lparr>im_perm_level := 11\<rparr>) = msg_code IPC_MSG_PERM_CHECK"
    by (simp add: zero_message_def msg_code_def ipc_msg_types_def)
  ultimately show ?thesis
    using bus_wire_exchange [of "zero_message\<lparr>im_perm_level := 11\<rparr>" ipc_bus_init "\<lambda>t n. 1" 7 "\<lambda>t. 4" "\<lambda>t. 0"] by fastforce
qed

end
