(* ===== verification/Line_Editor.thy ===== *)
theory Line_Editor
  imports Prelude
begin

text \<open>
  The line editor of the system UI, \<open>read_line\<close> of \<open>frontend/ui/system_ui.c\<close>, at the level of its
  character buffer, with its history.  The abstract editor keeps the text before and after the cursor;
  \<open>read_line\<close> refines it for every input and whatever the buffer held before.
\<close>

section \<open>The code\<close>

definition MAX_HISTORY :: nat where "MAX_HISTORY = 64"
definition MAX_LINE :: nat where "MAX_LINE = 1024"
definition PROMPT :: string where "PROMPT = ''conceptos> ''"

abbreviation ESC :: char where "ESC \<equiv> CHR 0x1B"

record line_state =
  ls_buf :: string
  ls_len :: nat
  ls_pos :: nat
  ls_hpos :: nat
  ls_out :: string

definition memmove :: "nat \<Rightarrow> nat \<Rightarrow> nat \<Rightarrow> string \<Rightarrow> string" where
  "memmove dst src n buf = take dst buf @ take n (drop src buf) @ drop (dst + n) buf"

text \<open>\<open>strncpy(buf, s, size - 1); buf[size - 1] = 0\<close>: the rest of the buffer is filled with NULs.\<close>

definition strncpy_buf :: "string \<Rightarrow> string" where
  "strncpy_buf s = fit MAX_LINE s @ replicate (MAX_LINE - length (fit MAX_LINE s)) NUL"

definition echo :: "string \<Rightarrow> line_state \<Rightarrow> line_state" where
  "echo s ls = ls\<lparr>ls_out := ls_out ls @ s\<rparr>"

definition redraw :: "line_state \<Rightarrow> line_state" where
  "redraw ls = echo (CR # ESC # ''[2K'' @ PROMPT @ cstr (ls_buf ls)) ls"

definition key_up :: "string list \<Rightarrow> line_state \<Rightarrow> line_state" where
  "key_up history ls =
     (if ls_hpos ls > 0 then
        (let h = ls_hpos ls - 1; buf = strncpy_buf (history ! h); len = length (cstr buf) in
         redraw (ls\<lparr>ls_hpos := h, ls_buf := buf, ls_len := len, ls_pos := len\<rparr>))
      else ls)"

definition key_down :: "string list \<Rightarrow> line_state \<Rightarrow> line_state" where
  "key_down history ls =
     (if ls_hpos ls < length history then
        (let h = ls_hpos ls + 1 in
         if h < length history then
           (let buf = strncpy_buf (history ! h); len = length (cstr buf) in
            redraw (ls\<lparr>ls_hpos := h, ls_buf := buf, ls_len := len, ls_pos := len\<rparr>))
         else redraw (ls\<lparr>ls_hpos := h, ls_buf := (ls_buf ls)[0 := NUL], ls_len := 0, ls_pos := 0\<rparr>))
      else ls)"

definition key_right :: "line_state \<Rightarrow> line_state" where
  "key_right ls =
     (if ls_pos ls < ls_len ls then echo (ESC # ''[1C'') (ls\<lparr>ls_pos := ls_pos ls + 1\<rparr>) else ls)"

definition key_left :: "line_state \<Rightarrow> line_state" where
  "key_left ls =
     (if ls_pos ls > 0 then echo (ESC # ''[1D'') (ls\<lparr>ls_pos := ls_pos ls - 1\<rparr>) else ls)"

definition key_escape :: "string list \<Rightarrow> char \<Rightarrow> char \<Rightarrow> line_state \<Rightarrow> line_state" where
  "key_escape history a b ls =
     (if a = CHR ''['' then
        (if b = CHR ''A'' then key_up history ls
         else if b = CHR ''B'' then key_down history ls
         else if b = CHR ''C'' then key_right ls
         else if b = CHR ''D'' then key_left ls else ls)
      else ls)"

definition key_backspace :: "line_state \<Rightarrow> line_state" where
  "key_backspace ls =
     (if ls_pos ls > 0 then
        echo (CHR 0x08 # '' '' @ [CHR 0x08])
          (ls\<lparr>ls_buf := memmove (ls_pos ls - 1) (ls_pos ls) (ls_len ls - ls_pos ls + 1) (ls_buf ls),
              ls_pos := ls_pos ls - 1, ls_len := ls_len ls - 1\<rparr>)
      else ls)"

definition printable :: "char \<Rightarrow> bool" where
  "printable c = (0x20 \<le> (of_char c :: nat) \<and> of_char c < (0x7F :: nat))"

definition key_insert :: "char \<Rightarrow> line_state \<Rightarrow> line_state" where
  "key_insert c ls =
     (if printable c \<and> ls_len ls < MAX_LINE - 1 then
        redraw (ls\<lparr>ls_buf := (memmove (ls_pos ls + 1) (ls_pos ls) (ls_len ls - ls_pos ls + 1) (ls_buf ls))
                    [ls_pos ls := c],
                  ls_pos := ls_pos ls + 1, ls_len := ls_len ls + 1\<rparr>)
      else ls)"

text \<open>
  The input is the sequence of results of \<open>read(STDIN_FILENO, &c, 1)\<close>: a byte, or \<open>None\<close> when the call
  does not return 1.  A sequence that ends before the line is complete gives \<open>None\<close>: the loop goes on
  reading.
\<close>

fun read_loop :: "string list \<Rightarrow> char option list \<Rightarrow> line_state \<Rightarrow> (line_state \<times> char option list) option" where
  "read_loop history [] ls = None"
| "read_loop history (None # inp) ls = read_loop history inp ls"
| "read_loop history (Some c # inp) ls =
     (if c = ESC then
        (case inp of
           [] \<Rightarrow> None
         | None # inp1 \<Rightarrow> read_loop history inp1 ls
         | Some a # inp1 \<Rightarrow>
             (case inp1 of
                [] \<Rightarrow> None
              | None # inp2 \<Rightarrow> read_loop history inp2 ls
              | Some b # inp2 \<Rightarrow> read_loop history inp2 (key_escape history a b ls)))
      else if c = CR \<or> c = LF then Some (echo [LF] ls, inp)
      else if c = CHR 0x7F \<or> c = CHR 0x08 then read_loop history inp (key_backspace ls)
      else if c = CHR 0x03 then
        Some (echo (''^C'' @ [LF]) (ls\<lparr>ls_buf := (ls_buf ls)[0 := NUL], ls_len := 0, ls_pos := 0\<rparr>), inp)
      else read_loop history inp (key_insert c ls))"

definition push_history :: "nat \<Rightarrow> string \<Rightarrow> string list \<Rightarrow> string list" where
  "push_history len buf history =
     (if len > 0 \<and> (history = [] \<or> last history \<noteq> cstr buf)
      then (if length history \<ge> MAX_HISTORY then drop 1 history else history) @ [fit MAX_LINE (cstr buf)]
      else history)"

definition read_line ::
  "char option list \<Rightarrow> string list \<Rightarrow> string \<Rightarrow> (nat \<times> string \<times> string list \<times> string \<times> char option list) option" where
  "read_line inp history buf =
     (case read_loop history inp
        \<lparr>ls_buf = buf, ls_len = 0, ls_pos = 0, ls_hpos = length history, ls_out = []\<rparr> of
        None \<Rightarrow> None
      | Some (ls, rest) \<Rightarrow>
          (let buf' = (ls_buf ls)[ls_len ls := NUL] in
           Some (ls_len ls, buf', push_history (ls_len ls) buf' history, ls_out ls, rest)))"

section \<open>The abstract editor\<close>

datatype key =
  Key char | Key_up | Key_down | Key_left | Key_right | Key_back | Key_enter | Key_abort

definition escape_key :: "char \<Rightarrow> char \<Rightarrow> key list" where
  "escape_key a b =
     (if a = CHR ''['' then
        (if b = CHR ''A'' then [Key_up] else if b = CHR ''B'' then [Key_down]
         else if b = CHR ''C'' then [Key_right] else if b = CHR ''D'' then [Key_left] else [])
      else [])"

fun keys_of :: "char option list \<Rightarrow> key list" where
  "keys_of [] = []"
| "keys_of (None # inp) = keys_of inp"
| "keys_of (Some c # inp) =
     (if c = ESC then
        (case inp of
           Some a # Some b # inp2 \<Rightarrow> escape_key a b @ keys_of inp2
         | Some a # None # inp2 \<Rightarrow> keys_of inp2
         | None # inp1 \<Rightarrow> keys_of inp1
         | _ \<Rightarrow> [])
      else if c = CR \<or> c = LF then Key_enter # keys_of inp
      else if c = CHR 0x7F \<or> c = CHR 0x08 then Key_back # keys_of inp
      else if c = CHR 0x03 then Key_abort # keys_of inp
      else if printable c then Key c # keys_of inp else keys_of inp)"

record draft =
  dr_before :: string
  dr_after :: string
  dr_index :: nat

definition edit_key :: "string list \<Rightarrow> key \<Rightarrow> draft \<Rightarrow> draft" where
  "edit_key history k d =
     (case k of
        Key c \<Rightarrow> if length (dr_before d) + length (dr_after d) < 1023
                 then d\<lparr>dr_before := dr_before d @ [c]\<rparr> else d
      | Key_left \<Rightarrow> if dr_before d = [] then d
                    else d\<lparr>dr_before := butlast (dr_before d), dr_after := last (dr_before d) # dr_after d\<rparr>
      | Key_right \<Rightarrow> (case dr_after d of [] \<Rightarrow> d
                      | c # cs \<Rightarrow> d\<lparr>dr_before := dr_before d @ [c], dr_after := cs\<rparr>)
      | Key_back \<Rightarrow> d\<lparr>dr_before := butlast (dr_before d)\<rparr>
      | Key_up \<Rightarrow> if dr_index d = 0 then d
                  else \<lparr>dr_before = history ! (dr_index d - 1), dr_after = [], dr_index = dr_index d - 1\<rparr>
      | Key_down \<Rightarrow> if dr_index d < length history
                    then \<lparr>dr_before = (if dr_index d + 1 < length history then history ! (dr_index d + 1) else []),
                          dr_after = [], dr_index = dr_index d + 1\<rparr>
                    else d
      | _ \<Rightarrow> d)"

fun edit_line :: "string list \<Rightarrow> key list \<Rightarrow> draft \<Rightarrow> string option" where
  "edit_line history [] d = None"
| "edit_line history (k # ks) d =
     (if k = Key_enter then Some (dr_before d @ dr_after d)
      else if k = Key_abort then Some []
      else edit_line history ks (edit_key history k d))"

definition remember :: "string \<Rightarrow> string list \<Rightarrow> string list" where
  "remember line history =
     (if line = [] \<or> (history \<noteq> [] \<and> last history = line) then history
      else drop (length history - 63) history @ [line])"

section \<open>Refinement\<close>

definition rep :: "line_state \<Rightarrow> draft \<Rightarrow> bool" where
  "rep ls d \<longleftrightarrow>
     (\<exists>rest. ls_buf ls = dr_before d @ dr_after d @ rest \<and> rest \<noteq> []) \<and> length (ls_buf ls) = 1024 \<and>
     NUL \<notin> set (dr_before d @ dr_after d) \<and> ls_pos ls = length (dr_before d) \<and>
     ls_len ls = length (dr_before d) + length (dr_after d) \<and> ls_hpos ls = dr_index d"

definition history_ok :: "string list \<Rightarrow> bool" where
  "history_ok history \<longleftrightarrow>
     length history \<le> 64 \<and> (\<forall>h \<in> set history. NUL \<notin> set h \<and> length h < 1024 \<and> h \<noteq> []) \<and> distinct_adj history"

lemma rep_echo [simp]: "rep (echo s ls) d = rep ls d"
  by (simp add: rep_def echo_def)

lemma rep_redraw [simp]: "rep (redraw ls) d = rep ls d"
  by (simp add: redraw_def)

lemma memmove_gap:
  "memmove (length a + 1) (length a) (length b + 1) (a @ b @ x # y # r) = a @ hd (b @ [x]) # b @ x # r"
proof -
  have "drop (length a + 1 + (length b + 1)) (a @ b @ x # y # r) = r" by simp
  then show ?thesis unfolding memmove_def by (cases b) simp_all
qed

lemma memmove_close:
  "a \<noteq> [] \<Longrightarrow> memmove (length a - 1) (length a) (length b + 1) (a @ b @ x # r) = butlast a @ b @ x # x # r"
  by (cases a rule: rev_cases) (simp_all add: memmove_def)

lemma rep_insert:
  assumes "rep ls d" "printable c"
  shows "rep (key_insert c ls) (edit_key history (Key c) d)"
proof (cases "ls_len ls < 1023")
  case True
  obtain rest where r: "ls_buf ls = dr_before d @ dr_after d @ rest" "rest \<noteq> []"
    "length (ls_buf ls) = 1024" using assms(1) by (auto simp: rep_def)
  then obtain x y rest' where xy: "rest = x # y # rest'"
    using True assms(1) by (cases rest rule: list.exhaust; cases "tl rest") (auto simp: rep_def)
  have c: "c \<noteq> NUL" using assms(2) by (auto simp: printable_def)
  have "ls_pos ls = length (dr_before d)" "ls_len ls = length (dr_before d) + length (dr_after d)"
    using assms(1) by (auto simp: rep_def)
  then have "memmove (ls_pos ls + 1) (ls_pos ls) (ls_len ls - ls_pos ls + 1) (ls_buf ls) =
      memmove (length (dr_before d) + 1) (length (dr_before d)) (length (dr_after d) + 1)
        (dr_before d @ dr_after d @ x # y # rest')"
    by (simp add: r(1) xy)
  also have "\<dots>[ls_pos ls := c] = dr_before d @ c # dr_after d @ x # rest'"
    using assms(1) unfolding memmove_gap by (simp add: rep_def list_update_append)
  finally have "(memmove (ls_pos ls + 1) (ls_pos ls) (ls_len ls - ls_pos ls + 1) (ls_buf ls))[ls_pos ls := c] =
      dr_before d @ c # dr_after d @ x # rest'" .
  with assms True r c show ?thesis
    by (auto simp: key_insert_def MAX_LINE_def edit_key_def rep_def redraw_def echo_def xy)
next
  case False
  with assms show ?thesis by (simp add: key_insert_def MAX_LINE_def edit_key_def rep_def)
qed

lemma rep_backspace:
  assumes "rep ls d"
  shows "rep (key_backspace ls) (edit_key history Key_back d)"
proof (cases "dr_before d = []")
  case True
  with assms show ?thesis by (simp add: key_backspace_def edit_key_def rep_def)
next
  case False
  obtain x rest where r: "ls_buf ls = dr_before d @ dr_after d @ x # rest"
    using assms by (auto simp: rep_def neq_Nil_conv)
  have "ls_pos ls = length (dr_before d)" "ls_len ls = length (dr_before d) + length (dr_after d)"
    using assms by (auto simp: rep_def)
  then have "memmove (ls_pos ls - 1) (ls_pos ls) (ls_len ls - ls_pos ls + 1) (ls_buf ls) =
      butlast (dr_before d) @ dr_after d @ x # x # rest"
    using memmove_close [OF False, of "dr_after d" x rest] by (simp add: r)
  moreover obtain n where "length (dr_before d) = Suc n" using False by (cases "dr_before d") auto
  ultimately show ?thesis using assms r
    by (auto simp: key_backspace_def edit_key_def rep_def echo_def dest: in_set_butlastD)
qed

lemma rep_move:
  assumes "rep ls d"
  shows "rep (key_left ls) (edit_key history Key_left d) \<and> rep (key_right ls) (edit_key history Key_right d)"
  using assms
  by (cases "dr_before d" rule: rev_cases; cases "dr_after d")
    (auto simp: key_left_def key_right_def edit_key_def rep_def echo_def)

lemma cstr_append_NUL: "NUL \<notin> set s \<Longrightarrow> cstr (s @ NUL # r) = s"
  by (simp add: cstr_def takeWhile_append)

lemma strncpy_buf_short:
  assumes "NUL \<notin> set s" "length s < 1024"
  shows "cstr (strncpy_buf s) = s \<and> length (strncpy_buf s) = 1024 \<and> (\<exists>r. strncpy_buf s = s @ NUL # r)"
proof -
  have "1024 - length s = Suc (1023 - length s)" using assms(2) by simp
  then have "strncpy_buf s = s @ NUL # replicate (1023 - length s) NUL"
    using assms(2) by (simp add: strncpy_buf_def MAX_LINE_def del: replicate_Suc) simp
  with assms show ?thesis by (auto simp: cstr_append_NUL)
qed

lemma rep_load:
  assumes "NUL \<notin> set h" "length h < 1024"
  shows "rep ((ls :: line_state)\<lparr>ls_hpos := k, ls_buf := strncpy_buf h, ls_len := length (cstr (strncpy_buf h)),
              ls_pos := length (cstr (strncpy_buf h))\<rparr>) \<lparr>dr_before = h, dr_after = [], dr_index = k\<rparr>"
  using strncpy_buf_short [OF assms] assms by (auto simp: rep_def)

lemma rep_history:
  assumes "rep ls d" "history_ok history" "dr_index d \<le> length history"
  shows "rep (key_up history ls) (edit_key history Key_up d) \<and> rep (key_down history ls) (edit_key history Key_down d)"
proof -
  have h: "NUL \<notin> set (history ! i)" "length (history ! i) < 1024" if "i < length history" for i
    using assms(2) that by (auto simp: history_ok_def)
  have hp: "ls_hpos ls = dr_index d" using assms(1) by (simp add: rep_def)
  have up: "rep (key_up history ls) (edit_key history Key_up d)"
    using assms h [of "dr_index d - 1"] rep_load [of "history ! (dr_index d - 1)" "dr_index d - 1" ls]
    by (auto simp: key_up_def edit_key_def hp Let_def)
  have clear: "rep (ls\<lparr>ls_hpos := k, ls_buf := (ls_buf ls)[0 := NUL], ls_len := 0, ls_pos := 0\<rparr>)
      \<lparr>dr_before = [], dr_after = [], dr_index = k\<rparr>" for k
  proof -
    have "length ((ls_buf ls)[0 := NUL]) = 1024" using assms(1) by (simp add: rep_def)
    then have "(ls_buf ls)[0 := NUL] \<noteq> []" by (metis length_0_conv zero_neq_numeral)
    with assms(1) show ?thesis by (simp add: rep_def)
  qed
  have "rep (key_down history ls) (edit_key history Key_down d)"
    using assms h [of "dr_index d + 1"] rep_load [of "history ! (dr_index d + 1)" "dr_index d + 1" ls]
      clear [of "dr_index d + 1"]
    by (auto simp: key_down_def edit_key_def hp Let_def)
  with up show ?thesis by blast
qed

lemma edit_key_index:
  "dr_index d \<le> length history \<Longrightarrow> dr_index (edit_key history k d) \<le> length history"
  by (cases k) (auto simp: edit_key_def split: list.split)

lemma rep_escape:
  assumes "rep ls d" "history_ok history" "dr_index d \<le> length history"
  shows "rep (key_escape history a b ls) (fold (edit_key history) (escape_key a b) d)"
  using rep_history [OF assms] rep_move [OF assms(1)] assms(1)
  by (simp add: key_escape_def escape_key_def)

lemma edit_line_escape:
  "edit_line history (escape_key a b @ ks) d = edit_line history ks (fold (edit_key history) (escape_key a b) d)"
  by (simp add: escape_key_def)

lemma escape_index:
  "dr_index d \<le> length history \<Longrightarrow>
   dr_index (fold (edit_key history) (escape_key a b) d) \<le> length history"
  by (simp add: escape_key_def edit_key_index)

definition finished :: "line_state \<Rightarrow> string \<Rightarrow> bool" where
  "finished ls line \<longleftrightarrow>
     ls_len ls = length line \<and> length line < 1024 \<and> NUL \<notin> set line \<and> length (ls_buf ls) = 1024 \<and>
     take (length line) (ls_buf ls) = line"

lemma rep_finished: "rep ls d \<Longrightarrow> finished (echo s ls) (dr_before d @ dr_after d)"
  by (auto simp: rep_def finished_def echo_def neq_Nil_conv)

lemma read_loop_refines:
  assumes "history_ok history"
  shows "rep ls d \<Longrightarrow> dr_index d \<le> length history \<Longrightarrow>
    rel_option (\<lambda>r line. finished (fst r) line) (read_loop history inp ls) (edit_line history (keys_of inp) d)"
proof (induction inp arbitrary: ls d rule: length_induct)
  case (1 inp)
  then have IH: "rel_option (\<lambda>r line. finished (fst r) line) (read_loop history i l) (edit_line history (keys_of i) e)"
    if "length i < length inp" "rep l e" "dr_index e \<le> length history" for i l e
    using that by blast
  note d = 1(2,3)
  note index = edit_key_index [OF d(2)]
  show ?case
  proof (cases inp)
    case Nil
    then show ?thesis by simp
  next
    case (Cons b inp1)
    show ?thesis
    proof (cases b)
      case None
      with Cons IH [of inp1, OF _ d] show ?thesis by simp
    next
      case (Some c)
      consider (esc) "c = ESC" | (enter) "c = CR \<or> c = LF" | (erase) "c = CHR 0x7F \<or> c = CHR 0x08"
        | (cancel) "c = CHR 0x03" | (other) "c \<notin> {ESC, CR, LF, CHR 0x7F, CHR 0x08, CHR 0x03}" by blast
      then show ?thesis
      proof cases
        case esc
        note e = Cons Some esc
        show ?thesis
        proof (cases inp1)
          case Nil
          with e show ?thesis by simp
        next
          case (Cons x inp2)
          show ?thesis
          proof (cases x)
            case None
            with e Cons IH [of inp2, OF _ d] show ?thesis by simp
          next
            case (Some a)
            note x = Cons Some
            show ?thesis
            proof (cases inp2)
              case Nil
              with e x show ?thesis by simp
            next
              case (Cons y inp3)
              note IH3 = IH [of inp3, OF _ rep_escape [OF d(1) assms d(2)] escape_index [OF d(2)]]
              with e x Cons IH [of inp3, OF _ d] show ?thesis
                by (cases y) (simp_all add: edit_line_escape)
            qed
          qed
        qed
      next
        case enter
        then show ?thesis using rep_finished [OF d(1)] by (auto simp: Cons Some)
      next
        case erase
        then show ?thesis using IH [of inp1, OF _ rep_backspace [OF d(1)] index] by (auto simp: Cons Some)
      next
        case cancel
        have "length (ls_buf ls) = 1024" using d(1) by (simp add: rep_def)
        then show ?thesis using cancel by (simp add: Cons Some finished_def echo_def)
      next
        case other
        show ?thesis
        proof (cases "printable c")
          case True
          with other IH [of inp1, OF _ rep_insert [OF d(1) True] index] show ?thesis
            by (simp add: Cons Some)
        next
          case False
          then have "key_insert c ls = ls" by (simp add: key_insert_def)
          with other False IH [of inp1, OF _ d] show ?thesis by (simp add: Cons Some)
        qed
      qed
    qed
  qed
qed

lemma push_history_remember:
  assumes "history_ok history" "finished ls line"
  shows "push_history (ls_len ls) ((ls_buf ls)[ls_len ls := NUL]) history = remember line history \<and>
         cstr ((ls_buf ls)[ls_len ls := NUL]) = line"
proof -
  obtain x rest where b: "ls_buf ls = line @ x # rest"
  proof (cases "drop (length line) (ls_buf ls)")
    case Nil
    with assms(2) show thesis by (simp add: finished_def)
  next
    case (Cons x rest)
    with append_take_drop_id [of "length line" "ls_buf ls"] assms(2) have "ls_buf ls = line @ x # rest"
      by (simp add: finished_def)
    then show thesis by (rule that)
  qed
  have n: "(ls_buf ls)[ls_len ls := NUL] = line @ NUL # rest"
    using assms(2) by (simp add: finished_def b)
  have c: "cstr ((ls_buf ls)[ls_len ls := NUL]) = line"
    unfolding n using assms(2) by (intro cstr_append_NUL) (simp add: finished_def)
  moreover have "drop (if length history \<ge> 64 then 1 else 0) history = drop (length history - 63) history"
    using assms(1) by (auto simp: history_ok_def)
  ultimately show ?thesis using assms(2)
    by (auto simp: push_history_def remember_def finished_def MAX_HISTORY_def MAX_LINE_def split: if_splits)
qed

lemma distinct_adj_snoc: "distinct_adj (xs @ [x]) \<longleftrightarrow> distinct_adj xs \<and> (xs = [] \<or> last xs \<noteq> x)"
  by (simp add: distinct_adj_append_iff)

lemma distinct_adj_drop: "distinct_adj xs \<Longrightarrow> distinct_adj (drop n xs)"
  by (metis append_take_drop_id distinct_adj_append_iff)

lemma remember_ok:
  assumes "history_ok history" "NUL \<notin> set line" "length line < 1024"
  shows "history_ok (remember line history)"
  using assms distinct_adj_drop [of history "length history - 63"]
  by (auto simp: history_ok_def remember_def distinct_adj_snoc last_drop dest: in_set_dropD)


definition result :: "nat \<times> string \<times> string list \<times> string \<times> char option list \<Rightarrow> nat \<times> string \<times> string list" where
  "result = (\<lambda>(n, buf, history, _, _). (n, cstr buf, history))"

lemma read_line_spec:
  assumes "history_ok history" "length buf = 1024"
  shows "map_option result (read_line inp history buf) =
           map_option (\<lambda>line. (length line, line, remember line history))
             (edit_line history (keys_of inp) \<lparr>dr_before = [], dr_after = [], dr_index = length history\<rparr>)"
proof -
  let ?ls = "\<lparr>ls_buf = buf, ls_len = 0, ls_pos = 0, ls_hpos = length history, ls_out = []\<rparr>"
  let ?d = "\<lparr>dr_before = [], dr_after = [], dr_index = length history\<rparr>"
  have "buf \<noteq> []" using assms(2) by auto
  then have "rep ?ls ?d" using assms(2) by (simp add: rep_def)
  from read_loop_refines [OF assms(1) this, of inp]
  have r: "rel_option (\<lambda>r line. finished (fst r) line) (read_loop history inp ?ls) (edit_line history (keys_of inp) ?d)"
    by simp
  show ?thesis
  proof (cases "read_loop history inp ?ls")
    case None
    with r show ?thesis by (simp add: read_line_def)
  next
    case (Some p)
    obtain ls rest where p: "p = (ls, rest)" by force
    with r Some obtain line where l: "edit_line history (keys_of inp) ?d = Some line" "finished ls line"
      by (cases "edit_line history (keys_of inp) ?d") auto
    from l(2) have "ls_len ls = length line" by (simp add: finished_def)
    with push_history_remember [OF assms(1) l(2)] show ?thesis
      by (simp add: read_line_def Some p l(1) result_def Let_def)
  qed
qed

lemma read_line_line:
  assumes "history_ok history" "length buf = 1024" "read_line inp history buf = Some (n, buf', history', out, rest)"
  shows "history_ok history' \<and> length buf' = 1024"
proof -
  have "buf \<noteq> []" using assms(2) by auto
  then have "rep \<lparr>ls_buf = buf, ls_len = 0, ls_pos = 0, ls_hpos = length history, ls_out = []\<rparr>
      \<lparr>dr_before = [], dr_after = [], dr_index = length history\<rparr>" using assms(2) by (simp add: rep_def)
  from read_loop_refines [OF assms(1) this, of inp] assms(3)
  obtain ls line where "finished ls line" "buf' = (ls_buf ls)[ls_len ls := NUL]"
    "history' = push_history (ls_len ls) buf' history"
    by (auto simp: read_line_def Let_def option_rel_Some1 split: option.splits)
  with push_history_remember [OF assms(1), of ls line] remember_ok [OF assms(1), of line]
  show ?thesis by (simp add: finished_def)
qed

section \<open>Properties\<close>

text \<open>
  Claim C29.  The line editor.  For every input and whatever the buffer held before, the buffer-level
  editor returns exactly the line the abstract editor builds, with its length, and remembers it in the
  history; it goes on reading exactly when the abstract editor does.
\<close>

theorem read_line_refines_editor:
  assumes "history_ok history" "length buf = 1024"
  shows "map_option result (read_line inp history buf) =
           map_option (\<lambda>line. (length line, line, remember line history))
             (edit_line history (keys_of inp) \<lparr>dr_before = [], dr_after = [], dr_index = length history\<rparr>)"
  by (rule read_line_spec [OF assms])

theorem read_line_refines_editor_witness:
  "map_option result (read_line (map Some (''helXp'' @ [ESC] @ ''[D'' @ [CHR 0x7F, LF])) [''status''] (replicate 1024 NUL)) =
     Some (4, ''help'', [''status'', ''help''])"
proof -
  have "history_ok [''status'']" by (simp add: history_ok_def)
  from read_line_refines_editor [OF this, of "replicate 1024 NUL"] show ?thesis
    by (simp add: printable_def escape_key_def edit_key_def remember_def)
qed

fun read_lines :: "char option list list \<Rightarrow> string list \<Rightarrow> string \<Rightarrow> string list" where
  "read_lines [] history buf = history"
| "read_lines (inp # inps) history buf =
     (case read_line inp history buf of
        None \<Rightarrow> history
      | Some (n, buf', history', out, rest) \<Rightarrow> read_lines inps history' buf')"

text \<open>
  The history.  After any lines read from an empty history there are at most 64 entries,
  none empty, and no two neighbours are equal.
\<close>

lemma history_bounded:
  assumes "length buf = 1024"
  shows "length (read_lines inps [] buf) \<le> 64 \<and> [] \<notin> set (read_lines inps [] buf) \<and>
         distinct_adj (read_lines inps [] buf)"
proof -
  have "history_ok (read_lines inps history buf)" if "history_ok history" "length buf = 1024" for history buf
    using that
  proof (induction inps arbitrary: history buf)
    case (Cons inp inps)
    then show ?case using read_line_line [OF Cons.prems] by (auto split: option.split)
  qed simp
  from this [of "[]" buf] assms show ?thesis by (auto simp: history_ok_def)
qed

lemma history_bounded_witness:
  "length (read_lines [map Some ''about'' @ [Some LF], map Some ''about'' @ [Some LF]] [] (replicate 1024 NUL)) \<le> 64"
  using history_bounded [of "replicate 1024 NUL"] by (simp del: read_lines.simps)

text \<open>
  Stale characters.  The buffer is not cleared between lines and the screen shows it up to
  its first NUL: after a line with more than one character, the first character typed on the next line
  is shown followed by what is left of the old one.
\<close>

theorem echo_shows_old_line:
  assumes "printable c" "NUL \<notin> set s" "length s \<ge> 2" "length s < 1024"
  shows "ls_out (key_insert c \<lparr>ls_buf = s @ replicate (1024 - length s) NUL, ls_len = 0, ls_pos = 0,
                   ls_hpos = h, ls_out = []\<rparr>) =
           CR # ESC # ''[2K'' @ PROMPT @ c # hd s # drop 2 s"
proof -
  obtain a b r where s: "s = a # b # r" using assms(3) by (cases s; cases "tl s") auto
  have n: "replicate (1024 - length s) NUL = NUL # replicate (1023 - length s) NUL"
    using assms(4) by (simp flip: replicate_Suc add: Suc_diff_le)
  have "c \<noteq> NUL" using assms(1) by (auto simp: printable_def)
  moreover have "replicate (1022 - length r) NUL = NUL # replicate (1021 - length r) NUL"
    using n by (simp add: s)
  ultimately have "cstr (c # a # r @ replicate (1022 - length r) NUL) = c # a # r"
    using assms(2) cstr_append_NUL [of "c # a # r"] by (simp add: s)
  then show ?thesis using assms(1)
    by (simp add: key_insert_def memmove_def redraw_def echo_def s MAX_LINE_def n [unfolded s])
qed

theorem echo_shows_old_line_witness:
  "ls_out (key_insert (CHR ''x'') \<lparr>ls_buf = ''about'' @ replicate 1019 NUL, ls_len = 0, ls_pos = 0,
      ls_hpos = 1, ls_out = []\<rparr>) = CR # ESC # ''[2Kconceptos> xaout''"
  using echo_shows_old_line [of "CHR ''x''" "''about''" 1] by (simp add: printable_def PROMPT_def)

end
