(* ===== verification/System_Ui.thy ===== *)
theory System_Ui
  imports Line_Editor Fresh_Ids System_Manager
begin

text \<open>
  The system UI \<open>frontend/ui/system_ui.c\<close>: notifications, the cached permission level asked from the
  arbiter, the top bar, the commands, the start and one turn of the loop of \<open>main\<close> (the whole run is in \<open>Ui_Session\<close>).  Terminal output is a list of lines.
  The environment of a call holds what the kernel and the clock answer; the arbiter is the model of
  \<open>permission_arbiter.c\<close>.  Byte strings in UTF-8 are spelled as bytes.
\<close>

section \<open>State\<close>

record notification_t =
  nt_id :: int
  nt_app_name :: string
  nt_title :: string
  nt_message :: string
  nt_timestamp :: int
  nt_read :: int
  nt_priority :: int

record ui_t =
  ui_notes :: "notification_t list"
  ui_next_id :: int
  ui_running :: int
  ui_cached :: int
  ui_cache_time :: int
  ui_history :: "string list"
  ui_line :: string

record ui_env =
  ue_now :: int
  ue_pid :: pid_t
  ue_link :: link
  ue_os :: os_view
  ue_enforce :: "string option"
  ue_width :: "int option"
  ue_hms :: "int \<Rightarrow> string"
  ue_hm :: "int \<Rightarrow> string"
  ue_stamp :: "int \<Rightarrow> string"

definition SUI_VERSION :: string where "SUI_VERSION = ''0.1.0''"
definition OS_BRAND :: string where "OS_BRAND = [CHR 0xE6, CHR 0xA6, CHR 0x82, CHR 0xE5, CHR 0xBF,
        CHR 0xB5] @ ''OS''"
definition OS_BRAND_EN :: string where "OS_BRAND_EN = ''Concept OS''"
definition PLATFORM :: string where "PLATFORM = ''ServEcosys''"
definition MAX_NOTIFICATIONS :: nat where "MAX_NOTIFICATIONS = 32"
definition PERM_LEVEL_CACHE_TTL :: int where "PERM_LEVEL_CACHE_TTL = 30"

definition ui_init :: "string \<Rightarrow> ui_t" where
  "ui_init line = \<lparr>ui_notes = [], ui_next_id = 1, ui_running = 1, ui_cached = -2, ui_cache_time = 0,
     ui_history = [], ui_line = line\<rparr>"

definition ui_level_name :: "int \<Rightarrow> string" where
  "ui_level_name level =
     (if level = 0 then ''readonly'' else if level = 1 then ''sandbox'' else if level = 2 then ''user''
      else if level = 3 then ''debug'' else if level = 4 then ''bl_unlock''
      else if level = 5 then ''root_split'' else if level = 6 then ''module_root''
      else if level = 7 then ''kernel_root'' else if level = 8 then ''selinux_control''
      else if level = 9 then ''kmod_load'' else if level = 10 then ''custom_kernel''
      else if level = 11 then ''bootloader'' else ''unknown'')"

section \<open>Notifications\<close>

definition add_notification :: "int \<Rightarrow> string \<Rightarrow> string \<Rightarrow> string \<Rightarrow> int \<Rightarrow> ui_t \<Rightarrow> int \<times> ui_t" where
  "add_notification now app title msg priority ui =
     (let notes = (if length (ui_notes ui) \<ge> MAX_NOTIFICATIONS then drop 1 (ui_notes ui) else ui_notes ui);
          nid = ui_next_id ui
      in (nid, ui\<lparr>ui_notes := notes @
               [\<lparr>nt_id = nid, nt_app_name = fit 64 app, nt_title = fit 128 title, nt_message = fit 256 msg,
                 nt_timestamp = now, nt_read = 0, nt_priority = priority\<rparr>],
               ui_next_id := nid + 1\<rparr>))"

definition dismiss_notification :: "int \<Rightarrow> ui_t \<Rightarrow> ui_t" where
  "dismiss_notification nid ui =
     (case index_of (\<lambda>n. nt_id n = nid) (ui_notes ui) of
        Some i \<Rightarrow> ui\<lparr>ui_notes := remove_at i (ui_notes ui)\<rparr>
      | None \<Rightarrow> ui)"

definition clear_all_notifications :: "ui_t \<Rightarrow> ui_t" where
  "clear_all_notifications ui = ui\<lparr>ui_notes := []\<rparr>"

section \<open>Queries\<close>

definition ui_request :: "pid_t \<Rightarrow> perm_request_t" where
  "ui_request me = \<lparr>rq_type = 1, rq_pid = me, rq_target_level = 0, rq_capability = [], rq_resource = [],
     rq_request_id = 1\<rparr>"

text \<open>The exchange with the arbiter; \<open>None\<close> when any of its system calls fails.\<close>

definition ask_level :: "ui_env \<Rightarrow> arbiter_t \<Rightarrow> int option \<times> arbiter_t" where
  "ask_level env arb =
     (case ue_link env of
        Link_down \<Rightarrow> (None, arb)
      | Link_lost \<Rightarrow> (None, snd (serve_client (ue_os env) (Some (ui_request (ue_pid env))) (Some (ue_pid env)) arb))
      | Link_ok \<Rightarrow>
          (let (resp, arb') = serve_client (ue_os env) (Some (ui_request (ue_pid env))) (Some (ue_pid env)) arb
           in (map_option rs_current_level resp, arb')))"

definition query_level :: "ui_env \<Rightarrow> ui_t \<times> arbiter_t \<Rightarrow> int \<times> ui_t \<times> arbiter_t" where
  "query_level env = (\<lambda>(ui, arb).
     if ui_cached ui \<ge> -1 \<and> ue_now env - ui_cache_time ui < PERM_LEVEL_CACHE_TTL then (ui_cached ui, ui, arb)
     else
       (let (answer, arb') = ask_level env arb; lvl = (case answer of Some l \<Rightarrow> l | None \<Rightarrow> -1)
        in (lvl, ui\<lparr>ui_cached := lvl, ui_cache_time := ue_now env\<rparr>, arb')))"

definition query_selinux :: "ui_env \<Rightarrow> int" where
  "query_selinux env = (case ue_enforce env of Some (c # _) \<Rightarrow> if c = CHR ''1'' then 1 else 0 | _ \<Rightarrow> -1)"

definition term_width :: "ui_env \<Rightarrow> int" where
  "term_width env = (case ue_width env of Some w \<Rightarrow> if w > 0 then w else 80 | None \<Rightarrow> 80)"

definition selinux_word :: "int \<Rightarrow> string" where
  "selinux_word s = (if s < 0 then ''n/a'' else if s \<noteq> 0 then ''enforcing'' else ''permissive'')"

section \<open>Output\<close>

definition draw_topbar :: "ui_env \<Rightarrow> ui_t \<times> arbiter_t \<Rightarrow> string list \<times> ui_t \<times> arbiter_t" where
  "draw_topbar env st =
     (let (my_level, ui, arb) = query_level env st;
          left = fit 64 ('' '' @ OS_BRAND @ '' | '' @ OS_BRAND_EN);
          lvl = (if my_level \<ge> 0
                 then fit 32 (''perm:'' @ ui_level_name my_level @ ''('' @ dec my_level @ '')'')
                 else ''perm:n/a'');
          right = fit 192 ('' dom:uid_dom_t | '' @ lvl @ '' | selinux:'' @ selinux_word (query_selinux env) @
                    '' | '' @ ue_hms env (ue_now env) @ '' | N:'' @ dec (int (length (ui_notes ui))) @ '' '');
          pad = max 1 (term_width env - int (length left) - int (length right));
          line = fit 512 (left @ replicate (nat pad) (CHR '' '') @ right)
      in ([ESC # ''[30;47m'' @ padr (nat (term_width env)) line @ ESC # ''[0m''], ui, arb))"

definition print_notifications :: "ui_env \<Rightarrow> ui_t \<Rightarrow> string list" where
  "print_notifications env ui =
     (if ui_notes ui = [] then [''  (no notifications)'']
      else (''  Notifications ('' @ dec (int (length (ui_notes ui))) @ ''):'') #
        concat (map (\<lambda>n.
          [''  '' @ padr 4 (dec (nt_id n)) @ '' '' @
             (if nt_priority n \<ge> 3 then ''[CRITICAL] '' else if nt_priority n \<ge> 2 then ''[HIGH] '' else []) @
             nt_app_name n @ '' ['' @ ue_hm env (nt_timestamp n) @ ''] '' @ nt_title n,
           ''        '' @ nt_message n]) (ui_notes ui)))"

definition cmd_help :: "string list" where
  "cmd_help =
     [''  '' @ [CHR 0xE6, CHR 0xA6, CHR 0x82, CHR 0xE5, CHR 0xBF, CHR 0xB5] @ ''OS commands:'',
      ''    help              show this help'',
      ''    status            system / domain / permission status'',
      ''    level             show my permission level'',
      ''    notifications     list notifications'',
      ''    dismiss <id>      dismiss a notification'',
      ''    clear             clear all notifications'',
      ''    clear_screen      clear the terminal'',
      ''    about             '' @ OS_BRAND @ '' info'',
      ''    exit / quit       leave the UI'']"

definition ui_cmd_status :: "ui_env \<Rightarrow> ui_t \<times> arbiter_t \<Rightarrow> string list \<times> ui_t \<times> arbiter_t" where
  "ui_cmd_status env st =
     (let (my_level, ui, arb) = query_level env st in
      ([''  '' @ OS_BRAND @ '' '' @ SUI_VERSION @ '' ('' @ OS_BRAND_EN @ '')'',
        ''  '' @ [CHR 0xE6, CHR 0xA6, CHR 0x82, CHR 0xE5, CHR 0xBF,
        CHR 0xB5] @ ''OS = '' @ PLATFORM @ '' '' @ [CHR 0xE7, CHR 0xB3, CHR 0xBB, CHR 0xE6, CHR 0xA0,
        CHR 0x87, CHR 0xE5, CHR 0x87, CHR 0x86, CHR 0xE6, CHR 0xA6, CHR 0x82, CHR 0xE5, CHR 0xBF,
        CHR 0xB5, CHR 0xE5, CHR 0x8C, CHR 0x96, CHR 0xE5, CHR 0x91, CHR 0x88, CHR 0xE7, CHR 0x8E, CHR 0xB0],
        ''  domain      : uid_dom_t'',
        ''  perm level  : '' @ (if my_level \<ge> 0 then ui_level_name my_level else ''n/a'') @ '' ('' @ dec my_level @ '')'',
        ''  selinux     : '' @ selinux_word (query_selinux env),
        ''  now         : '' @ ue_stamp env (ue_now env),
        ''  notifications: '' @ dec (int (length (ui_notes ui))),
        ''  arber sock  : /var/run/servecosys_perm.sock''], ui, arb))"

definition cmd_about :: "string list" where
  "cmd_about =
     [[],
      ''      '' @ OS_BRAND @ ''  (Concept OS) v'' @ SUI_VERSION,
      ''      =============================='',
      ''      '' @ [CHR 0xE6, CHR 0xA6, CHR 0x82, CHR 0xE5, CHR 0xBF, CHR 0xB5] @ ''OS'' @ [CHR 0xEF,
        CHR 0xBC, CHR 0x9A] @ ''ServEcosys '' @ [CHR 0xE7, CHR 0xB3, CHR 0xBB, CHR 0xE6, CHR 0x93,
        CHR 0x8D, CHR 0xE4, CHR 0xBD, CHR 0x9C, CHR 0xE7, CHR 0xB3, CHR 0xBB, CHR 0xE7, CHR 0xBB,
        CHR 0x9F, CHR 0xE6, CHR 0xA0, CHR 0x87, CHR 0xE5, CHR 0x87, CHR 0x86, CHR 0xE7, CHR 0x9A,
        CHR 0x84, CHR 0xE6, CHR 0xA6, CHR 0x82, CHR 0xE5, CHR 0xBF, CHR 0xB5, CHR 0xE5, CHR 0x8C,
        CHR 0x96, CHR 0xE5, CHR 0x91, CHR 0x88, CHR 0xE7, CHR 0x8E, CHR 0xB0],
      ''      '' @ [CHR 0xE9, CHR 0xA1, CHR 0xB6, CHR 0xE5, CHR 0xB1, CHR 0x82, CHR 0xE4, CHR 0xB8,
        CHR 0xBA, CHR 0xE6, CHR 0xA6, CHR 0x82, CHR 0xE5, CHR 0xBF, CHR 0xB5, CHR 0xE5, CHR 0xBD,
        CHR 0xA2, CHR 0xE6, CHR 0x80, CHR 0x81] @ '' UI'' @ [CHR 0xEF, CHR 0xBC, CHR 0x88, CHR 0xE9,
        CHR 0xA1, CHR 0xB6, CHR 0xE9, CHR 0x83, CHR 0xA8, CHR 0xE5, CHR 0xAF, CHR 0xBC, CHR 0xE8,
        CHR 0x88, CHR 0xAA, CHR 0xE6, CHR 0xA0, CHR 0x8F] @ '' + '' @ [CHR 0xE4, CHR 0xBA, CHR 0xA4,
        CHR 0xE4, CHR 0xBA, CHR 0x92, CHR 0xE7, CHR 0xBB, CHR 0x88, CHR 0xE7, CHR 0xAB, CHR 0xAF,
        CHR 0xEF, CHR 0xBC, CHR 0x89, CHR 0xEF, CHR 0xBC, CHR 0x8C],
      ''      '' @ [CHR 0xE5, CHR 0xBA, CHR 0x95, CHR 0xE5, CHR 0xB1, CHR 0x82, CHR 0xE5, CHR 0xAE,
        CHR 0x9E, CHR 0xE7, CHR 0x8E, CHR 0xB0, CHR 0xE9, CHR 0x81, CHR 0xB5, CHR 0xE5, CHR 0xBE,
        CHR 0xAA] @ '' ServEcosys '' @ [CHR 0xE6, CHR 0xA0, CHR 0x87, CHR 0xE5, CHR 0x87, CHR 0x86,
        CHR 0xEF, CHR 0xBC, CHR 0x88, CHR 0xE5, CHR 0x9F, CHR 0x9F] @ '' / '' @ [CHR 0xE6, CHR 0x9D,
        CHR 0x83, CHR 0xE9, CHR 0x99, CHR 0x90, CHR 0xE7, CHR 0xBA,
        CHR 0xA7] @ '' / SELinux'' @ [CHR 0xEF, CHR 0xBC, CHR 0x89, CHR 0xE3, CHR 0x80, CHR 0x82],
      []]"

section \<open>Commands\<close>

text \<open>\<open>strtok_r\<close> with the delimiters blank and tab, from offset \<open>i\<close> of the buffer, which it cuts.\<close>

definition strtok :: "nat \<Rightarrow> string \<Rightarrow> string option \<times> nat \<times> string" where
  "strtok i buf =
     (let j = i + length (takeWhile (\<lambda>c. c = CHR '' '' \<or> c = TAB) (drop i buf)) in
      if buf ! j = NUL then (None, j, buf)
      else
        (let tok = takeWhile (\<lambda>c. c \<noteq> CHR '' '' \<and> c \<noteq> TAB \<and> c \<noteq> NUL) (drop j buf); k = j + length tok in
         if buf ! k = NUL then (Some tok, k, buf) else (Some tok, k + 1, buf[k := NUL])))"

definition cmd_dismiss :: "nat \<Rightarrow> ui_t \<Rightarrow> string list \<times> ui_t" where
  "cmd_dismiss save ui =
     (case strtok save (ui_line ui) of
        (None, _, buf) \<Rightarrow> ([''  usage: dismiss <id>''], ui\<lparr>ui_line := buf\<rparr>)
      | (Some idstr, _, buf) \<Rightarrow>
          ([''  dismissed '' @ dec (atoi idstr)], dismiss_notification (atoi idstr) (ui\<lparr>ui_line := buf\<rparr>)))"

definition ui_cmd_level :: "ui_env \<Rightarrow> ui_t \<times> arbiter_t \<Rightarrow> string list \<times> ui_t \<times> arbiter_t" where
  "ui_cmd_level env st =
     (let (lv, st') = query_level env st in
      ([if lv \<ge> 0 then ''  current perm level: '' @ ui_level_name lv @ '' ('' @ dec lv @ '')''
        else ''  cannot reach permission arbiter (is SED up?)''], st'))"

definition run_command :: "ui_env \<Rightarrow> ui_t \<times> arbiter_t \<Rightarrow> string list \<times> ui_t \<times> arbiter_t" where
  "run_command env = (\<lambda>(ui, arb).
     case strtok 0 (ui_line ui) of
       (None, _, buf) \<Rightarrow> ([], ui\<lparr>ui_line := buf\<rparr>, arb)
     | (Some cmd, save, buf) \<Rightarrow>
         (let ui = ui\<lparr>ui_line := buf\<rparr> in
          if cmd = ''help'' \<or> cmd = ''?'' then (cmd_help, ui, arb)
          else if cmd = ''status'' then ui_cmd_status env (ui, arb)
          else if cmd = ''level'' then ui_cmd_level env (ui, arb)
          else if cmd = ''notifications'' \<or> cmd = ''noti'' then (print_notifications env ui, ui, arb)
          else if cmd = ''dismiss'' then (let (out, ui') = cmd_dismiss save ui in (out, ui', arb))
          else if cmd = ''clear'' then ([''  all notifications cleared''], clear_all_notifications ui, arb)
          else if cmd = ''clear_screen'' \<or> cmd = ''cls'' then ([], ui, arb)
          else if cmd = ''about'' then (cmd_about, ui, arb)
          else if cmd = ''exit'' \<or> cmd = ''quit'' then ([''  good bye''], ui\<lparr>ui_running := 0\<rparr>, arb)
          else ([''  unknown command: '' @ cmd @ ''  (try '' @ [CHR 0x27] @ ''help'' @ [CHR 0x27] @ '')''], ui, arb)))"

section \<open>The main loop\<close>

text \<open>
  One turn with a terminal.  \<open>env\<close> is the environment when the top bar is drawn, \<open>env'\<close> when the
  command runs; \<open>inp\<close> is what the terminal delivers.  \<open>None\<close> when the line is not complete.
\<close>

definition ui_turn ::
  "ui_env \<Rightarrow> ui_env \<Rightarrow> char option list \<Rightarrow> ui_t \<times> arbiter_t \<Rightarrow>
   (string list \<times> char option list \<times> ui_t \<times> arbiter_t) option" where
  "ui_turn env env' inp st =
     (let (bar, ui, arb) = draw_topbar env st in
      case read_line inp (ui_history ui) (ui_line ui) of
        None \<Rightarrow> None
      | Some (n, buf, history, out, rest) \<Rightarrow>
          (let (lines, st') = run_command env' (ui\<lparr>ui_line := buf, ui_history := history\<rparr>, arb)
           in Some (bar @ [PROMPT @ out] @ lines, rest, st')))"

definition ui_start :: "ui_env \<Rightarrow> string \<Rightarrow> arbiter_t \<Rightarrow> string list \<times> ui_t \<times> arbiter_t" where
  "ui_start env line arb =
     (let ui = snd (add_notification (ue_now env) ''System'' (''Welcome to '' @ OS_BRAND)
                 (''Concept OS v0.1.0 ready (ServEcosys '' @ [CHR 0xE6, CHR 0xA0, CHR 0x87, CHR 0xE5,
        CHR 0x87, CHR 0x86] @ '')'') 1 (ui_init line));
          ui = snd (add_notification (ue_now env) ''System'' ''SELinux Enforcing''
                 ''Security policy loaded successfully'' 1 ui);
          (bar, st) = draw_topbar env (ui, arb)
      in (bar @ [[], ''  '' @ OS_BRAND @ '' '' @ SUI_VERSION @ ''  -  '' @ [CHR 0xE9, CHR 0xA1,
        CHR 0xB6, CHR 0xE9, CHR 0x83, CHR 0xA8, CHR 0xE5, CHR 0xAF, CHR 0xBC, CHR 0xE8, CHR 0x88,
        CHR 0xAA, CHR 0xE6, CHR 0xA0, CHR 0x8F] @ '' + '' @ [CHR 0xE4, CHR 0xBA, CHR 0xA4, CHR 0xE4,
        CHR 0xBA, CHR 0x92, CHR 0xE7, CHR 0xBB, CHR 0x88, CHR 0xE7, CHR 0xAB, CHR 0xAF],
                 ''  '' @ [CHR 0xE6, CHR 0xA6, CHR 0x82, CHR 0xE5, CHR 0xBF,
        CHR 0xB5] @ ''OS = '' @ PLATFORM @ '' '' @ [CHR 0xE7, CHR 0xB3, CHR 0xBB, CHR 0xE6, CHR 0xA0,
        CHR 0x87, CHR 0xE5, CHR 0x87, CHR 0x86, CHR 0xE6, CHR 0xA6, CHR 0x82, CHR 0xE5, CHR 0xBF,
        CHR 0xB5, CHR 0xE5, CHR 0x8C, CHR 0x96, CHR 0xE5, CHR 0x91, CHR 0x88, CHR 0xE7, CHR 0x8E, CHR 0xB0],
                 ''  type '' @ [CHR 0x27] @ ''help'' @ [CHR 0x27] @ '' for commands, '' @ [CHR 0x27] @ ''exit'' @ [CHR 0x27] @ '' to quit'', []], st))"


section \<open>Notifications\<close>

datatype note_event = Note_add int string string string int | Note_dismiss int | Note_clear

fun note_step :: "note_event \<Rightarrow> ui_t \<Rightarrow> ui_t" where
  "note_step (Note_add now app title msg priority) ui = snd (add_notification now app title msg priority ui)"
| "note_step (Note_dismiss nid) ui = dismiss_notification nid ui"
| "note_step Note_clear ui = clear_all_notifications ui"

definition note_ids :: "ui_t \<Rightarrow> int list" where
  "note_ids ui = map nt_id (ui_notes ui)"

interpretation noti: fresh_ids note_step note_ids ui_next_id MAX_NOTIFICATIONS
proof
  fix s :: ui_t and ev
  assume len: "length (note_ids s) \<le> MAX_NOTIFICATIONS"
  have dismiss: "subseq (map nt_id (remove_at i (ui_notes s))) (map nt_id (ui_notes s))" for i
    by (intro subseq_map subseq_remove_at)
  have drop: "subseq (drop n xs) xs" for n and xs :: "int list"
    by (rule suffix_imp_subseq) (rule suffix_drop)
  show "(ui_next_id (note_step ev s) = ui_next_id s \<and> subseq (note_ids (note_step ev s)) (note_ids s)) \<or>
     (ui_next_id (note_step ev s) = ui_next_id s + 1 \<and> length (note_ids (note_step ev s)) \<le> MAX_NOTIFICATIONS \<and>
      (\<exists>kept. subseq kept (note_ids s) \<and> note_ids (note_step ev s) = kept @ [ui_next_id s]))"
  proof (cases ev)
    case (Note_add now app title msg priority)
    let ?n = "if length (ui_notes s) \<ge> MAX_NOTIFICATIONS then 1 else 0 :: nat"
    have "note_ids (note_step ev s) = drop ?n (note_ids s) @ [ui_next_id s]"
      by (simp add: Note_add add_notification_def note_ids_def Let_def drop_map)
    moreover have "ui_next_id (note_step ev s) = ui_next_id s + 1"
      by (simp add: Note_add add_notification_def Let_def)
    ultimately show ?thesis using len drop [of ?n "note_ids s"]
      by (auto simp: note_ids_def MAX_NOTIFICATIONS_def)
  next
    case (Note_dismiss nid)
    then show ?thesis using dismiss
      by (auto simp: dismiss_notification_def note_ids_def split: option.split)
  next
    case Note_clear
    then show ?thesis by (simp add: clear_all_notifications_def note_ids_def)
  qed
qed

section \<open>Tokens\<close>

definition blank :: "char \<Rightarrow> bool" where
  "blank c \<longleftrightarrow> c = CHR '' '' \<or> c = TAB"

definition first_word :: "string \<Rightarrow> string option" where
  "first_word s = (case dropWhile blank s of [] \<Rightarrow> None | c # cs \<Rightarrow> Some (takeWhile (\<lambda>x. \<not> blank x) (c # cs)))"

definition after_word :: "string \<Rightarrow> string" where
  "after_word s = drop 1 (dropWhile (\<lambda>x. \<not> blank x) (dropWhile blank s))"

lemma cstr_split: "NUL \<in> set s \<Longrightarrow> \<exists>t. s = cstr s @ NUL # t"
proof -
  assume "NUL \<in> set s"
  then obtain a t where "s = a @ NUL # t" "NUL \<notin> set a" by (metis split_list_first)
  then show ?thesis by (auto simp: cstr_append_NUL)
qed

lemma cstr_no_NUL: "NUL \<notin> set (cstr s)"
  by (auto simp: cstr_def dest: set_takeWhileD)

lemma takeWhile_stop: "\<not> P x \<Longrightarrow> takeWhile P (xs @ x # ys) = takeWhile P xs"
  by (induction xs) auto

lemma strtok_shape:
  assumes "\<forall>c \<in> set ws. blank c" "r = [] \<or> \<not> blank (hd r)" "NUL \<notin> set r"
  shows "strtok (length pre) (pre @ ws @ r @ NUL # t) =
    (if r = [] then (None, length pre + length ws, pre @ ws @ NUL # t)
     else let tok = takeWhile (\<lambda>x. \<not> blank x) r in
       case dropWhile (\<lambda>x. \<not> blank x) r of
         [] \<Rightarrow> (Some tok, length (pre @ ws @ tok), pre @ ws @ r @ NUL # t)
       | d # r' \<Rightarrow> (Some tok, length (pre @ ws @ tok) + 1, pre @ ws @ tok @ NUL # r' @ NUL # t))"
proof -
  have delim: "(\<lambda>c. c = CHR '' '' \<or> c = TAB) = blank" by (auto simp: blank_def)
  have nul: "\<not> blank NUL" by (simp add: blank_def)
  have ws: "takeWhile blank (ws @ r @ NUL # t) = ws"
    using assms(1,2) nul by (cases r) (simp_all add: takeWhile_append)
  show ?thesis
  proof (cases "r = []")
    case True
    with ws show ?thesis by (simp add: strtok_def delim Let_def nth_append)
  next
    case False
    then obtain c cs where r: "r = c # cs" by (cases r) auto
    let ?tok = "takeWhile (\<lambda>x. \<not> blank x) r"
    have "takeWhile (\<lambda>c. c \<noteq> CHR '' '' \<and> c \<noteq> TAB \<and> c \<noteq> NUL) (r @ NUL # t) =
        takeWhile (\<lambda>c. c \<noteq> CHR '' '' \<and> c \<noteq> TAB \<and> c \<noteq> NUL) r"
      by (rule takeWhile_stop) simp
    also have "\<dots> = ?tok" using assms(3) by (intro takeWhile_cong) (auto simp: blank_def)
    finally have tok: "takeWhile (\<lambda>c. c \<noteq> CHR '' '' \<and> c \<noteq> TAB \<and> c \<noteq> NUL) (r @ NUL # t) = ?tok" .
    have c: "(pre @ ws @ r @ NUL # t) ! (length pre + length ws) \<noteq> NUL"
      using assms(3) by (auto simp: nth_append r)
    obtain r2 where r2: "r = ?tok @ r2" "r2 = dropWhile (\<lambda>x. \<not> blank x) r" by simp
    show ?thesis
    proof (cases r2)
      case Nil
      then have tr: "?tok = r" using r2 by simp
      have dw: "dropWhile (\<lambda>x. \<not> blank x) r = []" using Nil r2 by simp
      have at: "(pre @ ws @ r @ NUL # t) ! (length pre + length ws + length r) = NUL"
        by (simp add: nth_append)
      show ?thesis using False c ws tok unfolding dw tr by (simp add: strtok_def delim Let_def at)
    next
      case (Cons d r')
      have "d \<noteq> NUL" using assms(3) r2(1) Cons by (metis in_set_conv_decomp)
      have dw: "dropWhile (\<lambda>x. \<not> blank x) r = d # r'" using Cons r2 by simp
      have buf: "pre @ ws @ r @ NUL # t = (pre @ ws @ ?tok) @ d # r' @ NUL # t" using r2(1) Cons by simp
      have at: "(pre @ ws @ r @ NUL # t) ! (length pre + length ws + length ?tok) = d"
        unfolding buf by (simp add: nth_append)
      have up: "(pre @ ws @ r @ NUL # t)[length pre + length ws + length ?tok := NUL] =
          pre @ ws @ ?tok @ NUL # r' @ NUL # t"
        unfolding buf by (simp add: list_update_append)
      show ?thesis using False c ws tok \<open>d \<noteq> NUL\<close>
        by (simp add: strtok_def delim Let_def dw at up)
    qed
  qed
qed

lemma strtok_words:
  assumes "i \<le> length buf" "NUL \<in> set (drop i buf)"
  shows "fst (strtok i buf) = first_word (cstr (drop i buf)) \<and>
    (first_word (cstr (drop i buf)) \<noteq> None \<longrightarrow>
       (let (_, k, buf') = strtok i buf in
        k \<le> length buf' \<and> NUL \<in> set (drop k buf') \<and> cstr (drop k buf') = after_word (cstr (drop i buf))))"
proof -
  let ?s = "cstr (drop i buf)"
  obtain t where t: "drop i buf = ?s @ NUL # t" using cstr_split [OF assms(2)] by auto
  define pre ws r where "pre = take i buf" and "ws = takeWhile blank ?s" and "r = dropWhile blank ?s"
  have s: "?s = ws @ r" by (simp add: ws_def r_def)
  have "buf = pre @ drop i buf" by (simp add: pre_def)
  then have buf: "buf = pre @ ws @ r @ NUL # t" using t s by simp
  have "length pre = i" using assms(1) by (simp add: pre_def)
  moreover have "\<forall>c \<in> set ws. blank c" by (auto simp: ws_def dest: set_takeWhileD)
  moreover have "r = [] \<or> \<not> blank (hd r)" using hd_dropWhile [of blank ?s] by (auto simp: r_def)
  moreover have "NUL \<notin> set r" using cstr_no_NUL [of "drop i buf"] by (auto simp: r_def dest: set_dropWhileD)
  ultimately have st: "strtok i buf =
    (if r = [] then (None, length pre + length ws, pre @ ws @ NUL # t)
     else let tok = takeWhile (\<lambda>x. \<not> blank x) r in
       case dropWhile (\<lambda>x. \<not> blank x) r of
         [] \<Rightarrow> (Some tok, length (pre @ ws @ tok), pre @ ws @ r @ NUL # t)
       | d # r' \<Rightarrow> (Some tok, length (pre @ ws @ tok) + 1, pre @ ws @ tok @ NUL # r' @ NUL # t))"
    using strtok_shape [of ws r pre t] buf by simp
  have r': "first_word ?s = (case r of [] \<Rightarrow> None | c # cs \<Rightarrow> Some (takeWhile (\<lambda>x. \<not> blank x) (c # cs)))"
    "after_word ?s = drop 1 (dropWhile (\<lambda>x. \<not> blank x) r)"
    by (simp_all add: first_word_def after_word_def r_def)
  show ?thesis
  proof (cases "r = []")
    case True
    with st r' show ?thesis by simp
  next
    case False
    let ?tok = "takeWhile (\<lambda>x. \<not> blank x) r"
    have fw: "first_word ?s = Some ?tok" using False r'(1) by (cases r) simp_all
    show ?thesis
    proof (cases "dropWhile (\<lambda>x. \<not> blank x) r")
      case Nil
      then have tok: "?tok = r" by (metis append_Nil2 takeWhile_dropWhile_id)
      moreover have "after_word ?s = []" unfolding r'(2) Nil by simp
      moreover have "cstr (NUL # t) = []" by (simp add: cstr_def)
      ultimately show ?thesis using False fw unfolding st Let_def Nil tok by simp
    next
      case (Cons d r2)
      have "set (d # r2) \<subseteq> set r" unfolding Cons [symmetric] by (auto dest: set_dropWhileD)
      then have "NUL \<notin> set r2" using \<open>NUL \<notin> set r\<close> by auto
      then have "cstr (r2 @ NUL # t) = r2" by (rule cstr_append_NUL)
      with False st Cons fw r'(2) show ?thesis by (simp add: Let_def)
    qed
  qed
qed

section \<open>What a typed command does\<close>

lemma query_level_keeps:
  "query_level env (ui, arb) = (lv, ui', arb') \<Longrightarrow>
   ui_notes ui' = ui_notes ui \<and> ui_running ui' = ui_running ui \<and> ui_history ui' = ui_history ui \<and>
   ui_line ui' = ui_line ui \<and> ui_next_id ui' = ui_next_id ui"
  by (auto simp: query_level_def Let_def split: if_splits prod.splits)

lemma draw_topbar_keeps:
  "draw_topbar env (ui, arb) = (out, ui', arb') \<Longrightarrow>
   ui_notes ui' = ui_notes ui \<and> ui_running ui' = ui_running ui \<and> ui_history ui' = ui_history ui \<and>
   ui_line ui' = ui_line ui \<and> ui_next_id ui' = ui_next_id ui"
proof -
  assume d: "draw_topbar env (ui, arb) = (out, ui', arb')"
  obtain lv ui1 arb1 where q: "query_level env (ui, arb) = (lv, ui1, arb1)" by (metis prod_cases3)
  with d have "ui' = ui1" unfolding draw_topbar_def by (simp only: Let_def q prod.case prod.inject)
  with query_level_keeps [OF q] show ?thesis by simp
qed

lemma ui_level_cmds_keep:
  assumes "ui_cmd_status env (ui, arb) = (out, ui', arb') \<or> ui_cmd_level env (ui, arb) = (out, ui', arb')"
  shows "ui_notes ui' = ui_notes ui \<and> ui_running ui' = ui_running ui \<and> ui_history ui' = ui_history ui \<and>
    ui_line ui' = ui_line ui"
proof -
  obtain lv ui1 arb1 where q: "query_level env (ui, arb) = (lv, ui1, arb1)" by (metis prod_cases3)
  with assms have "ui' = ui1" unfolding ui_cmd_status_def ui_cmd_level_def
    by (simp only: Let_def q prod.case prod.inject disj_not1) blast
  with query_level_keeps [OF q] show ?thesis by simp
qed

definition ui_command :: "string \<Rightarrow> notification_t list \<Rightarrow> notification_t list" where
  "ui_command w ns =
     (if first_word w = Some ''clear'' then []
      else if first_word w = Some ''dismiss'' then
        (case first_word (after_word w) of
           None \<Rightarrow> ns
         | Some s \<Rightarrow> (case index_of (\<lambda>n. nt_id n = atoi s) ns of
             Some i \<Rightarrow> remove_at i ns | None \<Rightarrow> ns))
      else ns)"

lemma strtok_length: "strtok i buf = (tok, k, buf') \<Longrightarrow> length buf' = length buf"
  by (auto simp: strtok_def Let_def split: if_splits)

lemma run_command_effect:
  assumes "NUL \<in> set (ui_line ui)" "run_command env (ui, arb) = (out, ui', arb')"
  shows "ui_notes ui' = ui_command (cstr (ui_line ui)) (ui_notes ui) \<and> ui_history ui' = ui_history ui \<and>
    ui_running ui' = (if first_word (cstr (ui_line ui)) \<in> {Some ''exit'', Some ''quit''} then 0 else ui_running ui) \<and>
    length (ui_line ui') = length (ui_line ui)"
proof -
  obtain cmd save buf where tok: "strtok 0 (ui_line ui) = (cmd, save, buf)" by (metis prod_cases3)
  note len [simp] = strtok_length [OF tok]
  have w: "cmd = first_word (cstr (ui_line ui))"
    "cmd \<noteq> None \<longrightarrow> save \<le> length buf \<and> NUL \<in> set (drop save buf) \<and> cstr (drop save buf) = after_word (cstr (ui_line ui))"
    using strtok_words [of 0 "ui_line ui"] assms(1) tok by simp_all
  show ?thesis
  proof (cases cmd)
    case None
    with assms(2) tok w(1) show ?thesis by (auto simp: run_command_def ui_command_def)
  next
    case (Some c)
    let ?ui = "ui\<lparr>ui_line := buf\<rparr>"
    have dis: "ui_notes (snd (cmd_dismiss save ?ui)) =
       (case first_word (after_word (cstr (ui_line ui))) of
           None \<Rightarrow> ui_notes ui
         | Some s \<Rightarrow> (case index_of (\<lambda>n. nt_id n = atoi s) (ui_notes ui) of
             Some i \<Rightarrow> remove_at i (ui_notes ui) | None \<Rightarrow> ui_notes ui)) \<and>
       ui_history (snd (cmd_dismiss save ?ui)) = ui_history ui \<and> ui_running (snd (cmd_dismiss save ?ui)) = ui_running ui \<and>
       length (ui_line (snd (cmd_dismiss save ?ui))) = length buf"
      using strtok_words [of save buf] w(2) Some
      by (auto simp: cmd_dismiss_def dismiss_notification_def dest: strtok_length split: prod.splits option.splits)
    have fw: "first_word (cstr (ui_line ui)) = Some c" using w(1) Some by simp
    have run: "run_command env (ui, arb) =
       (if c = ''help'' \<or> c = ''?'' then (cmd_help, ?ui, arb)
        else if c = ''status'' then ui_cmd_status env (?ui, arb)
        else if c = ''level'' then ui_cmd_level env (?ui, arb)
        else if c = ''notifications'' \<or> c = ''noti'' then (print_notifications env ?ui, ?ui, arb)
        else if c = ''dismiss'' then (let (out, ui') = cmd_dismiss save ?ui in (out, ui', arb))
        else if c = ''clear'' then ([''  all notifications cleared''], clear_all_notifications ?ui, arb)
        else if c = ''clear_screen'' \<or> c = ''cls'' then ([], ?ui, arb)
        else if c = ''about'' then (cmd_about, ?ui, arb)
        else if c = ''exit'' \<or> c = ''quit'' then ([''  good bye''], ?ui\<lparr>ui_running := 0\<rparr>, arb)
        else ([''  unknown command: '' @ c @ ''  (try '' @ [CHR 0x27] @ ''help'' @ [CHR 0x27] @ '')''], ?ui, arb))"
      unfolding run_command_def by (simp only: prod.case tok Some option.case Let_def)
    consider (dismiss) "c = ''dismiss''" | (clear) "c = ''clear''" | (exit) "c = ''exit'' \<or> c = ''quit''"
      | (status) "c = ''status''" | (level) "c = ''level''"
      | (other) "c \<notin> {''dismiss'', ''clear'', ''exit'', ''quit'', ''status'', ''level''}"
      by (simp only: insert_iff empty_iff) metis
    then show ?thesis
    proof cases
      case dismiss
      then have "run_command env (ui, arb) = (let (out, ui') = cmd_dismiss save ?ui in (out, ui', arb))"
        unfolding run by simp
      with assms(2) have "ui' = snd (cmd_dismiss save ?ui)" by (cases "cmd_dismiss save ?ui") simp
      with dis fw dismiss show ?thesis by (simp add: ui_command_def)
    next
      case clear
      then have "run_command env (ui, arb) = ([''  all notifications cleared''], clear_all_notifications ?ui, arb)"
        unfolding run by simp
      with assms(2) have "ui' = clear_all_notifications ?ui" by simp
      with fw clear show ?thesis by (simp add: ui_command_def clear_all_notifications_def)
    next
      case exit
      then have "run_command env (ui, arb) = ([''  good bye''], ?ui\<lparr>ui_running := 0\<rparr>, arb)"
        unfolding run by (elim disjE) simp_all
      with assms(2) have "ui' = ?ui\<lparr>ui_running := 0\<rparr>" by simp
      with fw exit show ?thesis by (elim disjE) (simp_all add: ui_command_def)
    next
      case status
      with assms(2) run have "ui_cmd_status env (?ui, arb) = (out, ui', arb')" by simp
      with ui_level_cmds_keep [of env ?ui arb out ui' arb'] status fw show ?thesis by (simp add: ui_command_def)
    next
      case level
      with assms(2) run have "ui_cmd_level env (?ui, arb) = (out, ui', arb')" by simp
      with ui_level_cmds_keep [of env ?ui arb out ui' arb'] level fw show ?thesis by (simp add: ui_command_def)
    next
      case other
      with assms(2) run have "ui' = ?ui" by (simp split: if_splits)
      with other fw show ?thesis by (simp add: ui_command_def)
    qed
  qed
qed

section \<open>The level the user sees\<close>

definition true_level :: "ui_env \<times> arbiter_t \<Rightarrow> int" where
  "true_level = (\<lambda>(env, arb).
     if ue_link env = Link_ok
     then to_s32 (get_process_level (ue_pid env) (reap_dead_processes (ue_os env) arb)) else -1)"

lemma ask_level_true: "ue_pid env \<noteq> 0 \<Longrightarrow> (case fst (ask_level env arb) of Some l \<Rightarrow> l | None \<Rightarrow> -1) = true_level (env, arb)"
  by (cases "ue_link env")
    (simp_all add: ask_level_def true_level_def serve_client_def handle_request_def request_type_of_def
      request_types_def ui_request_def may_query_def get_peer_pid_def handle_get_level_def response_def Let_def)

lemma query_level_value:
  "ue_pid env \<noteq> 0 \<Longrightarrow> query_level env (ui, arb) =
     (if ui_cached ui \<ge> -1 \<and> ue_now env - ui_cache_time ui < 30 then (ui_cached ui, ui, arb)
      else (true_level (env, arb), ui\<lparr>ui_cached := true_level (env, arb), ui_cache_time := ue_now env\<rparr>,
            snd (ask_level env arb)))"
  using ask_level_true [of env arb]
  by (cases "ask_level env arb") (simp add: query_level_def PERM_LEVEL_CACHE_TTL_def Let_def)

fun poll :: "(ui_env \<times> arbiter_t) list \<Rightarrow> ui_t \<Rightarrow> int list" where
  "poll [] ui = []"
| "poll ((env, arb) # ps) ui = (let (lv, ui', _) = query_level env (ui, arb) in lv # poll ps ui')"

lemma poll_recent:
  assumes "ui_cached ui \<ge> -1 \<longrightarrow> (\<exists>q \<in> set past. ui_cached ui = true_level q \<and> ui_cache_time ui = ue_now (fst q))"
    and "\<forall>p \<in> set ps. ue_pid (fst p) \<noteq> 0" "i < length ps"
  shows "\<exists>q \<in> set (past @ take (Suc i) ps). poll ps ui ! i = true_level q \<and> ue_now (fst (ps ! i)) - ue_now (fst q) < 30"
  using assms
proof (induction ps arbitrary: ui past i)
  case (Cons p ps)
  obtain env arb where p: "p = (env, arb)" by force
  then have pid: "ue_pid env \<noteq> 0" using Cons.prems(2) by simp
  show ?case
  proof (cases "ui_cached ui \<ge> -1 \<and> ue_now env - ui_cache_time ui < 30")
    case True
    then have head: "poll (p # ps) ui = ui_cached ui # poll ps ui" by (simp add: p query_level_value [OF pid])
    obtain q where q: "q \<in> set past" "ui_cached ui = true_level q" "ui_cache_time ui = ue_now (fst q)"
      using True Cons.prems(1) by blast
    show ?thesis
    proof (cases i)
      case 0
      with q True show ?thesis unfolding head by (auto simp: p intro!: bexI [of _ q])
    next
      case (Suc k)
      have "\<exists>q \<in> set (past @ [p]). ui_cached ui = true_level q \<and> ui_cache_time ui = ue_now (fst q)"
        using q by auto
      with Cons.IH [of ui "past @ [p]" k] Cons.prems(2,3) Suc show ?thesis unfolding head by simp
    qed
  next
    case False
    let ?ui = "ui\<lparr>ui_cached := true_level p, ui_cache_time := ue_now env\<rparr>"
    have head: "poll (p # ps) ui = true_level p # poll ps ?ui"
      unfolding p poll.simps query_level_value [OF pid] if_not_P [OF False] by simp
    show ?thesis
    proof (cases i)
      case 0
      then show ?thesis unfolding head by (auto simp: p)
    next
      case (Suc k)
      have "\<exists>q \<in> set (past @ [p]). ui_cached ?ui = true_level q \<and> ui_cache_time ?ui = ue_now (fst q)"
        by (auto simp: p)
      with Cons.IH [of ?ui "past @ [p]" k] Cons.prems(2,3) Suc show ?thesis unfolding head by simp
    qed
  qed
qed simp

section \<open>Properties\<close>

text \<open>
  Claim C36.  The level that is shown.  Every level the UI reports is the level the arbiter held for
  this process, or -1 for a failed connection, at one of its queries less than 30 seconds before.
\<close>

theorem level_shown_is_recent:
  assumes "\<forall>p \<in> set polls. ue_pid (fst p) \<noteq> 0" "i < length polls"
  shows "\<exists>q \<in> set (take (Suc i) polls). poll polls (ui_init line) ! i = true_level q \<and>
           ue_now (fst (polls ! i)) - ue_now (fst q) < 30"
  using poll_recent [of "ui_init line" "[]" polls i] assms by (simp add: ui_init_def)

theorem level_shown_is_recent_witness:
  "\<exists>q \<in> set (take 1 [(\<lparr>ue_now = 5, ue_pid = 9, ue_link = Link_ok,
        ue_os = \<lparr>kill0 = \<lambda>_. Kill_ok, attr_current = \<lambda>_. None\<rparr>, ue_enforce = None, ue_width = None,
        ue_hms = \<lambda>_. [], ue_hm = \<lambda>_. [], ue_stamp = \<lambda>_. []\<rparr>, arbiter_init)]).
     poll [(\<lparr>ue_now = 5, ue_pid = 9, ue_link = Link_ok,
        ue_os = \<lparr>kill0 = \<lambda>_. Kill_ok, attr_current = \<lambda>_. None\<rparr>, ue_enforce = None, ue_width = None,
        ue_hms = \<lambda>_. [], ue_hm = \<lambda>_. [], ue_stamp = \<lambda>_. []\<rparr>, arbiter_init)] (ui_init []) ! 0 = true_level q"
  using level_shown_is_recent [of "[(\<lparr>ue_now = 5, ue_pid = 9, ue_link = Link_ok,
        ue_os = \<lparr>kill0 = \<lambda>_. Kill_ok, attr_current = \<lambda>_. None\<rparr>, ue_enforce = None, ue_width = None,
        ue_hms = \<lambda>_. [], ue_hm = \<lambda>_. [], ue_stamp = \<lambda>_. []\<rparr>, arbiter_init)]" 0 "[]"]
  by (auto simp del: poll.simps)

text \<open>
  Notifications.  After any sequence of additions, dismissals and clearings there are at
  most 32 notifications with different identifiers, and one that has left the list never comes back.
\<close>

lemma notifications_unique:
  "distinct (note_ids (fold note_step evs (ui_init line))) \<and>
   length (ui_notes (fold note_step evs (ui_init line))) \<le> 32 \<and>
   set (note_ids (fold note_step (evs @ later) (ui_init line))) \<inter> {..< ui_next_id (fold note_step evs (ui_init line))}
     \<subseteq> set (note_ids (fold note_step evs (ui_init line)))"
proof -
  have "noti.ids_ok (ui_init line)" by (simp add: noti.ids_ok_def ui_init_def note_ids_def)
  then have "noti.ids_ok (fold note_step evs (ui_init line))" by (rule noti.ids_ok_run)
  with noti.gone_run [OF this, of _ later] noti.unique_ids [OF this, of "[]"] show ?thesis
    by (auto simp: note_ids_def MAX_NOTIFICATIONS_def)
qed

end
