(* ===== verification/Ui_Session.thy ===== *)
theory Ui_Session
  imports System_Ui
begin

text \<open>
  The system UI from start to end: the terminal settings, the loop and the shutdown of \<open>main\<close> of
  \<open>frontend/ui/system_ui.c\<close> around the turns of \<open>System_Ui\<close>, and the session it implements: keys are
  grouped into lines, and lines are commands.
\<close>

section \<open>The program\<close>

record termios =
  tt_icanon :: bool
  tt_echo :: bool
  tt_vmin :: nat
  tt_vtime :: nat

definition raw_mode :: "termios \<Rightarrow> termios" where
  "raw_mode saved = saved\<lparr>tt_icanon := False, tt_echo := False, tt_vmin := 0, tt_vtime := 0\<rparr>"

text \<open>
  The loop.  Turn \<open>t\<close> sees the environment \<open>envs (2 * t)\<close> when it draws and \<open>envs (2 * t + 1)\<close> when the command runs; the
  list \<open>inp\<close> is what the terminal will deliver.  \<open>None\<close> is a loop that never ends: it waits for keys, or, without a
  terminal, sleeps.
\<close>

partial_function (option) ui_loop ::
  "bool \<Rightarrow> (nat \<Rightarrow> ui_env) \<Rightarrow> nat \<Rightarrow> char option list \<Rightarrow> ui_t \<times> arbiter_t \<Rightarrow>
   (string list \<times> char option list \<times> ui_t \<times> arbiter_t) option" where
  "ui_loop has_tty envs t inp st =
     (if ui_running (fst st) = 0 then Some ([], inp, st)
      else if has_tty then
        Option.bind (ui_turn (envs (2 * t)) (envs (2 * t + 1)) inp st) (\<lambda>(out, inp1, st1).
          Option.bind (ui_loop has_tty envs (t + 1) inp1 st1) (\<lambda>(out', res).
            Some (out @ (if ui_running (fst st1) \<noteq> 0 then [[]] else []) @ out', res)))
      else ui_loop has_tty envs t inp st)"

text \<open>
  The process: \<open>tty\<close> are the settings of the terminal when standard input is one and they can be read.  The result is
  the exit code, the settings it leaves, the output, and the last state.
\<close>

definition ui_main ::
  "termios option \<Rightarrow> (nat \<Rightarrow> ui_env) \<Rightarrow> char option list \<Rightarrow> string \<Rightarrow> arbiter_t \<Rightarrow>
   (int \<times> termios option \<times> string list \<times> ui_t \<times> arbiter_t) option" where
  "ui_main tty envs inp line arb =
     (let now = map_option raw_mode tty;
          (head, st) = ui_start (envs 0) line arb
      in case ui_loop (now \<noteq> None) envs 1 inp st of
           None \<Rightarrow> None
         | Some (out, _, st') \<Rightarrow>
             Some (0, if now \<noteq> None then tty else now, head @ out @ [''[SUI] shutdown complete''], st'))"

section \<open>The session\<close>

fun next_keys :: "key list \<Rightarrow> key list" where
  "next_keys [] = []"
| "next_keys (k # ks) = (if k = Key_enter \<or> k = Key_abort then ks else next_keys ks)"

lemma length_next_keys: "ks \<noteq> [] \<Longrightarrow> length (next_keys ks) < length ks"
proof (induction ks)
  case (Cons k ks)
  then show ?case by (cases "ks = []") auto
qed simp

definition blank_draft :: "string list \<Rightarrow> draft" where
  "blank_draft history = \<lparr>dr_before = [], dr_after = [], dr_index = length history\<rparr>"

definition leaves :: "string \<Rightarrow> bool" where
  "leaves line \<longleftrightarrow> first_word line \<in> {Some ''exit'', Some ''quit''}"

text \<open>
  A session on a sequence of keys: it edits lines one after the other, remembers each, applies it to the notifications,
  and ends with the first one that leaves.  \<open>None\<close> when no line leaves.
\<close>

function session ::
  "key list \<Rightarrow> string list \<Rightarrow> notification_t list \<Rightarrow> (key list \<times> string list \<times> notification_t list) option" where
  "session ks history ns =
     (case edit_line history ks (blank_draft history) of
        None \<Rightarrow> None
      | Some line \<Rightarrow>
          if leaves line then Some (next_keys ks, remember line history, ui_command line ns)
          else session (next_keys ks) (remember line history) (ui_command line ns))"
  by pat_completeness auto
termination
proof (relation "measure (\<lambda>(ks, _). length ks)")
  fix ks :: "key list" and history line
  assume "edit_line history ks (blank_draft history) = Some line"
  then have "ks \<noteq> []" by auto
  then show "((next_keys ks, remember line history, ns'), ks, history, ns) \<in> measure (\<lambda>(ks, _). length ks)" for ns ns' :: "notification_t list"
    using length_next_keys by simp
qed simp

declare session.simps [simp del]

section \<open>One turn\<close>

lemma next_keys_escape: "next_keys (escape_key a b @ ks) = next_keys ks"
  by (simp add: escape_key_def)

lemma read_loop_rest: "read_loop history inp ls = Some (ls', rest) \<Longrightarrow> keys_of rest = next_keys (keys_of inp)"
proof (induction history inp ls rule: read_loop.induct)
  case (3 history c inp ls)
  show ?case
  proof (cases "c = ESC")
    case True
    with 3 show ?thesis by (auto simp: next_keys_escape split: list.splits option.splits)
  next
    case False
    with 3 show ?thesis by (auto split: if_splits)
  qed
qed simp_all

lemma read_line_edit:
  assumes "history_ok history" "length buf = 1024"
  shows "case read_line inp history buf of
      None \<Rightarrow> edit_line history (keys_of inp) (blank_draft history) = None
    | Some (n, buf', history', out, rest) \<Rightarrow>
        edit_line history (keys_of inp) (blank_draft history) = Some (cstr buf') \<and>
        history' = remember (cstr buf') history \<and> history_ok history' \<and> length buf' = 1024 \<and> NUL \<in> set buf' \<and>
        keys_of rest = next_keys (keys_of inp)"
proof (cases "read_line inp history buf")
  case None
  with read_line_spec [OF assms, of inp] show ?thesis by (simp add: blank_draft_def)
next
  case (Some r)
  obtain n buf' history' out rest where r: "r = (n, buf', history', out, rest)" by (metis prod_cases5)
  note rl = Some [unfolded r]
  have spec: "edit_line history (keys_of inp) (blank_draft history) = Some (cstr buf')" "n = length (cstr buf')"
    "history' = remember (cstr buf') history"
    using read_line_spec [OF assms, of inp] rl
    by (cases "edit_line history (keys_of inp) (blank_draft history)"; simp add: blank_draft_def result_def)+
  note ok = read_line_line [OF assms rl]
  obtain ls where ls: "read_loop history inp \<lparr>ls_buf = buf, ls_len = 0, ls_pos = 0, ls_hpos = length history, ls_out = []\<rparr>
      = Some (ls, rest)" "n = ls_len ls" "buf' = (ls_buf ls)[ls_len ls := NUL]"
    using rl by (auto simp: read_line_def Let_def split: option.splits)
  have "buf \<noteq> []" using assms(2) by auto
  then have "rep \<lparr>ls_buf = buf, ls_len = 0, ls_pos = 0, ls_hpos = length history, ls_out = []\<rparr>
      \<lparr>dr_before = [], dr_after = [], dr_index = length history\<rparr>" using assms(2) by (simp add: rep_def)
  from read_loop_refines [OF assms(1) this, of inp] ls(1) have "ls_len ls < 1024"
    by (auto simp: option_rel_Some1 finished_def)
  then have "buf' ! n = NUL" "n < length buf'" using ls(2,3) ok by simp_all
  then have "NUL \<in> set buf'" by (metis nth_mem)
  with spec ok read_loop_rest [OF ls(1)] Some show ?thesis by (simp add: r)
qed

text \<open>One turn takes one line from the keys and has exactly the effects of that line.\<close>

lemma ui_turn_edit:
  assumes "history_ok (ui_history ui)" "length (ui_line ui) = 1024"
  shows "case ui_turn env env' inp (ui, arb) of
      None \<Rightarrow> edit_line (ui_history ui) (keys_of inp) (blank_draft (ui_history ui)) = None
    | Some (out, rest, ui', arb') \<Rightarrow> \<exists>line.
        edit_line (ui_history ui) (keys_of inp) (blank_draft (ui_history ui)) = Some line \<and>
        keys_of rest = next_keys (keys_of inp) \<and>
        ui_history ui' = remember line (ui_history ui) \<and> ui_notes ui' = ui_command line (ui_notes ui) \<and>
        ui_running ui' = (if leaves line then 0 else ui_running ui) \<and>
        history_ok (ui_history ui') \<and> length (ui_line ui') = 1024"
proof -
  obtain bar ui1 arb1 where d: "draw_topbar env (ui, arb) = (bar, ui1, arb1)" by (metis prod_cases3)
  note k = draw_topbar_keeps [OF d]
  note r = read_line_edit [OF assms, of inp]
  show ?thesis
  proof (cases "read_line inp (ui_history ui) (ui_line ui)")
    case None
    with r k show ?thesis by (simp add: ui_turn_def d)
  next
    case (Some x)
    then obtain n buf history out rest where rl:
      "read_line inp (ui_history ui) (ui_line ui) = Some (n, buf, history, out, rest)" by (metis prod_cases5)
    let ?ui = "ui1\<lparr>ui_line := buf, ui_history := history\<rparr>"
    obtain lines ui2 arb2 where c: "run_command env' (?ui, arb1) = (lines, ui2, arb2)" by (metis prod_cases3)
    have turn: "ui_turn env env' inp (ui, arb) = Some (bar @ [PROMPT @ out] @ lines, rest, ui2, arb2)"
      using k by (simp add: ui_turn_def d rl c)
    have b0: "edit_line (ui_history ui) (keys_of inp) (blank_draft (ui_history ui)) = Some (cstr buf) \<and>
        history = remember (cstr buf) (ui_history ui) \<and> history_ok history \<and> length buf = 1024 \<and> NUL \<in> set buf \<and>
        keys_of rest = next_keys (keys_of inp)"
      by (rule r [unfolded rl option.case prod.case])
    then have b: "edit_line (ui_history ui) (keys_of inp) (blank_draft (ui_history ui)) = Some (cstr buf)"
      "history = remember (cstr buf) (ui_history ui)" "history_ok (remember (cstr buf) (ui_history ui))"
      "length buf = 1024" "NUL \<in> set buf" "keys_of rest = next_keys (keys_of inp)"
      by blast+
    show ?thesis
      using run_command_effect [OF _ c] b k by (simp add: turn leaves_def)
  qed
qed

section \<open>The loop\<close>

text \<open>The loop of the program is a session on the keys of its input.\<close>

lemma ui_loop_session:
  assumes "history_ok (ui_history ui)" "length (ui_line ui) = 1024" "ui_running ui \<noteq> 0"
  shows "map_option (\<lambda>(out, rest, ui', arb'). (keys_of rest, ui_history ui', ui_notes ui')) (ui_loop True envs t inp (ui, arb)) =
    session (keys_of inp) (ui_history ui) (ui_notes ui)"
  using assms
proof (induction "keys_of inp" "ui_history ui" "ui_notes ui" arbitrary: inp ui arb t rule: session.induct)
  case 1
  note turn = ui_turn_edit [OF 1(2,3), where env = "envs (2 * t)" and env' = "envs (2 * t + 1)" and inp = inp and arb = arb]
  show ?case
  proof (cases "ui_turn (envs (2 * t)) (envs (2 * t + 1)) inp (ui, arb)")
    case None
    with turn 1(4) show ?thesis by (subst ui_loop.simps, subst session.simps) simp
  next
    case (Some x)
    obtain out rest ui' arb' where x: "x = (out, rest, ui', arb')" by (metis prod_cases4)
    with turn Some obtain line where l:
      "edit_line (ui_history ui) (keys_of inp) (blank_draft (ui_history ui)) = Some line"
      "keys_of rest = next_keys (keys_of inp)" "ui_history ui' = remember line (ui_history ui)"
      "ui_notes ui' = ui_command line (ui_notes ui)" "ui_running ui' = (if leaves line then 0 else ui_running ui)"
      "history_ok (ui_history ui')" "length (ui_line ui') = 1024"
      by auto
    have loop: "ui_loop True envs t inp (ui, arb) = Option.bind (ui_loop True envs (t + 1) rest (ui', arb'))
        (\<lambda>(out', res). Some (out @ (if ui_running ui' \<noteq> 0 then [[]] else []) @ out', res))"
      using 1(4) by (subst ui_loop.simps) (simp del: One_nat_def add: Some x)
    show ?thesis
    proof (cases "leaves line")
      case True
      with l have "ui_loop True envs (t + 1) rest (ui', arb') = Some ([], rest, ui', arb')"
        by (subst ui_loop.simps) simp
      with True l loop show ?thesis by (subst session.simps) simp
    next
      case False
      with 1(4) l(5) have r: "ui_running ui' \<noteq> 0" by simp
      have "session (keys_of inp) (ui_history ui) (ui_notes ui) = session (keys_of rest) (ui_history ui') (ui_notes ui')"
        using l False by (subst session.simps) simp
      moreover have "map_option (\<lambda>(out, rest, ui', arb'). (keys_of rest, ui_history ui', ui_notes ui'))
          (ui_loop True envs (t + 1) rest (ui', arb')) = session (keys_of rest) (ui_history ui') (ui_notes ui')"
        by (rule 1(1) [OF l(1) False]) (rule l(2) [symmetric] l(3) [symmetric] l(4) [symmetric] l(6) l(7) r)+
      ultimately show ?thesis unfolding loop
        by (cases "ui_loop True envs (t + 1) rest (ui', arb')") (simp_all add: case_prod_beta)
    qed
  qed
qed

text \<open>Without a terminal the loop sleeps for ever.\<close>

lemma ui_loop_sleeps: "ui_running (fst st) \<noteq> 0 \<Longrightarrow> ui_loop False envs t inp st = None"
proof -
  have "ui_loop has_tty envs t inp st = Some r \<Longrightarrow> \<not> has_tty \<longrightarrow> ui_running (fst st) = 0" for has_tty r
    by (rule ui_loop.raw_induct [where P = "\<lambda>has_tty envs t inp st r. \<not> has_tty \<longrightarrow> ui_running (fst st) = 0"])
      (auto split: if_splits)
  then show "ui_running (fst st) \<noteq> 0 \<Longrightarrow> ui_loop False envs t inp st = None"
    by (cases "ui_loop False envs t inp st") auto
qed

lemma ui_start_state:
  assumes "ui_start env line arb = (out, ui, arb')"
  shows "ui_history ui = [] \<and> ui_running ui = 1 \<and> ui_line ui = line \<and> map nt_id (ui_notes ui) = [1, 2] \<and>
    map nt_title (ui_notes ui) = [''Welcome to '' @ OS_BRAND, ''SELinux Enforcing'']"
  using assms draw_topbar_keeps
  by (fastforce simp: ui_start_def add_notification_def ui_init_def MAX_NOTIFICATIONS_def OS_BRAND_def Let_def
      split: prod.splits)

text \<open>
  Claim C30.  A whole run of the system UI.  With a terminal, whatever keys it delivers and whatever the clock, the arbiter
  and SELinux answer, the program ends exactly when the session of those keys ends; it then exits with code 0, the
  terminal has its settings back, and history and notifications are those of the session that starts with no history and
  the two welcome notifications.  Without a terminal it never ends.
\<close>

theorem ui_main_session:
  assumes "length line = 1024"
  shows "map_option (\<lambda>(code, tty, out, ui, arb'). (code, tty, ui_history ui, ui_notes ui)) (ui_main tty envs inp line arb) =
    (case tty of
       None \<Rightarrow> None
     | Some saved \<Rightarrow>
         map_option (\<lambda>(ks, history, ns). (0, Some saved, history, ns))
           (session (keys_of inp) [] (ui_notes (fst (snd (ui_start (envs 0) line arb))))))"
proof -
  obtain out ui arb1 where start: "ui_start (envs 0) line arb = (out, ui, arb1)" by (metis prod_cases3)
  note st = ui_start_state [OF start]
  then have s: "session (keys_of inp) [] (ui_notes ui) =
      map_option (\<lambda>(out, rest, ui', arb'). (keys_of rest, ui_history ui', ui_notes ui')) (ui_loop True envs 1 inp (ui, arb1))"
    using ui_loop_session [of ui envs 1 inp arb1] assms by (simp add: history_ok_def)
  show ?thesis
  proof (cases tty)
    case None
    with st start show ?thesis by (simp add: ui_main_def ui_loop_sleeps)
  next
    case (Some saved)
    then show ?thesis
      by (cases "ui_loop True envs 1 inp (ui, arb1)") (simp_all add: ui_main_def start s case_prod_beta)
  qed
qed

definition demo_ui_env :: ui_env where
  "demo_ui_env =
     \<lparr>ue_now = 0, ue_pid = 9, ue_link = Link_down, ue_os = \<lparr>kill0 = \<lambda>_. Kill_ok, attr_current = \<lambda>_. None\<rparr>,
      ue_enforce = None, ue_width = None, ue_hms = \<lambda>_. [], ue_hm = \<lambda>_. [], ue_stamp = \<lambda>_. []\<rparr>"

theorem ui_main_session_witness:
  "\<exists>out ui arb'. ui_main (Some \<lparr>tt_icanon = True, tt_echo = True, tt_vmin = 1, tt_vtime = 0\<rparr>) (\<lambda>t. demo_ui_env)
       (map Some ''clea'' @ [None] @ map Some ''r'' @ [Some CR] @ map Some ''quit'' @ [Some LF]) (replicate 1024 NUL) arbiter_init =
     Some (0, Some \<lparr>tt_icanon = True, tt_echo = True, tt_vmin = 1, tt_vtime = 0\<rparr>, out, ui, arb') \<and>
   ui_history ui = [''clear'', ''quit''] \<and> ui_notes ui = []"
proof -
  let ?inp = "map Some ''clea'' @ [None] @ map Some ''r'' @ [Some CR] @ map Some ''quit'' @ [Some LF]"
  have k: "keys_of ?inp = map Key ''clear'' @ [Key_enter] @ map Key ''quit'' @ [Key_enter]"
    by (simp add: printable_def)
  have c: "first_word ''clear'' = Some ''clear''" "first_word ''quit'' = Some ''quit''"
    by (simp_all add: first_word_def blank_def)
  have "session (keys_of ?inp) [] ns = Some ([], [''clear'', ''quit''], [])" for ns
    unfolding k using c
    by (simp add: session.simps blank_draft_def edit_key_def leaves_def remember_def ui_command_def)
  then show ?thesis
    using ui_main_session [of "replicate 1024 NUL" "Some \<lparr>tt_icanon = True, tt_echo = True, tt_vmin = 1, tt_vtime = 0\<rparr>"
        "\<lambda>t. demo_ui_env" ?inp arbiter_init]
    by auto
qed

end
