(* ===== verification/Fifo.thy ===== *)
theory Fifo
  imports Prelude
begin

text \<open>
  The contract of a bounded first-in first-out queue that drops what does not fit, as the input
  manager keeps one between its reader and its dispatcher.
\<close>

datatype 'a fifo_op = Put 'a | Get

fun fifo_spec :: "nat \<Rightarrow> 'a fifo_op list \<Rightarrow> 'a list \<Rightarrow> 'a option list \<times> 'a list" where
  "fifo_spec cap [] xs = ([], xs)"
| "fifo_spec cap (Put x # ops) xs = fifo_spec cap ops (if length xs < cap then xs @ [x] else xs)"
| "fifo_spec cap (Get # ops) xs =
     (case xs of
        [] \<Rightarrow> (let (out, r) = fifo_spec cap ops [] in (None # out, r))
      | y # ys \<Rightarrow> (let (out, r) = fifo_spec cap ops ys in (Some y # out, r)))"

fun puts :: "'a fifo_op list \<Rightarrow> 'a list" where
  "puts [] = []"
| "puts (Put x # ops) = x # puts ops"
| "puts (Get # ops) = puts ops"

text \<open>What comes out, followed by what is left, is a subsequence of what was put in, in order.\<close>

lemma fifo_spec_order:
  "subseq (List.map_filter (\<lambda>x. x) (fst (fifo_spec cap ops xs)) @ snd (fifo_spec cap ops xs)) (xs @ puts ops)"
proof (induction cap ops xs rule: fifo_spec.induct)
  case (2 cap x ops xs)
  have "subseq (xs @ puts ops) (xs @ x # puts ops)" by (intro list_emb_append_mono) auto
  with 2 show ?case by (auto intro: subseq_order.trans)
next
  case (3 cap ops xs)
  then show ?case by (cases xs) (auto simp: List.map_filter_simps split: prod.splits)
qed simp

lemma fifo_spec_lossless:
  "length xs + length (puts ops) \<le> cap \<Longrightarrow>
   List.map_filter (\<lambda>x. x) (fst (fifo_spec cap ops xs)) @ snd (fifo_spec cap ops xs) = xs @ puts ops"
proof (induction cap ops xs rule: fifo_spec.induct)
  case (3 cap ops xs)
  then show ?case by (cases xs) (auto simp: List.map_filter_simps split: prod.splits)
qed (simp_all add: List.map_filter_simps)

text \<open>A run of operations on an implementation.\<close>

fun drive :: "('a \<Rightarrow> 's \<Rightarrow> 's) \<Rightarrow> ('s \<Rightarrow> ('a \<times> 's) option) \<Rightarrow> 'a fifo_op list \<Rightarrow> 's \<Rightarrow> 'a option list \<times> 's" where
  "drive enq deq [] s = ([], s)"
| "drive enq deq (Put x # ops) s = drive enq deq ops (enq x s)"
| "drive enq deq (Get # ops) s =
     (case deq s of
        None \<Rightarrow> (let (out, r) = drive enq deq ops s in (None # out, r))
      | Some (y, s') \<Rightarrow> (let (out, r) = drive enq deq ops s' in (Some y # out, r)))"

locale bounded_fifo =
  fixes inv :: "'s \<Rightarrow> bool"
    and contents :: "'s \<Rightarrow> 'a list"
    and enq :: "'a \<Rightarrow> 's \<Rightarrow> 's"
    and deq :: "'s \<Rightarrow> ('a \<times> 's) option"
    and cap :: nat
  assumes enq_inv: "inv s \<Longrightarrow> inv (enq x s)"
    and enq_contents: "inv s \<Longrightarrow> contents (enq x s) = (if length (contents s) < cap then contents s @ [x] else contents s)"
    and deq_empty: "inv s \<Longrightarrow> contents s = [] \<Longrightarrow> deq s = None"
    and deq_first: "inv s \<Longrightarrow> contents s = x # xs \<Longrightarrow> \<exists>s'. deq s = Some (x, s') \<and> inv s' \<and> contents s' = xs"
begin

lemma drive_refines:
  "inv s \<Longrightarrow> fst (drive enq deq ops s) = fst (fifo_spec cap ops (contents s)) \<and>
    contents (snd (drive enq deq ops s)) = snd (fifo_spec cap ops (contents s)) \<and> inv (snd (drive enq deq ops s))"
proof (induction ops arbitrary: s rule: puts.induct)
  case (2 x ops)
  then show ?case by (simp add: enq_inv enq_contents)
next
  case (3 ops)
  show ?case
  proof (cases "contents s")
    case Nil
    with 3(1) [OF 3(2)] deq_empty [OF 3(2) Nil] show ?thesis by (simp add: Let_def case_prod_beta)
  next
    case (Cons y ys)
    from deq_first [OF 3(2) this] obtain s' where s: "deq s = Some (y, s')" "inv s'" "contents s' = ys" by blast
    with 3(1) [OF s(2)] Cons show ?thesis by (simp add: Let_def case_prod_beta)
  qed
qed simp

end

end
