(* ===== verification/Input_Manager.thy ===== *)
theory Input_Manager
  imports Fifo
begin

text \<open>
  Input: the daemon \<open>frontend/ui/input_manager.c\<close> (device discovery, the ring buffer between its two
  threads, the reader) and the library \<open>frontend/deps/input/input.c\<close>.  Every access to the ring is
  inside one mutex, so the steps of the threads are the calls of \<open>enqueue_event\<close> and
  \<open>dequeue_event\<close>.  The files of \<open>/dev/input\<close> are a parameter.
\<close>

section \<open>The kernel's interface\<close>

definition EV_KEY :: nat where "EV_KEY = 1"
definition EV_REL :: nat where "EV_REL = 2"
definition EV_ABS :: nat where "EV_ABS = 3"

record raw_event =
  rw_sec :: int
  rw_usec :: int
  rw_type :: nat
  rw_code :: int
  rw_value :: int

record evdev =
  ed_fd :: int
  ed_name :: "string option"
  ed_bits :: u64

record input_fs =
  fs_entries :: "string list option"
  fs_open :: "string \<Rightarrow> evdev option"

section \<open>The daemon\<close>

datatype input_event_type_t = EVENT_KEYBOARD | EVENT_MOUSE | EVENT_TOUCH | EVENT_STYLUS | EVENT_GAMEPAD

record servecosys_input_event_t =
  sv_type :: input_event_type_t
  sv_device_id :: nat
  sv_code :: int
  sv_value :: int
  sv_absolute_x :: int
  sv_absolute_y :: int
  sv_pressure :: int
  sv_timestamp_ms :: int

record im_device_t =
  im_fd :: int
  im_name :: string
  im_devpath :: string
  im_type :: input_event_type_t
  im_active :: int

definition IM_MAX_DEVICES :: nat where "IM_MAX_DEVICES = 32"
definition MAX_EVENTS :: nat where "MAX_EVENTS = 256"

definition has_word :: "string \<Rightarrow> string list \<Rightarrow> bool" where
  "has_word name words = list_ex (\<lambda>w. strstr name w \<noteq> None) words"

definition im_classify_device :: "string \<Rightarrow> u64 \<Rightarrow> input_event_type_t" where
  "im_classify_device name ev_bits =
     (if has_word name [''keyboard'', ''Keyboard'', ''kbd''] then EVENT_KEYBOARD
      else if has_word name [''mouse'', ''Mouse''] then EVENT_MOUSE
      else if has_word name [''touch'', ''Touch'', ''ts''] then EVENT_TOUCH
      else if has_word name [''pen'', ''wacom'', ''stylus''] then EVENT_STYLUS
      else if has_word name [''gamepad'', ''joystick''] then EVENT_GAMEPAD
      else if ev_bits AND push_bit EV_ABS 1 \<noteq> 0 then EVENT_TOUCH
      else if ev_bits AND push_bit EV_KEY 1 \<noteq> 0 then EVENT_KEYBOARD
      else if ev_bits AND push_bit EV_REL 1 \<noteq> 0 then EVENT_MOUSE
      else EVENT_KEYBOARD)"

definition im_device :: "string \<Rightarrow> string \<Rightarrow> evdev \<Rightarrow> im_device_t" where
  "im_device d_name devpath ev =
     (let name = (case ed_name ev of Some n \<Rightarrow> fit 256 n | None \<Rightarrow> fit 256 (''unknown-'' @ d_name)) in
      \<lparr>im_fd = ed_fd ev, im_name = name, im_devpath = fit 256 devpath,
       im_type = im_classify_device name (ed_bits ev), im_active = 1\<rparr>)"

fun discover_entries :: "input_fs \<Rightarrow> string list \<Rightarrow> im_device_t list \<Rightarrow> im_device_t list" where
  "discover_entries fs [] devices = devices"
| "discover_entries fs (d # ds) devices =
     (if length devices < IM_MAX_DEVICES then
        (if prefix ''event'' d then
           (let devpath = fit 256 (''/dev/input/'' @ d) in
            case fs_open fs devpath of
              None \<Rightarrow> discover_entries fs ds devices
            | Some ev \<Rightarrow> discover_entries fs ds (devices @ [im_device d devpath ev]))
         else discover_entries fs ds devices)
      else devices)"

definition discover_devices :: "input_fs \<Rightarrow> int \<times> im_device_t list" where
  "discover_devices fs =
     (case fs_entries fs of
        None \<Rightarrow> (-1, [])
      | Some ds \<Rightarrow> (let devices = discover_entries fs ds [] in (int (length devices), devices)))"

record event_ring =
  event_queue :: "servecosys_input_event_t list"
  event_head :: nat
  event_tail :: nat

definition enqueue_event :: "servecosys_input_event_t \<Rightarrow> event_ring \<Rightarrow> event_ring" where
  "enqueue_event ev q =
     (let next' = (event_tail q + 1) mod MAX_EVENTS in
      if next' \<noteq> event_head q
      then q\<lparr>event_queue := (event_queue q)[event_tail q := ev], event_tail := next'\<rparr>
      else q)"

text \<open>\<open>None\<close> is the return value -1.\<close>

definition dequeue_event :: "event_ring \<Rightarrow> (servecosys_input_event_t \<times> event_ring) option" where
  "dequeue_event q =
     (if event_head q = event_tail q then None
      else Some (event_queue q ! event_head q, q\<lparr>event_head := (event_head q + 1) mod MAX_EVENTS\<rparr>))"

text \<open>
  One event read from device \<open>i\<close>; \<open>sev\<close> is the reader's local variable, which keeps the coordinates
  from one event to the next.
\<close>

definition read_event ::
  "im_device_t list \<Rightarrow> nat \<Rightarrow> raw_event \<Rightarrow> event_ring \<times> servecosys_input_event_t \<Rightarrow>
   event_ring \<times> servecosys_input_event_t" where
  "read_event devices i ev = (\<lambda>(q, sev).
     (let sev = sev\<lparr>sv_type := im_type (devices ! i), sv_device_id := i, sv_code := rw_code ev,
                   sv_value := rw_value ev, sv_timestamp_ms := rw_sec ev * 1000 + rw_usec ev div 1000\<rparr> in
      if rw_type ev = EV_KEY then (enqueue_event sev q, sev)
      else if rw_type ev = EV_ABS \<and> rw_code ev = 0 then (q, sev\<lparr>sv_absolute_x := rw_value ev\<rparr>)
      else if rw_type ev = EV_ABS \<and> rw_code ev = 1 then (q, sev\<lparr>sv_absolute_y := rw_value ev\<rparr>)
      else if rw_type ev = EV_REL \<and> rw_code ev = 0 then
        (q, sev\<lparr>sv_absolute_x := sv_absolute_x sev + rw_value ev\<rparr>)
      else if rw_type ev = EV_REL \<and> rw_code ev = 1 then
        (q, sev\<lparr>sv_absolute_y := sv_absolute_y sev + rw_value ev\<rparr>)
      else (q, sev)))"

text \<open>One pass over the devices; \<open>reads i\<close> is what \<open>read\<close> delivers for device \<open>i\<close>.\<close>

definition reader_pass ::
  "im_device_t list \<Rightarrow> (nat \<Rightarrow> raw_event option) \<Rightarrow> event_ring \<times> servecosys_input_event_t \<Rightarrow>
   event_ring \<times> servecosys_input_event_t" where
  "reader_pass devices reads st =
     fold (\<lambda>i st. if im_active (devices ! i) = 0 then st
                  else (case reads i of None \<Rightarrow> st | Some ev \<Rightarrow> read_event devices i ev st))
       [0..<length devices] st"

text \<open>One client of the dispatcher gets at most one event.\<close>

definition dispatch_client :: "event_ring \<Rightarrow> servecosys_input_event_t option \<times> event_ring" where
  "dispatch_client q = (case dequeue_event q of None \<Rightarrow> (None, q) | Some (ev, q') \<Rightarrow> (Some ev, q'))"

section \<open>The library\<close>

datatype input_dev_type_t =
  INPUT_KEYBOARD | INPUT_MOUSE | INPUT_TOUCH | INPUT_STYLUS | INPUT_GAMEPAD | INPUT_UNKNOWN

record input_event_t =
  iv_type :: input_dev_type_t
  iv_device_id :: int
  iv_code :: int
  iv_value :: int
  iv_abs_x :: int
  iv_abs_y :: int
  iv_pressure :: int
  iv_timestamp_ms :: int

record input_device_t =
  iv_fd :: int
  iv_name :: string
  iv_devpath :: string
  iv_dev_type :: input_dev_type_t
  iv_active :: int

definition INPUT_MAX_DEVICES :: nat where "INPUT_MAX_DEVICES = 32"

definition input_classify :: "string option \<Rightarrow> u64 \<Rightarrow> input_dev_type_t" where
  "input_classify name ev_bits =
     (case name of
        None \<Rightarrow> INPUT_UNKNOWN
      | Some name \<Rightarrow>
          if has_word name [''keyboard'', ''Keyboard'', ''kbd''] then INPUT_KEYBOARD
          else if has_word name [''mouse'', ''Mouse''] then INPUT_MOUSE
          else if has_word name [''touch'', ''Touch'', ''ts''] then INPUT_TOUCH
          else if has_word name [''pen'', ''wacom'', ''stylus''] then INPUT_STYLUS
          else if has_word name [''gamepad'', ''joystick''] then INPUT_GAMEPAD
          else if ev_bits AND push_bit EV_ABS 1 \<noteq> 0 then INPUT_TOUCH
          else if ev_bits AND push_bit EV_KEY 1 \<noteq> 0 then INPUT_KEYBOARD
          else if ev_bits AND push_bit EV_REL 1 \<noteq> 0 then INPUT_MOUSE
          else INPUT_UNKNOWN)"

definition input_open_device :: "input_fs \<Rightarrow> string \<Rightarrow> input_device_t option" where
  "input_open_device fs devpath =
     (case fs_open fs devpath of
        None \<Rightarrow> None
      | Some ev \<Rightarrow>
          (let name = (case ed_name ev of Some n \<Rightarrow> fit 64 n | None \<Rightarrow> ''unknown'') in
           Some \<lparr>iv_fd = ed_fd ev, iv_name = name, iv_devpath = fit 256 devpath,
                 iv_dev_type = input_classify (Some name) (ed_bits ev), iv_active = 1\<rparr>))"

definition input_close_device :: "input_device_t" where
  "input_close_device =
     \<lparr>iv_fd = -1, iv_name = [], iv_devpath = [], iv_dev_type = INPUT_KEYBOARD, iv_active = 0\<rparr>"

fun input_discover_entries :: "input_fs \<Rightarrow> string list \<Rightarrow> input_device_t list \<Rightarrow> input_device_t list" where
  "input_discover_entries fs [] table = table"
| "input_discover_entries fs (d # ds) table =
     (if length table < INPUT_MAX_DEVICES then
        (if prefix ''event'' d then
           (case input_open_device fs (fit 256 (''/dev/input/'' @ d)) of
              None \<Rightarrow> input_discover_entries fs ds table
            | Some dev \<Rightarrow> input_discover_entries fs ds (table @ [dev]))
         else input_discover_entries fs ds table)
      else table)"

definition input_discover :: "input_fs \<Rightarrow> int \<times> input_device_t list" where
  "input_discover fs =
     (case fs_entries fs of
        None \<Rightarrow> (-1, [])
      | Some ds \<Rightarrow> (let table = input_discover_entries fs ds [] in (int (length table), table)))"

text \<open>
  \<open>dev - (input_device_t *)0\<close> is no index but the address of the device counted in devices: a
  parameter \<open>addr\<close> here.
\<close>

definition input_read_event :: "int \<Rightarrow> input_device_t \<Rightarrow> raw_event option \<Rightarrow> input_event_t option" where
  "input_read_event addr dev got =
     (if iv_fd dev < 0 then None
      else case got of
        None \<Rightarrow> None
      | Some raw \<Rightarrow> Some
          \<lparr>iv_type = (case iv_dev_type dev of
              INPUT_KEYBOARD \<Rightarrow> INPUT_KEYBOARD | INPUT_MOUSE \<Rightarrow> INPUT_MOUSE | INPUT_TOUCH \<Rightarrow> INPUT_TOUCH
            | _ \<Rightarrow> INPUT_UNKNOWN),
           iv_device_id = addr, iv_code = rw_code raw, iv_value = rw_value raw, iv_abs_x = 0, iv_abs_y = 0,
           iv_pressure = 0, iv_timestamp_ms = rw_sec raw * 1000 + rw_usec raw div 1000\<rparr>)"

section \<open>The ring is a bounded queue\<close>

definition ring_inv :: "event_ring \<Rightarrow> bool" where
  "ring_inv q \<longleftrightarrow> length (event_queue q) = 256 \<and> event_head q < 256 \<and> event_tail q < 256"

definition ring_length :: "event_ring \<Rightarrow> nat" where
  "ring_length q = (event_tail q + 256 - event_head q) mod 256"

definition ring_contents :: "event_ring \<Rightarrow> servecosys_input_event_t list" where
  "ring_contents q = map (\<lambda>k. event_queue q ! ((event_head q + k) mod 256)) [0..<ring_length q]"

lemma mod_256: "x < 512 \<Longrightarrow> x mod 256 = (if x < 256 then x else x - 256 :: nat)"
  by (simp add: mod_if)

lemma ring_length_eq:
  "ring_inv q \<Longrightarrow> ring_length q =
     (if event_head q \<le> event_tail q then event_tail q - event_head q else event_tail q + 256 - event_head q)"
  by (auto simp: ring_length_def ring_inv_def mod_256)

lemma ring_full: "ring_inv q \<Longrightarrow> (event_tail q + 1) mod 256 \<noteq> event_head q \<longleftrightarrow> ring_length q < 255"
  by (auto simp: ring_length_eq ring_inv_def mod_256)

lemma ring_enqueue:
  assumes "ring_inv q"
  shows "ring_inv (enqueue_event ev q) \<and>
    ring_contents (enqueue_event ev q) =
      (if length (ring_contents q) < 255 then ring_contents q @ [ev] else ring_contents q)"
proof (cases "ring_length q < 255")
  case True
  then have q: "enqueue_event ev q =
      q\<lparr>event_queue := (event_queue q)[event_tail q := ev], event_tail := (event_tail q + 1) mod 256\<rparr>"
    using ring_full [OF assms] by (simp add: enqueue_event_def MAX_EVENTS_def)
  have inv: "ring_inv (enqueue_event ev q)" using assms by (simp add: q ring_inv_def)
  have len: "ring_length (enqueue_event ev q) = Suc (ring_length q)"
    using assms True by (auto simp: q ring_length_def ring_inv_def mod_256 split: if_splits)
  have last: "(event_head q + ring_length q) mod 256 = event_tail q"
    using assms by (auto simp: ring_length_eq ring_inv_def mod_256)
  have other: "(event_head q + k) mod 256 \<noteq> event_tail q" "event_tail q \<noteq> (event_head q + k) mod 256"
    if "k < ring_length q" for k
    using assms that by (auto simp: ring_length_eq ring_inv_def mod_256 split: if_splits)
  have "ring_contents (enqueue_event ev q) = ring_contents q @ [ev]"
    unfolding ring_contents_def len using last other assms by (simp add: q ring_inv_def)
  with inv True show ?thesis by (simp add: ring_contents_def)
next
  case False
  then have "enqueue_event ev q = q" using ring_full [OF assms] by (simp add: enqueue_event_def MAX_EVENTS_def)
  with assms False show ?thesis by (simp add: ring_contents_def)
qed

lemma ring_dequeue:
  assumes "ring_inv q" "ring_contents q = x # xs"
  shows "\<exists>q'. dequeue_event q = Some (x, q') \<and> ring_inv q' \<and> ring_contents q' = xs"
proof -
  from assms(2) obtain n where n: "ring_length q = Suc n" by (cases "ring_length q") (simp_all add: ring_contents_def)
  then have "event_head q \<noteq> event_tail q" using ring_length_eq [OF assms(1)] by auto
  then have d: "dequeue_event q = Some (event_queue q ! event_head q, q\<lparr>event_head := (event_head q + 1) mod 256\<rparr>)"
    by (simp add: dequeue_event_def MAX_EVENTS_def)
  let ?q = "q\<lparr>event_head := (event_head q + 1) mod 256\<rparr>"
  have inv: "ring_inv ?q" using assms(1) by (simp add: ring_inv_def)
  have len: "ring_length ?q = n"
    using assms(1) n by (auto simp: ring_length_def ring_inv_def mod_256 split: if_splits)
  have idx: "((event_head q + 1) mod 256 + k) mod 256 = (event_head q + Suc k) mod 256" for k
    by (simp add: mod_simps)
  have "ring_contents q = event_queue q ! (event_head q mod 256) # ring_contents ?q"
    unfolding ring_contents_def len n upt_conv_Cons [OF zero_less_Suc] using idx
    by (simp add: map_Suc_upt [symmetric] del: upt_Suc)
  with assms inv d show ?thesis by (simp add: ring_inv_def)
qed

interpretation ring: bounded_fifo ring_inv ring_contents enqueue_event dequeue_event 255
proof
  fix q x
  assume "ring_inv q"
  then show "ring_inv (enqueue_event x q)"
    "ring_contents (enqueue_event x q) = (if length (ring_contents q) < 255 then ring_contents q @ [x] else ring_contents q)"
    using ring_enqueue by blast+
next
  fix q
  assume "ring_inv q" "ring_contents q = []"
  then have "event_head q = event_tail q"
    using ring_length_eq [of q] by (auto simp: ring_contents_def ring_inv_def split: if_splits)
  then show "dequeue_event q = None" by (simp add: dequeue_event_def)
qed (rule ring_dequeue)

section \<open>Properties\<close>

definition ring_init :: event_ring where
  "ring_init = \<lparr>event_queue = replicate 256
     \<lparr>sv_type = EVENT_KEYBOARD, sv_device_id = 0, sv_code = 0, sv_value = 0, sv_absolute_x = 0,
      sv_absolute_y = 0, sv_pressure = 0, sv_timestamp_ms = 0\<rparr>, event_head = 0, event_tail = 0\<rparr>"

lemma ring_init_inv: "ring_inv ring_init" "ring_contents ring_init = []"
  by (simp_all add: ring_inv_def ring_init_def ring_contents_def ring_length_def)

text \<open>
  The event queue.  Every interleaving of the reader's and the dispatcher's operations on
  the ring gives the results of an abstract queue of capacity 255 that drops what does not fit; the
  delivered events, followed by the queued ones, are a subsequence of those enqueued, in order.
\<close>

lemma event_queue_fifo:
  "fst (drive enqueue_event dequeue_event ops ring_init) = fst (fifo_spec 255 ops []) \<and>
   ring_contents (snd (drive enqueue_event dequeue_event ops ring_init)) = snd (fifo_spec 255 ops []) \<and>
   subseq (List.map_filter (\<lambda>x. x) (fst (drive enqueue_event dequeue_event ops ring_init)) @
           ring_contents (snd (drive enqueue_event dequeue_event ops ring_init))) (puts ops)"
  using ring.drive_refines [OF ring_init_inv(1), of ops] fifo_spec_order [of 255 ops "[]"] ring_init_inv(2)
  by simp

type_synonym key_report = "nat \<times> int \<times> int"

definition report :: "servecosys_input_event_t \<Rightarrow> key_report" where
  "report ev = (sv_device_id ev, sv_code ev, sv_value ev)"

lemma ring_contents_le: "ring_inv q \<Longrightarrow> length (ring_contents q) \<le> 255"
  by (auto simp: ring_contents_def ring_length_eq ring_inv_def)

text \<open>
  What the reader queues.  From any events of the devices exactly the key events reach the
  queue, in order and as long as there is room; pointer motion and absolute positions only change the
  reader's local coordinates and are never queued.
\<close>

lemma reader_queues_keys_only:
  assumes "ring_inv q"
  shows "map report (ring_contents (fst (fold (\<lambda>(i, ev). read_event devices i ev) evs (q, sev)))) =
     take 255 (map report (ring_contents q) @
       map (\<lambda>(i, ev). (i, rw_code ev, rw_value ev)) (filter (\<lambda>(i, ev). rw_type ev = EV_KEY) evs))"
  using assms
proof (induction evs arbitrary: q sev)
  case Nil
  then show ?case using ring_contents_le [of q] by simp
next
  case (Cons p evs)
  obtain i ev where p: "p = (i, ev)" by force
  show ?case
  proof (cases "rw_type ev = EV_KEY")
    case True
    then obtain e sev' where e: "read_event devices i ev (q, sev) = (enqueue_event e q, sev')"
      "report e = (i, rw_code ev, rw_value ev)"
      by (simp add: read_event_def report_def Let_def)
    note q = ring_enqueue [OF Cons.prems, of e]
    have step: "fold (\<lambda>(i, ev). read_event devices i ev) (p # evs) (q, sev) =
        fold (\<lambda>(i, ev). read_event devices i ev) evs (enqueue_event e q, sev')"
      by (simp add: p e)
    show ?thesis
    proof (cases "length (ring_contents q) < 255")
      case room: True
      then have "255 - length (ring_contents q) = Suc (254 - length (ring_contents q))" by simp
      with q room True Cons.IH [of "enqueue_event e q" sev'] show ?thesis
        unfolding step by (simp add: p e)
    next
      case False
      then have "length (ring_contents q) = 255" using ring_contents_le [OF Cons.prems] by simp
      with q False True Cons.IH [of "enqueue_event e q" sev'] show ?thesis
        unfolding step by (simp add: p)
    qed
  next
    case False
    then have "fst (read_event devices i ev (q, sev)) = q" by (simp add: read_event_def Let_def)
    then obtain sev' where e: "read_event devices i ev (q, sev) = (q, sev')" by (metis prod.collapse)
    with False Cons.IH [of q sev'] Cons.prems show ?thesis by (simp add: p)
  qed
qed

lemma reader_queues_keys_only_witness:
  "map report (ring_contents (fst (fold (\<lambda>(i, ev). read_event [] i ev)
     [(0, \<lparr>rw_sec = 1, rw_usec = 0, rw_type = 2, rw_code = 0, rw_value = 5\<rparr>),
      (0, \<lparr>rw_sec = 1, rw_usec = 0, rw_type = 1, rw_code = 30, rw_value = 1\<rparr>)] 
     (ring_init, \<lparr>sv_type = EVENT_KEYBOARD, sv_device_id = 0, sv_code = 0, sv_value = 0, sv_absolute_x = 0,
       sv_absolute_y = 0, sv_pressure = 0, sv_timestamp_ms = 0\<rparr>)))) = [(0, 30, 1)]"
  using reader_queues_keys_only [OF ring_init_inv(1), of "[]"
     "[(0, \<lparr>rw_sec = 1, rw_usec = 0, rw_type = 2, rw_code = 0, rw_value = 5\<rparr>),
       (0, \<lparr>rw_sec = 1, rw_usec = 0, rw_type = 1, rw_code = 30, rw_value = 1\<rparr>)]"
     "\<lparr>sv_type = EVENT_KEYBOARD, sv_device_id = 0, sv_code = 0, sv_value = 0, sv_absolute_x = 0,
       sv_absolute_y = 0, sv_pressure = 0, sv_timestamp_ms = 0\<rparr>"]
  by (simp add: ring_init_inv EV_KEY_def)

text \<open>The two classifiers agree, except that the daemon takes an unknown device for a keyboard.\<close>

lemma classifiers_agree:
  "im_classify_device name b =
     (case input_classify (Some name) b of
        INPUT_KEYBOARD \<Rightarrow> EVENT_KEYBOARD | INPUT_MOUSE \<Rightarrow> EVENT_MOUSE | INPUT_TOUCH \<Rightarrow> EVENT_TOUCH
      | INPUT_STYLUS \<Rightarrow> EVENT_STYLUS | INPUT_GAMEPAD \<Rightarrow> EVENT_GAMEPAD | INPUT_UNKNOWN \<Rightarrow> EVENT_KEYBOARD)"
  by (simp add: im_classify_device_def input_classify_def)

lemma discover_entries_le: "length devices \<le> 32 \<Longrightarrow> length (discover_entries fs ds devices) \<le> 32"
  by (induction ds arbitrary: devices) (auto simp: IM_MAX_DEVICES_def Let_def split: option.split)

end
