(* ===== verification/Input_Threads.thy ===== *)
theory Input_Threads
  imports Input_Manager Ipc_Lib
begin

text \<open>
  The two threads of \<open>frontend/ui/input_manager.c\<close> as a step relation: \<open>event_reader\<close> walks over the devices,
  \<open>ipc_dispatcher\<close> sets up its socket and gives each client one event.  They share only the ring, whose operations
  are atomic under the mutex, so one iteration of a loop is one step and a run is any interleaving.
\<close>

section \<open>The threads\<close>

definition IM_SOCK_PATH :: string where "IM_SOCK_PATH = ''/var/run/servecosys_input.sock''"

text \<open>
  The set-up of the dispatcher looks at the result of \<open>socket\<close> only; the descriptor listens when both \<open>bind\<close> and
  \<open>listen\<close> succeed.
\<close>

definition dispatcher_setup :: "sock_env \<Rightarrow> sock_state \<Rightarrow> int \<times> sock_state" where
  "dispatcher_setup env k =
     (let (fd, k) = sys_socket env (sys_unlink IM_SOCK_PATH k) in
      if fd < 0 then (fd, k)
      else (fd, if se_bind env IM_SOCK_PATH \<and> se_listen env
                then k\<lparr>ss_kind := (ss_kind k)(fd \<mapsto> Sock_listening)\<rparr> else k))"

record im_state =
  im_ring :: event_ring
  im_sev :: servecosys_input_event_t
  im_pos :: nat
  im_server :: int
  im_sock :: sock_state
  im_taken :: "servecosys_input_event_t list"
  im_received :: "servecosys_input_event_t list"

text \<open>
  What a step does: the reader gets an event from device \<open>i\<close> or none, and starts its next pass after the last device; the
  dispatcher fails to accept, or serves a client, whose \<open>write\<close> goes through or not.
\<close>

datatype im_label = Read_event nat raw_event | Read_none | Next_pass | Accept_failed | Serve bool

definition take_event :: "bool \<Rightarrow> im_state \<Rightarrow> im_state" where
  "take_event sent s =
     (case dispatch_client (im_ring s) of
        (None, q) \<Rightarrow> s\<lparr>im_ring := q\<rparr>
      | (Some ev, q) \<Rightarrow>
          s\<lparr>im_ring := q, im_taken := im_taken s @ [ev],
            im_received := (if sent then im_received s @ [ev] else im_received s)\<rparr>)"

inductive im_step :: "im_device_t list \<Rightarrow> im_state \<Rightarrow> im_label \<Rightarrow> im_state \<Rightarrow> bool" for devices where
  reads: "i = im_pos s \<Longrightarrow> i < length devices \<Longrightarrow> im_active (devices ! i) \<noteq> 0 \<Longrightarrow>
    read_event devices i ev (im_ring s, im_sev s) = (q, sev) \<Longrightarrow>
    im_step devices s (Read_event i ev) (s\<lparr>im_ring := q, im_sev := sev, im_pos := Suc i\<rparr>)"
| skips: "im_pos s < length devices \<Longrightarrow> im_step devices s Read_none (s\<lparr>im_pos := Suc (im_pos s)\<rparr>)"
| next_pass: "im_pos s \<ge> length devices \<Longrightarrow> im_step devices s Next_pass (s\<lparr>im_pos := 0\<rparr>)"
| accept_fails: "im_server s \<ge> 0 \<Longrightarrow> im_step devices s Accept_failed s"
| serves: "im_server s \<ge> 0 \<Longrightarrow> ss_kind (im_sock s) (im_server s) = Some Sock_listening \<Longrightarrow>
    im_step devices s (Serve sent) (take_event sent s)"

inductive_cases im_stepE: "im_step devices s l s'"

inductive im_run :: "im_device_t list \<Rightarrow> im_state \<Rightarrow> im_label list \<Rightarrow> im_state \<Rightarrow> bool" for devices s where
  run_start: "im_run devices s [] s"
| run_step: "im_run devices s tr s1 \<Longrightarrow> im_step devices s1 l s2 \<Longrightarrow> im_run devices s (tr @ [l]) s2"

text \<open>The steps are deterministic once the label is known, and executable.\<close>

fun im_next :: "im_device_t list \<Rightarrow> im_label \<Rightarrow> im_state \<Rightarrow> im_state option" where
  "im_next devices (Read_event i ev) s =
     (if i = im_pos s \<and> i < length devices \<and> im_active (devices ! i) \<noteq> 0 then
        (let (q, sev) = read_event devices i ev (im_ring s, im_sev s) in
         Some (s\<lparr>im_ring := q, im_sev := sev, im_pos := Suc i\<rparr>))
      else None)"
| "im_next devices Read_none s = (if im_pos s < length devices then Some (s\<lparr>im_pos := Suc (im_pos s)\<rparr>) else None)"
| "im_next devices Next_pass s = (if im_pos s \<ge> length devices then Some (s\<lparr>im_pos := 0\<rparr>) else None)"
| "im_next devices Accept_failed s = (if im_server s \<ge> 0 then Some s else None)"
| "im_next devices (Serve sent) s =
     (if im_server s \<ge> 0 \<and> ss_kind (im_sock s) (im_server s) = Some Sock_listening then Some (take_event sent s) else None)"

lemma im_next_step: "im_next devices l s = Some s' \<longleftrightarrow> im_step devices s l s'"
  by (cases l) (auto intro: im_step.intros elim: im_stepE split: prod.splits if_splits)

fun im_exec :: "im_device_t list \<Rightarrow> im_label list \<Rightarrow> im_state \<Rightarrow> im_state option" where
  "im_exec devices [] s = Some s"
| "im_exec devices (l # tr) s = Option.bind (im_next devices l s) (im_exec devices tr)"

lemma im_exec_run: "im_exec devices tr s1 = Some s2 \<Longrightarrow> im_run devices s tr0 s1 \<Longrightarrow> im_run devices s (tr0 @ tr) s2"
proof (induction tr arbitrary: tr0 s1)
  case (Cons l tr)
  then obtain s' where "im_step devices s1 l s'" "im_exec devices tr s' = Some s2"
    by (auto simp: bind_eq_Some_conv im_next_step)
  with Cons.IH [of s' "tr0 @ [l]"] Cons.prems(2) show ?case by (simp add: im_run.run_step)
qed simp

text \<open>The process when its threads start; \<open>sev\<close> is what the reader's local variable holds.\<close>

definition im_boot :: "sock_env \<Rightarrow> sock_state \<Rightarrow> servecosys_input_event_t \<Rightarrow> im_state" where
  "im_boot env k sev =
     (let (fd, k) = dispatcher_setup env k in
      \<lparr>im_ring = ring_init, im_sev = sev, im_pos = 0, im_server = fd, im_sock = k, im_taken = [], im_received = []\<rparr>)"

section \<open>The way of an event\<close>

text \<open>The key events among those read: device, code and value.\<close>

fun key_reports :: "im_label list \<Rightarrow> key_report list" where
  "key_reports [] = []"
| "key_reports (Read_event i ev # tr) =
     (if rw_type ev = EV_KEY then (i, rw_code ev, rw_value ev) # key_reports tr else key_reports tr)"
| "key_reports (_ # tr) = key_reports tr"

lemma key_reports_append [simp]: "key_reports (tr @ tr') = key_reports tr @ key_reports tr'"
  by (induction tr rule: key_reports.induct) simp_all

definition waiting :: "im_state \<Rightarrow> key_report list" where
  "waiting s = map report (ring_contents (im_ring s))"

lemma read_event_queue:
  assumes "read_event devices i ev (q, sev) = (q', sev')" "ring_inv q"
  shows "ring_inv q' \<and> map report (ring_contents q') =
    (if rw_type ev = EV_KEY \<and> length (ring_contents q) < 255
     then map report (ring_contents q) @ [(i, rw_code ev, rw_value ev)] else map report (ring_contents q))"
proof (cases "rw_type ev = EV_KEY")
  case True
  with assms obtain e where e: "q' = enqueue_event e q" "report e = (i, rw_code ev, rw_value ev)"
    by (auto simp: read_event_def report_def Let_def)
  with ring.enq_inv [OF assms(2), of e] ring.enq_contents [OF assms(2), of e] True show ?thesis by simp
next
  case False
  with assms show ?thesis by (auto simp: read_event_def Let_def split: if_splits)
qed


lemma take_event_queue:
  assumes "ring_inv (im_ring s)"
  obtains "ring_contents (im_ring s) = []" "take_event sent s = s"
  | ev where "ring_inv (im_ring (take_event sent s))" "im_taken (take_event sent s) = im_taken s @ [ev]"
      "waiting s = report ev # waiting (take_event sent s)"
      "im_received (take_event sent s) = (if sent then im_received s @ [ev] else im_received s)"
proof (cases "ring_contents (im_ring s)")
  case Nil
  with ring.deq_empty [OF assms] have "take_event sent s = s" by (simp add: take_event_def dispatch_client_def)
  with Nil show thesis by (rule that(1))
next
  case (Cons ev evs)
  from ring.deq_first [OF assms this] obtain q where q:
    "dequeue_event (im_ring s) = Some (ev, q)" "ring_inv q" "ring_contents q = evs" by blast
  then have t: "take_event sent s = s\<lparr>im_ring := q, im_taken := im_taken s @ [ev],
      im_received := (if sent then im_received s @ [ev] else im_received s)\<rparr>"
    by (simp add: take_event_def dispatch_client_def)
  show thesis by (rule that(2) [of ev]) (simp_all add: t q Cons waiting_def)
qed

definition flow :: "im_label list \<Rightarrow> im_state \<Rightarrow> bool" where
  "flow tr s \<longleftrightarrow>
     ring_inv (im_ring s) \<and> subseq (map report (im_taken s) @ waiting s) (key_reports tr) \<and>
     (length (key_reports tr) \<le> 255 \<longrightarrow> map report (im_taken s) @ waiting s = key_reports tr) \<and>
     subseq (im_received s) (im_taken s) \<and> (Serve False \<notin> set tr \<longrightarrow> im_received s = im_taken s)"

lemma flow_step:
  assumes "flow tr s" "im_step devices s l s'"
  shows "flow (tr @ [l]) s'"
  using assms(2)
proof cases
  case (reads i ev q sev)
  have inv: "ring_inv (im_ring s)" using assms(1) by (simp add: flow_def)
  note q = read_event_queue [OF reads(6) inv]
  have w: "waiting s' = (if rw_type ev = EV_KEY \<and> length (waiting s) < 255
      then waiting s @ [(i, rw_code ev, rw_value ev)] else waiting s)"
    using q by (simp add: reads(2) waiting_def)
  show ?thesis
  proof (cases "rw_type ev = EV_KEY \<and> length (waiting s) < 255")
    case True
    then show ?thesis using assms(1) q w reads(1,2)
      by (auto simp: flow_def simp flip: append_assoc)
  next
    case False
    then have "rw_type ev \<noteq> EV_KEY \<or> 255 < length (key_reports tr) + 1"
      using assms(1) list_emb_length [of "(=)" "map report (im_taken s) @ waiting s" "key_reports tr"]
      by (auto simp: flow_def)
    then show ?thesis using assms(1) q w False reads(1,2) by (auto simp: flow_def)
  qed
next
  case (serves sent)
  have inv: "ring_inv (im_ring s)" using assms(1) by (simp add: flow_def)
  show ?thesis
  proof (rule take_event_queue [OF inv, of sent])
    assume "take_event sent s = s"
    then show ?thesis using assms(1) by (auto simp: serves flow_def)
  next
    fix ev
    assume "ring_inv (im_ring (take_event sent s))" "im_taken (take_event sent s) = im_taken s @ [ev]"
      "waiting s = report ev # waiting (take_event sent s)"
      "im_received (take_event sent s) = (if sent then im_received s @ [ev] else im_received s)"
    then show ?thesis using assms(1)
      by (auto simp: serves flow_def list_emb_append_mono intro: subseq_order.trans)
  qed
qed (use assms(1) in \<open>simp_all add: flow_def waiting_def\<close>)

lemma flow_run: "im_run devices s tr s' \<Longrightarrow> flow [] s \<Longrightarrow> flow tr s'"
  by (induction rule: im_run.induct) (auto intro: flow_step)

lemma flow_boot: "flow [] (im_boot env k sev)"
  by (simp add: flow_def im_boot_def waiting_def ring_init_inv case_prod_beta)

section \<open>A dispatcher that cannot listen\<close>

definition deaf :: "im_state \<Rightarrow> bool" where
  "deaf s \<longleftrightarrow> (im_server s \<ge> 0 \<longrightarrow> ss_kind (im_sock s) (im_server s) \<noteq> Some Sock_listening)"

lemma deaf_boot:
  "\<not> (se_bind env IM_SOCK_PATH \<and> se_listen env) \<Longrightarrow> deaf (im_boot env k sev)"
  by (auto simp: deaf_def im_boot_def dispatcher_setup_def sys_socket_def sys_unlink_def)

lemma deaf_step:
  assumes "im_step devices s l s'" "deaf s" "ring_inv (im_ring s)"
    and "im_taken s = [] \<and> waiting s = take 255 (key_reports tr)"
  shows "deaf s' \<and> im_taken s' = [] \<and> waiting s' = take 255 (key_reports (tr @ [l]))"
  using assms(1)
proof cases
  case (reads i ev q sev)
  have d: "deaf s'" "im_taken s' = []" using assms(2,4) by (simp_all add: reads deaf_def)
  show ?thesis
  proof (cases "rw_type ev = EV_KEY \<and> length (waiting s) < 255")
    case True
    with read_event_queue [OF reads(6) assms(3)] have "waiting s' = waiting s @ [(i, rw_code ev, rw_value ev)]"
      by (simp add: reads(2) waiting_def)
    moreover have "take 255 (key_reports tr) = key_reports tr" "length (key_reports tr) < 255"
      using True assms(4) by auto
    ultimately show ?thesis using True assms(4) d by (simp add: reads(1))
  next
    case False
    with read_event_queue [OF reads(6) assms(3)] have "waiting s' = waiting s"
      by (auto simp add: reads(2) waiting_def)
    then show ?thesis using False assms(4) d by (auto simp: reads(1) min_def split: if_splits)
  qed
qed (use assms(2,4) in \<open>simp_all add: deaf_def waiting_def\<close>)

lemma deaf_run:
  assumes "im_run devices s tr s'" "deaf s" "flow [] s" "im_taken s = []" "waiting s = []"
  shows "deaf s' \<and> im_taken s' = [] \<and> waiting s' = take 255 (key_reports tr)"
  using assms
proof (induction rule: im_run.induct)
  case (run_step tr s1 l s2)
  then have "ring_inv (im_ring s1)" using flow_run [OF run_step(1)] by (simp add: flow_def)
  with run_step deaf_step [OF run_step(2), of tr] show ?case by blast
qed simp

section \<open>Properties\<close>

text \<open>
  Claim C31.  The way of an event through the input manager.  In every interleaving of the two threads, the events taken for
  clients followed by those in the queue are a subsequence, in order, of the key events read from the devices, and all of
  them as long as no more than 255 were read; clients receive what was taken unless their own write fails.  When the
  dispatcher's socket could not be bound or made to listen nobody notices: no event is ever taken, and the queue keeps
  the first 255 key events.
\<close>

theorem input_event_flow:
  assumes "im_run devices (im_boot env k sev) tr s"
  shows "subseq (map report (im_taken s) @ waiting s) (key_reports tr) \<and>
    (length (key_reports tr) \<le> 255 \<longrightarrow> map report (im_taken s) @ waiting s = key_reports tr) \<and>
    subseq (im_received s) (im_taken s) \<and> (Serve False \<notin> set tr \<longrightarrow> im_received s = im_taken s) \<and>
    (\<not> (se_bind env IM_SOCK_PATH \<and> se_listen env) \<longrightarrow> im_taken s = [] \<and> waiting s = take 255 (key_reports tr))"
proof -
  have "im_taken (im_boot env k sev) = []" "waiting (im_boot env k sev) = []"
    by (simp_all add: im_boot_def waiting_def ring_init_inv case_prod_beta)
  then show ?thesis
    using flow_run [OF assms flow_boot] deaf_run [OF assms deaf_boot [of env k sev] flow_boot] by (auto simp: flow_def)
qed

definition demo_sev :: servecosys_input_event_t where
  "demo_sev = \<lparr>sv_type = EVENT_KEYBOARD, sv_device_id = 0, sv_code = 0, sv_value = 0, sv_absolute_x = 0,
     sv_absolute_y = 0, sv_pressure = 0, sv_timestamp_ms = 0\<rparr>"

definition demo_keyboard :: im_device_t where
  "demo_keyboard = \<lparr>im_fd = 3, im_name = ''kbd'', im_devpath = ''/dev/input/event0'', im_type = EVENT_KEYBOARD, im_active = 1\<rparr>"

definition demo_key :: "nat \<Rightarrow> int \<Rightarrow> raw_event" where
  "demo_key ty code = \<lparr>rw_sec = 1, rw_usec = 0, rw_type = ty, rw_code = code, rw_value = 1\<rparr>"

definition demo_boot :: im_state where
  "demo_boot = im_boot
     \<lparr>se_socket = 4, se_bind = \<lambda>p. True, se_listen = True, se_connect = \<lambda>p. True, se_accept = 5,
      se_write = \<lambda>t n. int n, se_read = \<lambda>t n. []\<rparr>
     \<lparr>ss_kind = (\<lambda>d. None), ss_closed = [], ss_unlinked = [], ss_chmod = []\<rparr> demo_sev"

definition demo_run :: "im_label list" where
  "demo_run = [Read_event 0 (demo_key EV_REL 0), Next_pass, Serve True, Read_event 0 (demo_key EV_KEY 30), Serve True]"

lemma demo_trace: "\<exists>s. im_exec [demo_keyboard] demo_run demo_boot = Some s \<and> length (im_taken s) = 1"
  by (simp add: demo_run_def demo_boot_def im_boot_def dispatcher_setup_def sys_socket_def sys_unlink_def demo_keyboard_def
      demo_key_def read_event_def EV_KEY_def EV_REL_def EV_ABS_def take_event_def dispatch_client_def dequeue_event_def
      enqueue_event_def ring_init_def MAX_EVENTS_def Let_def)

theorem input_event_flow_witness:
  "\<exists>s. im_run [demo_keyboard] demo_boot demo_run s \<and> map report (im_received s) = [(0, 30, 1)]"
proof -
  obtain s where "im_exec [demo_keyboard] demo_run demo_boot = Some s" and one: "length (im_taken s) = 1"
    using demo_trace by blast
  then have run: "im_run [demo_keyboard] demo_boot demo_run s" using im_exec_run [OF _ im_run.run_start] by fastforce
  from input_event_flow [OF run [unfolded demo_boot_def]]
  have "map report (im_taken s) @ waiting s = [(0, 30, 1)]" "im_received s = im_taken s"
    by (simp_all add: demo_run_def demo_key_def EV_KEY_def EV_REL_def)
  with run one show ?thesis by (auto simp: length_Suc_conv Cons_eq_append_conv)
qed

end
