(* ===== verification/Idle_Daemons.thy ===== *)
theory Idle_Daemons
  imports Hal Compositor Input_Threads
begin

text \<open>
  The daemons whose \<open>main\<close> only waits: \<open>hal_manager.c\<close>, \<open>compositor.c\<close> and \<open>input_manager.c\<close>.  What they do before
  they wait, the loop, and the shutdown behind it, which is never reached.
\<close>

section \<open>Waiting\<close>

text \<open>\<open>while (running) sleep(n)\<close>: no statement and no signal handler of these programs assigns \<open>running\<close>.\<close>

partial_function (option) sleep_while :: "int \<Rightarrow> 's \<Rightarrow> 's option" where
  "sleep_while running s = (if running \<noteq> 0 then sleep_while running s else Some s)"

lemma sleep_while_forever: "running \<noteq> 0 \<Longrightarrow> sleep_while running s = None"
proof -
  have "sleep_while running s = Some r \<Longrightarrow> running = 0" for r
    by (rule sleep_while.raw_induct [where P = "\<lambda>running s r. running = 0"]) (auto split: if_splits)
  then show "running \<noteq> 0 \<Longrightarrow> sleep_while running s = None" by (cases "sleep_while running s") auto
qed

lemma sleep_while_stopped: "sleep_while 0 s = Some s"
  by (subst sleep_while.simps) simp

section \<open>The programs\<close>

definition HAL_PID_FILE :: string where "HAL_PID_FILE = ''/var/run/hal_manager.pid''"
definition COMP_PID_FILE :: string where "COMP_PID_FILE = ''/var/run/compositor.pid''"
definition IM_PID_FILE :: string where "IM_PID_FILE = ''/var/run/input_manager.pid''"
definition DISPLAY_IPC :: string where "DISPLAY_IPC = ''/var/run/servecosys_display.sock''"

text \<open>The device table and its listing, and the files removed in the end.\<close>

definition hal_main :: "sysfs \<Rightarrow> sock_state \<Rightarrow> (int \<times> string list \<times> sock_state) option" where
  "hal_main sys k =
     (let tab = scan_all_devices sys in
      Option.bind (sleep_while 1 (print_device_table tab, k)) (\<lambda>(out, k). Some (0, out, sys_unlink HAL_PID_FILE k)))"

definition connect_ipc :: "sock_env \<Rightarrow> string \<Rightarrow> sock_state \<Rightarrow> int \<times> sock_state" where
  "connect_ipc env path k =
     (let (fd, k) = sys_socket env k in
      if fd < 0 then (-1, k)
      else if \<not> se_connect env (fit 108 path) then (-1, sys_close fd k)
      else (fd, k\<lparr>ss_kind := (ss_kind k)(fd \<mapsto> Sock_connected)\<rparr>))"

text \<open>The compositor before it waits: its descriptor and what it has written to it.\<close>

definition comp_boot :: "sock_env \<Rightarrow> sock_state \<Rightarrow> int \<times> compositor_t \<times> sock_state" where
  "comp_boot env k =
     (let (display_fd, k) = connect_ipc env DISPLAY_IPC k in (display_fd, compositor_main (\<not> display_fd < 0), k))"

definition comp_main :: "sock_env \<Rightarrow> sock_state \<Rightarrow> (int \<times> compositor_t \<times> sock_state) option" where
  "comp_main env k =
     Option.bind (sleep_while 1 (comp_boot env k)) (\<lambda>(display_fd, c, k).
       Some (0, c, sys_unlink COMP_PID_FILE (if display_fd \<ge> 0 then sys_close display_fd k else k)))"

text \<open>The main thread of the input manager; \<open>joined\<close> is the socket state when its threads have ended.\<close>

definition im_main :: "input_fs \<Rightarrow> sock_state \<Rightarrow> (int \<times> sock_state) option" where
  "im_main fs joined =
     (let devices = snd (discover_devices fs) in
      Option.bind (sleep_while 1 joined) (\<lambda>k.
        Some (0, sys_unlink IM_PID_FILE (fold (\<lambda>d k. sys_close (im_fd d) k) devices k))))"

section \<open>Properties\<close>

text \<open>The connection of the compositor is the one the front end's library makes.\<close>

lemma connect_ipc_library:
  "connect_ipc env path k =
     (let (err, ch', k') = fe_client_connect env (Some path) ch k in (if err = IPC_OK then ch_fd ch' else -1, k'))"
  by (auto simp: connect_ipc_def fe_client_connect_def case_prod_beta Let_def)

text \<open>A failed connection leaves no descriptor, a successful one leaves one that is connected.\<close>

lemma connect_ipc_result:
  assumes "connect_ipc env path k = (fd, k')" "ss_kind k (se_socket env) = None"
  shows "if fd < 0 then ss_kind k' = ss_kind k else fd = se_socket env \<and> ss_kind k' = (ss_kind k)(fd \<mapsto> Sock_connected)"
  using assms by (auto simp: connect_ipc_def sys_socket_def sys_close_def fun_upd_idem split: if_splits)

text \<open>Without a display server the compositor keeps no windows, and it never tries again.\<close>

lemma headless_compositor:
  "\<not> se_connect env (fit 108 DISPLAY_IPC) \<Longrightarrow> fst (snd (comp_boot env k)) = compositor_init"
  by (auto simp: comp_boot_def connect_ipc_def compositor_main_def case_prod_beta Let_def)

text \<open>None of the three ever returns, so no shutdown happens, no descriptor is closed and the pid files stay.\<close>

lemma waiting_daemons_never_return: "hal_main sys k = None \<and> comp_main env k = None \<and> im_main fs k = None"
  by (simp add: hal_main_def comp_main_def im_main_def sleep_while_forever)

end
