(* ===== verification/Oipes_Lib.thy ===== *)
theory Oipes_Lib
  imports Number_Text
begin

text \<open>
  The network client library \<open>backend/deps/oipes-net/oipes.c\<close>.  The network is a parameter: whether the
  host resolves, the socket opens and the connection is made, and the bytes the single \<open>read\<close> of a
  request returns (none when it fails or the peer closes).  Files are a map from paths to contents.  A
  response array that was never written holds whatever the stack held, so its old contents are an
  argument.  The guards against null clients are left out; a null string is \<open>None\<close>.
\<close>

section \<open>What the library sees of the system\<close>

record oipes_net =
  on_resolve :: "string \<Rightarrow> bool"
  on_socket :: bool
  on_connect :: "string \<Rightarrow> int \<Rightarrow> bool"
  on_answer :: "string \<Rightarrow> string"

type_synonym file_store = "string \<Rightarrow> string option"

text \<open>
  The \<open>%ns\<close> and \<open>%ld\<close> of \<open>fscanf\<close>: white space is skipped, then up to \<open>n\<close> other characters, or a
  number, are read; each also returns what is left.  A number outside \<open>long\<close> becomes the nearest bound.
\<close>

definition scan_s :: "nat \<Rightarrow> string \<Rightarrow> (string \<times> string) option" where
  "scan_s n s =
     (let t = dropWhile is_space s; w = take n (takeWhile (\<lambda>c. \<not> is_space c) t) in
      if w = [] then None else Some (w, drop (length w) t))"

definition clamp_long :: "int \<Rightarrow> int" where
  "clamp_long i = max (- (2 ^ 63)) (min (2 ^ 63 - 1) i)"

definition scan_ld :: "string \<Rightarrow> int option" where
  "scan_ld s =
     (let t = dropWhile is_space s;
          neg = (t \<noteq> [] \<and> hd t = CHR ''-'');
          u = (if t \<noteq> [] \<and> hd t \<in> {CHR ''-'', CHR ''+''} then tl t else t)
      in if u \<noteq> [] \<and> is_digit (hd u)
         then Some (clamp_long (if neg then - digits_value 0 u else digits_value 0 u)) else None)"

section \<open>Tokens and clients\<close>

record oipes_token_t =
  access_token :: string
  refresh_token :: string
  expires_at :: int
  is_valid :: bool

record oipes_client_t =
  cl_token :: oipes_token_t
  cl_host :: string
  cl_port :: int
  cl_device_id :: string

definition OIPES_TOKEN_MAX :: nat where "OIPES_TOKEN_MAX = 4096"
definition OIPES_URL_MAX :: nat where "OIPES_URL_MAX = 256"
definition OIPES_RESPONSE_MAX :: nat where "OIPES_RESPONSE_MAX = 65536"

definition empty_token :: oipes_token_t where
  "empty_token = \<lparr>access_token = [], refresh_token = [], expires_at = 0, is_valid = False\<rparr>"

definition oipes_init :: "string option \<Rightarrow> int \<Rightarrow> pid_t \<Rightarrow> oipes_client_t option" where
  "oipes_init host port pid =
     (case host of
        None \<Rightarrow> None
      | Some h \<Rightarrow> Some \<lparr>cl_token = empty_token, cl_host = fit OIPES_URL_MAX h,
          cl_port = (if port \<noteq> 0 then port else 443), cl_device_id = fit 128 (''servecosys-'' @ dec pid)\<rparr>)"

definition http_raw_request :: "oipes_net \<Rightarrow> string \<Rightarrow> int \<Rightarrow> string \<Rightarrow> nat \<Rightarrow> string \<Rightarrow> int \<times> string" where
  "http_raw_request net host port request resp_size old =
     (if \<not> on_resolve net host then (-1, old)
      else if \<not> on_socket net then (-1, old)
      else if \<not> on_connect net host (port mod 2 ^ 16) then (-1, old)
      else let got = take (resp_size - 1) (on_answer net request) in
        if got \<noteq> [] then (0, cstr got) else (-1, old))"

text \<open>A JSON or header string between quotation marks.\<close>

definition quoted :: "string \<Rightarrow> string" where
  "quoted s = DQUOTE # s @ [DQUOTE]"

abbreviation CRLF :: string where "CRLF \<equiv> [CR, LF]"

definition or_null :: "string \<Rightarrow> string option \<Rightarrow> string" where
  "or_null d s = (case s of Some x \<Rightarrow> x | None \<Rightarrow> d)"

definition lib_head :: "string \<Rightarrow> string \<Rightarrow> string \<Rightarrow> string \<Rightarrow> nat \<Rightarrow> string" where
  "lib_head meth path host token len =
     meth @ '' /v1'' @ path @ '' HTTP/1.1'' @ CRLF @
     ''Host: '' @ host @ CRLF @
     ''Authorization: Bearer '' @ token @ CRLF @
     ''Content-Type: application/json'' @ CRLF @
     ''Content-Length: '' @ dec_nat len @ CRLF @
     ''Connection: close'' @ CRLF @
     ''User-Agent: ServEcosys-OIPES/0.1.0'' @ CRLF @ CRLF"

definition oipes_request ::
  "oipes_net \<Rightarrow> oipes_client_t \<Rightarrow> string \<Rightarrow> string \<Rightarrow> string option \<Rightarrow> nat \<Rightarrow> string \<Rightarrow> int \<times> string" where
  "oipes_request net client meth path body resp_size old =
     http_raw_request net (cl_host client) (cl_port client)
       (fit 8192 (lib_head meth path (cl_host client)
          (if is_valid (cl_token client) then access_token (cl_token client) else [])
          (length (or_null [] body)) @ or_null [] body))
       resp_size old"

text \<open>The token between the quotation marks after the first \<open>access_token\<close> key of a response.\<close>

definition token_key :: string where
  "token_key = quoted ''access_token'' @ '':'' @ [DQUOTE]"

definition extract_token :: "string \<Rightarrow> string option" where
  "extract_token response =
     (case strstr response token_key of
        None \<Rightarrow> None
      | Some r \<Rightarrow>
          (let start = drop 16 r in
           case strchr start DQUOTE of
             None \<Rightarrow> None
           | Some e \<Rightarrow>
               (let len = length start - length e in
                if len \<ge> OIPES_TOKEN_MAX then None else Some (take len start))))"

definition grant_token :: "string \<Rightarrow> int \<Rightarrow> oipes_token_t \<Rightarrow> oipes_token_t" where
  "grant_token tok now t = t\<lparr>access_token := tok, expires_at := now + 3600, is_valid := True\<rparr>"

definition oipes_auth ::
  "oipes_net \<Rightarrow> int \<Rightarrow> string option \<Rightarrow> string \<Rightarrow> oipes_client_t \<Rightarrow> int \<times> oipes_client_t" where
  "oipes_auth net now client_id stack client =
     (let body = fit 512 (''{'' @ quoted ''grant_type'' @ '':'' @ quoted ''client_credentials'' @ '','' @
                   quoted ''client_id'' @ '':'' @ quoted (or_null ''servecosys'' client_id) @ ''}'');
          (rc, response) = oipes_request net client ''POST'' ''/auth/token'' (Some body) OIPES_RESPONSE_MAX stack
      in if rc \<noteq> 0 then (-1, client)
         else case extract_token response of
             None \<Rightarrow> (-1, client)
           | Some tok \<Rightarrow> (0, client\<lparr>cl_token := grant_token tok now (cl_token client)\<rparr>))"

definition infer_body :: "string option \<Rightarrow> string option \<Rightarrow> string" where
  "infer_body model prompt =
     fit 4096 (''{'' @ quoted ''model'' @ '':'' @ quoted (or_null ''default'' model) @ '','' @
       quoted ''prompt'' @ '':'' @ quoted (or_null [] prompt) @ '','' @ quoted ''max_tokens'' @ '':512}'')"

definition oipes_ai_infer ::
  "oipes_net \<Rightarrow> oipes_client_t \<Rightarrow> string option \<Rightarrow> string option \<Rightarrow> nat \<Rightarrow> string \<Rightarrow> int \<times> string" where
  "oipes_ai_infer net client model prompt result_size result =
     (if \<not> is_valid (cl_token client) then (-1, result)
      else oipes_request net client ''POST'' ''/ai/inference'' (Some (infer_body model prompt)) result_size result)"

definition oipes_device_register :: "oipes_net \<Rightarrow> string \<Rightarrow> oipes_client_t \<Rightarrow> int" where
  "oipes_device_register net stack client =
     fst (oipes_request net client ''POST'' ''/devices/register''
       (Some (fit 512 (''{'' @ quoted ''device_id'' @ '':'' @ quoted (cl_device_id client) @ '','' @
          quoted ''device_type'' @ '':'' @ quoted ''servecosys'' @ '','' @
          quoted ''version'' @ '':'' @ quoted ''0.1.0'' @ ''}''))) 4096 stack)"

section \<open>The token file\<close>

definition scan_token :: "string \<Rightarrow> oipes_token_t \<Rightarrow> nat \<times> oipes_token_t" where
  "scan_token s t =
     (case scan_s 4095 s of
        None \<Rightarrow> (0, t)
      | Some (a, s1) \<Rightarrow>
          (let t1 = t\<lparr>access_token := cstr a\<rparr> in
           case scan_s 4095 s1 of
             None \<Rightarrow> (1, t1)
           | Some (r, s2) \<Rightarrow>
               (let t2 = t1\<lparr>refresh_token := cstr r\<rparr> in
                case scan_ld s2 of
                  None \<Rightarrow> (2, t2)
                | Some e \<Rightarrow> (3, t2\<lparr>expires_at := e\<rparr>))))"

definition oipes_token_load ::
  "file_store \<Rightarrow> int \<Rightarrow> string option \<Rightarrow> oipes_client_t \<Rightarrow> int \<times> oipes_client_t" where
  "oipes_token_load fs now path client =
     (case path of
        None \<Rightarrow> (-1, client)
      | Some p \<Rightarrow>
          (case fs p of
             None \<Rightarrow> (-1, client)
           | Some s \<Rightarrow>
               (let (n, t) = scan_token s (cl_token client);
                    t' = (if n = 3 then t\<lparr>is_valid := expires_at t > now\<rparr> else t)
                in (if is_valid t' then 0 else -1, client\<lparr>cl_token := t'\<rparr>))))"

definition token_text :: "oipes_token_t \<Rightarrow> string" where
  "token_text t = access_token t @ [LF] @ refresh_token t @ [LF] @ dec (expires_at t) @ [LF]"

definition oipes_token_save ::
  "(string \<Rightarrow> bool) \<Rightarrow> string option \<Rightarrow> oipes_client_t \<Rightarrow> file_store \<Rightarrow> int \<times> file_store" where
  "oipes_token_save writable path client fs =
     (case path of
        None \<Rightarrow> (-1, fs)
      | Some p \<Rightarrow> if \<not> writable p then (-1, fs) else (0, fs(p \<mapsto> token_text (cl_token client))))"

definition oipes_token_refresh :: "oipes_net \<Rightarrow> int \<Rightarrow> string \<Rightarrow> oipes_client_t \<Rightarrow> int \<times> oipes_client_t" where
  "oipes_token_refresh net now stack client = oipes_auth net now (Some ''servecosys'') stack client"

section \<open>Scanning\<close>

lemma scan_s_word:
  assumes "w \<noteq> []" "\<forall>c \<in> set w. \<not> is_space c" "length w \<le> n" "is_space b"
  shows "scan_s n (w @ b # r) = Some (w, b # r)"
proof -
  have "dropWhile is_space (w @ b # r) = w @ b # r"
    using assms(1,2) by (cases w) auto
  moreover have "takeWhile (\<lambda>c. \<not> is_space c) (w @ b # r) = w"
    using assms(2,4) by (simp add: takeWhile_append)
  ultimately show ?thesis using assms(1,3) by (cases w) (auto simp: scan_s_def Let_def)
qed

lemma scan_s_skip [simp]: "is_space c \<Longrightarrow> scan_s n (c # s) = scan_s n s"
  by (simp add: scan_s_def)

lemma scan_ld_skip [simp]: "is_space c \<Longrightarrow> scan_ld (c # s) = scan_ld s"
  by (simp add: scan_ld_def)

lemma is_space_LF [simp]: "is_space LF"
  by (simp add: is_space_def)

lemma not_digit_LF [simp]: "\<not> is_digit LF"
  by (simp add: is_digit_def)

lemma digits_value_LF: "digits_value acc (dec_nat n @ [LF]) = acc * 10 ^ length (dec_nat n) + int n"
  by (simp add: digits_value_dec)

lemma clamp_long_id: "- (2 ^ 63) \<le> i \<Longrightarrow> i < 2 ^ 63 \<Longrightarrow> clamp_long i = i"
  by (simp add: clamp_long_def)

lemma dec_head:
  obtains c cs where "dec_nat n = c # cs" "is_digit c" "c \<noteq> CHR ''-''" "c \<noteq> CHR ''+''" "\<not> is_space c"
proof -
  obtain c cs where c: "dec_nat n @ [] = c # cs" "is_digit c" using dec_nat_head by blast
  moreover have "c \<noteq> CHR ''-''" "c \<noteq> CHR ''+''" using c(2) by auto
  ultimately show thesis using that digit_not_space by simp
qed

lemma scan_ld_dec:
  assumes "- (2 ^ 63) \<le> i" "i < 2 ^ 63"
  shows "scan_ld (dec i @ [LF]) = Some i"
proof (cases "i < 0")
  case True
  obtain c cs where "dec_nat (nat (- i)) = c # cs" "is_digit c" by (rule dec_head)
  moreover have "digits_value 0 (dec_nat (nat (- i)) @ [LF]) = - i" using True by (simp add: digits_value_LF)
  ultimately show ?thesis using True assms by (simp add: dec_def scan_ld_def is_space_def clamp_long_id)
next
  case False
  obtain c cs where "dec_nat (nat i) = c # cs" "is_digit c" "c \<noteq> CHR ''-''" "c \<noteq> CHR ''+''" "\<not> is_space c"
    by (rule dec_head)
  moreover have "digits_value 0 (dec_nat (nat i) @ [LF]) = i" using False by (simp add: digits_value_LF)
  ultimately show ?thesis using False assms by (simp add: dec_def scan_ld_def clamp_long_id)
qed

text \<open>A word that can be a field of the token file.\<close>

definition plain_word :: "string \<Rightarrow> bool" where
  "plain_word w = (w \<noteq> [] \<and> list_all (\<lambda>c. \<not> is_space c \<and> c \<noteq> NUL) w \<and> length w < OIPES_TOKEN_MAX)"

lemma plain_wordD:
  "plain_word w \<Longrightarrow> w \<noteq> [] \<and> (\<forall>c \<in> set w. \<not> is_space c) \<and> length w \<le> 4095 \<and> cstr w = w"
  by (auto simp: plain_word_def list_all_iff OIPES_TOKEN_MAX_def cstr_def takeWhile_eq_all_conv)

lemma dec_no_space: "c \<in> set (dec i) \<Longrightarrow> \<not> is_space c"
  using dec_nat_digits digit_not_space by (auto simp: dec_def is_space_def split: if_splits)

lemma scan_token_text:
  assumes "plain_word (access_token t)" "plain_word (refresh_token t)"
    "- (2 ^ 63) \<le> expires_at t" "expires_at t < 2 ^ 63"
  shows "scan_token (token_text t) u =
    (3, u\<lparr>access_token := access_token t, refresh_token := refresh_token t, expires_at := expires_at t\<rparr>)"
  using assms plain_wordD [OF assms(1)] plain_wordD [OF assms(2)]
  by (simp add: scan_token_def token_text_def scan_s_word scan_ld_dec)

text \<open>Without a refresh token the expiry is read in its place and nothing is left for the number.\<close>

lemma scan_token_no_refresh:
  assumes "plain_word (access_token t)" "refresh_token t = []" "length (dec (expires_at t)) \<le> 4095"
  shows "fst (scan_token (token_text t) u) = 2"
proof -
  have "dec (expires_at t) \<noteq> []" using dec_nat_nonempty by (simp add: dec_def)
  then have "scan_s 4095 (dec (expires_at t) @ [LF]) = Some (dec (expires_at t), [LF])"
    using assms(3) dec_no_space by (intro scan_s_word) auto
  moreover have "scan_ld [LF] = None" by (simp add: scan_ld_def)
  ultimately show ?thesis using assms(2) plain_wordD [OF assms(1)]
    by (simp add: scan_token_def token_text_def scan_s_word)
qed

text \<open>
  A token whose two strings are words without white space and whose expiry is a
  \<open>long\<close> survives the token file: a client that loads what another client saved holds the same
  strings and expiry, is valid exactly when the expiry is still ahead, and the load reports that.
\<close>

lemma token_file_roundtrip:
  assumes "plain_word (access_token (cl_token c))" "plain_word (refresh_token (cl_token c))"
    "- (2 ^ 63) \<le> expires_at (cl_token c)" "expires_at (cl_token c) < 2 ^ 63" "writable p"
  shows "oipes_token_load (snd (oipes_token_save writable (Some p) c fs)) now (Some p) d =
    (if now < expires_at (cl_token c) then 0 else -1,
     d\<lparr>cl_token := (cl_token c)\<lparr>is_valid := now < expires_at (cl_token c)\<rparr>\<rparr>)"
  using assms by (simp add: oipes_token_load_def oipes_token_save_def scan_token_text)

lemma token_file_roundtrip_witness:
  "let c = \<lparr>cl_token = \<lparr>access_token = ''abc'', refresh_token = ''def'', expires_at = 500, is_valid = True\<rparr>,
            cl_host = ''h'', cl_port = 443, cl_device_id = ''servecosys-7''\<rparr> in
   oipes_token_load (snd (oipes_token_save (\<lambda>p. True) (Some ''/t'') c (\<lambda>p. None))) 100 (Some ''/t'')
     (c\<lparr>cl_token := empty_token\<rparr>) = (0, c)"
  using token_file_roundtrip
    [of "\<lparr>cl_token = \<lparr>access_token = ''abc'', refresh_token = ''def'', expires_at = 500, is_valid = True\<rparr>,
          cl_host = ''h'', cl_port = 443, cl_device_id = ''servecosys-7''\<rparr>" "\<lambda>p. True" "''/t''" "\<lambda>p. None" 100
        "\<lparr>cl_token = empty_token, cl_host = ''h'', cl_port = 443, cl_device_id = ''servecosys-7''\<rparr>"]
  by (simp add: plain_word_def is_space_def OIPES_TOKEN_MAX_def)

section \<open>Requests\<close>

text \<open>A request succeeds exactly when an answer of at least one byte fits; otherwise the array is untouched.\<close>

lemma oipes_request_result:
  "oipes_request net c meth path body n old = (rc, out) \<Longrightarrow>
   (rc = 0 \<or> rc = -1) \<and> (rc = -1 \<longrightarrow> out = old) \<and>
   (rc = 0 \<longrightarrow> on_resolve net (cl_host c) \<and> on_socket net \<and> 1 < n \<and>
      (\<exists>request. out = cstr (take (n - 1) (on_answer net request)) \<and> on_answer net request \<noteq> []))"
  by (auto simp: oipes_request_def http_raw_request_def Let_def split: if_splits)

text \<open>\<open>oipes_auth\<close> changes the token only when it succeeds; its strings then fit.\<close>

lemma extract_token_short: "extract_token s = Some tok \<Longrightarrow> length tok < OIPES_TOKEN_MAX \<and> DQUOTE \<notin> set tok"
proof -
  assume *: "extract_token s = Some tok"
  then obtain r e where r: "strchr (drop 16 r) DQUOTE = Some e"
    and tok: "tok = take (length (drop 16 r) - length e) (drop 16 r)" "length (drop 16 r) - length e < OIPES_TOKEN_MAX"
    by (auto simp: extract_token_def Let_def split: option.splits if_splits)
  have "\<exists>a. s = a @ e \<and> x \<notin> set a" if "strchr s x = Some e" for s x
    using that
  proof (induction s)
    case (Cons c s)
    show ?case
    proof (cases "c = x")
      case True
      with Cons.prems show ?thesis by (intro exI [of _ "[]"]) simp
    next
      case False
      with Cons obtain a where "s = a @ e" "x \<notin> set a" by auto
      with False show ?thesis by (intro exI [of _ "c # a"]) simp
    qed
  qed simp
  from this [OF r] obtain a where "drop 16 r = a @ e" "DQUOTE \<notin> set a" by blast
  with tok show ?thesis by simp
qed

lemma oipes_auth_token:
  assumes "oipes_auth net now client_id stack c = (rc, c')"
  shows "(rc = 0 \<and> (\<exists>tok. length tok < OIPES_TOKEN_MAX \<and> DQUOTE \<notin> set tok \<and>
            c' = c\<lparr>cl_token := grant_token tok now (cl_token c)\<rparr>)) \<or> (rc = -1 \<and> c' = c)"
  using assms extract_token_short
  by (auto simp: oipes_auth_def Let_def split: prod.splits if_splits option.splits)

text \<open>
  The library copies model and prompt into the JSON body as they are, so a prompt with a quotation mark
  adds members of its choice.
\<close>

lemma infer_body_injection:
  "infer_body None (Some (''hi'' @ [DQUOTE] @ '','' @ quoted ''model'' @ '':'' @ [DQUOTE] @ ''big'')) =
   ''{'' @ quoted ''model'' @ '':'' @ quoted ''default'' @ '','' @ quoted ''prompt'' @ '':'' @ quoted ''hi'' @ '','' @
   quoted ''model'' @ '':'' @ quoted ''big'' @ '','' @ quoted ''max_tokens'' @ '':512}''"
  by (simp add: infer_body_def quoted_def or_null_def)

end
