(* ===== verification/Oipes_Client.thy ===== *)
theory Oipes_Client
  imports Oipes_Lib
begin

text \<open>
  The daemon \<open>backend/sub_kernel/oipes_client.c\<close>: its stored token, its own HTTP client, the escaped
  inference request, start-up and the renewal loop.  Its token structure has the fields of the
  library's.  One turn of the loop is a record of what the system does in it: how long the sleep and a
  renewal take, the network, whether the token file can be opened for writing once its directory has been
  tried, and what the response array holds before it is written.
\<close>

section \<open>The token file\<close>

type_synonym oipes_auth_token_t = oipes_token_t

definition TOKEN_PATH :: string where
  "TOKEN_PATH = ''/system/backend/data/oipes/token.store''"

definition load_token :: "file_store \<Rightarrow> int \<Rightarrow> oipes_auth_token_t \<Rightarrow> int \<times> oipes_auth_token_t" where
  "load_token fs now auth =
     (case fs TOKEN_PATH of
        None \<Rightarrow> (-1, auth)
      | Some s \<Rightarrow>
          (let (n, t) = scan_token s auth in
           if n \<noteq> 3 then (-1, empty_token)
           else let t' = t\<lparr>is_valid := expires_at t > now\<rparr> in (if is_valid t' then 0 else -1, t')))"

definition save_token :: "bool \<Rightarrow> oipes_auth_token_t \<Rightarrow> file_store \<Rightarrow> int \<times> file_store" where
  "save_token writable auth fs =
     (if \<not> writable then (-1, fs)
      else (0, fs(TOKEN_PATH \<mapsto>
        access_token auth @ [LF] @ refresh_token auth @ [LF] @ dec (expires_at auth) @ [LF])))"

section \<open>Requests\<close>

definition client_head :: "string \<Rightarrow> string \<Rightarrow> string \<Rightarrow> string \<Rightarrow> nat \<Rightarrow> string" where
  "client_head meth path host token len =
     meth @ '' /v1'' @ path @ '' HTTP/1.1'' @ CRLF @
     ''Host: '' @ host @ CRLF @
     ''Authorization: Bearer '' @ token @ CRLF @
     ''Content-Type: application/json'' @ CRLF @
     ''Content-Length: '' @ dec_nat len @ CRLF @
     ''Connection: close'' @ CRLF @ CRLF"

definition request_text :: "oipes_auth_token_t \<Rightarrow> string \<Rightarrow> string \<Rightarrow> string option \<Rightarrow> string" where
  "request_text auth meth path body =
     fit 4096 (client_head meth path ''api.oipes.io'' (if is_valid auth then access_token auth else [])
       (length (or_null [] body)) @ or_null [] body)"

definition http_request ::
  "oipes_net \<Rightarrow> oipes_auth_token_t \<Rightarrow> string \<Rightarrow> string \<Rightarrow> string option \<Rightarrow> nat \<Rightarrow> string \<Rightarrow> int \<times> string" where
  "http_request net auth meth path body resp_size old =
     (if \<not> on_resolve net ''api.oipes.io'' then (-1, old)
      else if \<not> on_socket net then (-1, old)
      else if \<not> on_connect net ''api.oipes.io'' 443 then (-1, old)
      else let got = take (resp_size - 1) (on_answer net (request_text auth meth path body)) in
        (0, if got \<noteq> [] then cstr got else old))"

definition auth_body :: string where
  "auth_body = ''{'' @ quoted ''grant_type'' @ '':'' @ quoted ''client_credentials'' @ '','' @
     quoted ''client_id'' @ '':'' @ quoted ''servecosys'' @ '','' @
     quoted ''device_fingerprint'' @ '':'' @ quoted ''pending'' @ ''}''"

definition authenticate ::
  "oipes_net \<Rightarrow> int \<Rightarrow> bool \<Rightarrow> string \<Rightarrow> oipes_auth_token_t \<Rightarrow> file_store \<Rightarrow> int \<times> oipes_auth_token_t \<times> file_store" where
  "authenticate net now writable stack auth fs =
     (let (ret, response) = http_request net auth ''POST'' ''/auth/token'' (Some auth_body) 8192 stack in
      if ret \<noteq> 0 then (-1, auth, fs)
      else case extract_token response of
          None \<Rightarrow> (-1, auth, fs)
        | Some tok \<Rightarrow>
            (let auth' = grant_token tok now auth in (0, auth', snd (save_token writable auth' fs))))"

text \<open>\<open>json_escape\<close>: the loop stops when fewer than seven bytes are left.\<close>

definition escape_char :: "char \<Rightarrow> string" where
  "escape_char c =
     (if c = DQUOTE then [BACKSLASH, DQUOTE]
      else if c = BACKSLASH then [BACKSLASH, BACKSLASH]
      else if c = LF then [BACKSLASH, CHR ''n'']
      else if c = CR then [BACKSLASH, CHR ''r'']
      else if c = TAB then [BACKSLASH, CHR ''t'']
      else [c])"

fun escape_loop :: "nat \<Rightarrow> nat \<Rightarrow> string \<Rightarrow> string" where
  "escape_loop dst_size k [] = []"
| "escape_loop dst_size k (c # cs) =
     (if k + 6 < dst_size then escape_char c @ escape_loop dst_size (k + length (escape_char c)) cs else [])"

definition json_escape :: "string \<Rightarrow> nat \<Rightarrow> string" where
  "json_escape src dst_size = escape_loop dst_size 0 src"

definition inference_body :: "string \<Rightarrow> string \<Rightarrow> string" where
  "inference_body model prompt =
     fit 4096 (''{'' @ quoted ''model'' @ '':'' @ quoted (json_escape model 256) @ '','' @
       quoted ''prompt'' @ '':'' @ quoted (json_escape prompt 2048) @ '','' @ quoted ''max_tokens'' @ '':512}'')"

definition ai_inference ::
  "oipes_net \<Rightarrow> oipes_auth_token_t \<Rightarrow> string \<Rightarrow> string \<Rightarrow> nat \<Rightarrow> string \<Rightarrow> int \<times> string" where
  "ai_inference net auth model prompt result_size result =
     (if \<not> is_valid auth then (-1, result)
      else http_request net auth ''POST'' ''/ai/inference'' (Some (inference_body model prompt)) result_size result)"

text \<open>The second component says which line is printed: registered, or pending.\<close>

definition register_device :: "oipes_net \<Rightarrow> string \<Rightarrow> oipes_auth_token_t \<Rightarrow> int \<times> bool" where
  "register_device net stack auth =
     (let (ret, response) = http_request net auth ''POST'' ''/devices/register''
            (Some (''{'' @ quoted ''device_type'' @ '':'' @ quoted ''servecosys'' @ '','' @
               quoted ''version'' @ '':'' @ quoted ''0.1.0'' @ ''}'')) 4096 stack
      in (ret, ret = 0 \<and> strstr response ''200 OK'' \<noteq> None))"

section \<open>Start-up and the renewal loop\<close>

record client_turn =
  ct_sleep :: int
  ct_work :: int
  ct_net :: oipes_net
  ct_writable :: bool
  ct_stack :: string

record client_state =
  cs_auth :: oipes_auth_token_t
  cs_files :: file_store
  cs_clock :: int

definition do_authenticate :: "client_turn \<Rightarrow> client_state \<Rightarrow> client_state" where
  "do_authenticate x st =
     (let now = cs_clock st + ct_work x;
          (rc, auth, fs) = authenticate (ct_net x) now (ct_writable x) (ct_stack x) (cs_auth st) (cs_files st)
      in \<lparr>cs_auth = auth, cs_files = fs, cs_clock = now\<rparr>)"

text \<open>Up to the loop: the device registration changes no state of the daemon.\<close>

definition client_start :: "client_turn \<Rightarrow> client_state \<Rightarrow> client_state" where
  "client_start x st =
     (let st1 = st\<lparr>cs_auth := snd (load_token (cs_files st) (cs_clock st) empty_token)\<rparr> in
      if \<not> is_valid (cs_auth st1) then do_authenticate x st1 else st1)"

definition renew_turn :: "client_turn \<Rightarrow> client_state \<Rightarrow> client_state" where
  "renew_turn x st =
     (let st1 = st\<lparr>cs_clock := cs_clock st + ct_sleep x\<rparr> in
      if is_valid (cs_auth st1) \<and> expires_at (cs_auth st1) - cs_clock st1 < 60
      then do_authenticate x st1 else st1)"

definition client_run :: "client_turn list \<Rightarrow> client_state \<Rightarrow> client_state" where
  "client_run = fold renew_turn"

text \<open>A life of the daemon: start-up with the first turn's system, then the loop.\<close>

definition client_life :: "client_turn \<times> client_turn list \<Rightarrow> client_state \<Rightarrow> client_state" where
  "client_life = (\<lambda>(x, xs) st. client_run xs (client_start x st))"

section \<open>A reader of flat JSON objects\<close>

text \<open>
  What a server does with a body: members whose values are strings or numbers, separated by commas,
  between braces.  A string ends at the first quotation mark that no backslash precedes.
\<close>

datatype json_value = JStr string | JNum int

definition json_unescape :: "char \<Rightarrow> char option" where
  "json_unescape c =
     (if c = DQUOTE then Some DQUOTE else if c = BACKSLASH then Some BACKSLASH
      else if c = CHR ''n'' then Some LF else if c = CHR ''r'' then Some CR
      else if c = CHR ''t'' then Some TAB else None)"

fun json_string :: "string \<Rightarrow> (string \<times> string) option" where
  "json_string [] = None"
| "json_string [c] = (if c = DQUOTE then Some ([], []) else None)"
| "json_string (c # d # s) =
     (if c = DQUOTE then Some ([], d # s)
      else if c = BACKSLASH
        then (case json_unescape d of
                None \<Rightarrow> None | Some e \<Rightarrow> map_option (\<lambda>(v, r). (e # v, r)) (json_string s))
      else map_option (\<lambda>(v, r). (c # v, r)) (json_string (d # s)))"

definition json_value :: "string \<Rightarrow> (json_value \<times> string) option" where
  "json_value s =
     (if s \<noteq> [] \<and> hd s = DQUOTE then map_option (\<lambda>(v, r). (JStr v, r)) (json_string (tl s))
      else let ds = takeWhile is_digit s in
        if ds = [] then None else Some (JNum (digits_value 0 ds), drop (length ds) s))"

definition json_member :: "string \<Rightarrow> ((string \<times> json_value) \<times> string) option" where
  "json_member s =
     (if s \<noteq> [] \<and> hd s = DQUOTE
      then (case json_string (tl s) of
              Some (k, c # r) \<Rightarrow> if c = CHR '':'' then map_option (\<lambda>(v, r'). ((k, v), r')) (json_value r) else None
            | _ \<Rightarrow> None)
      else None)"

fun json_members :: "nat \<Rightarrow> string \<Rightarrow> (string \<times> json_value) list option" where
  "json_members 0 s = None"
| "json_members (Suc n) s =
     (case json_member s of
        Some (m, c # r) \<Rightarrow>
          if c = CHR '','' then map_option (\<lambda>ms. m # ms) (json_members n r)
          else if c = CHR ''}'' \<and> r = [] then Some [m] else None
      | _ \<Rightarrow> None)"

definition json_object :: "string \<Rightarrow> (string \<times> json_value) list option" where
  "json_object s = (if s \<noteq> [] \<and> hd s = CHR ''{'' then json_members (length s) (tl s) else None)"

section \<open>Escaping\<close>

lemma json_string_escape_char:
  "json_string (escape_char c @ s) = map_option (\<lambda>(v, r). (c # v, r)) (json_string s)"
proof (cases s)
  case Nil
  then show ?thesis by (auto simp: escape_char_def json_unescape_def)
next
  case (Cons d s')
  then show ?thesis
    by (auto simp: escape_char_def json_unescape_def)
qed

lemma escape_loop_reads:
  "\<exists>p. prefix p s \<and> (\<forall>r. json_string (escape_loop n k s @ DQUOTE # r) = Some (p, r)) \<and>
       (p = s \<or> n \<le> k + length (escape_loop n k s) + 6)"
proof (induction n k s rule: escape_loop.induct)
  case (1 n k)
  have "json_string (DQUOTE # r) = Some ([], r)" for r by (cases r) simp_all
  then show ?case by simp
next
  case (2 n k c cs)
  show ?case
  proof (cases "k + 6 < n")
    case True
    from 2 [OF True] obtain p where "prefix p cs"
      "\<forall>r. json_string (escape_loop n (k + length (escape_char c)) cs @ DQUOTE # r) = Some (p, r)"
      "p = cs \<or> n \<le> k + length (escape_char c) + length (escape_loop n (k + length (escape_char c)) cs) + 6"
      by blast
    with True show ?thesis
      by (intro exI [of _ "c # p"]) (auto simp: json_string_escape_char)
  next
    case False
    have "json_string (DQUOTE # r) = Some ([], r)" for r by (cases r) simp_all
    with False show ?thesis by (intro exI [of _ "[]"]) simp
  qed
qed

lemma length_escape_char: "0 < length (escape_char c) \<and> length (escape_char c) \<le> 2"
  by (simp add: escape_char_def)

lemma length_escape_loop: "k + 6 < n \<Longrightarrow> k + length (escape_loop n k s) < n - 4"
proof (induction n k s rule: escape_loop.induct)
  case (2 n k c cs)
  show ?case
  proof (cases "k + length (escape_char c) + 6 < n")
    case True
    from 2(1) [OF 2(2) True] 2(2) show ?thesis by simp
  next
    case False
    then have "escape_loop n (k + length (escape_char c)) cs = []" by (cases cs) simp_all
    with 2(2) conjunct2 [OF length_escape_char [of c]] show ?thesis by simp
  qed
qed simp

lemma json_escape_reads:
  "\<exists>p. prefix p s \<and> (\<forall>r. json_string (json_escape s n @ DQUOTE # r) = Some (p, r)) \<and>
       (p = s \<or> n \<le> length (json_escape s n) + 6)"
  using escape_loop_reads [of s n 0] by (simp add: json_escape_def)

lemma length_json_escape: "6 < n \<Longrightarrow> length (json_escape s n) < n - 4"
  using length_escape_loop [of 0 n s] by (simp add: json_escape_def)

lemma json_string_plain:
  "list_all (\<lambda>c. c \<noteq> DQUOTE \<and> c \<noteq> BACKSLASH) w \<Longrightarrow> json_string (w @ DQUOTE # r) = Some (w, r)"
proof (induction w)
  case Nil
  then show ?case by (cases r) simp_all
next
  case (Cons c w)
  then obtain d s where "w @ DQUOTE # r = d # s" by (cases w) auto
  with Cons show ?case by simp
qed

lemma json_member_str:
  assumes "list_all (\<lambda>c. c \<noteq> DQUOTE \<and> c \<noteq> BACKSLASH) k" "json_string (w @ DQUOTE # r) = Some (p, r)"
  shows "json_member (quoted k @ '':'' @ quoted w @ r) = Some ((k, JStr p), r)"
  using assms by (simp add: json_member_def json_value_def quoted_def json_string_plain)

lemma json_member_512:
  "json_member (quoted ''max_tokens'' @ '':512}'') = Some ((''max_tokens'', JNum 512), ''}'')"
  by (simp add: json_member_def json_value_def quoted_def is_digit_def)


section \<open>The life of a token\<close>

text \<open>The token an authentication would obtain in a turn, if any.\<close>

definition turn_token :: "client_turn \<Rightarrow> oipes_auth_token_t \<Rightarrow> string option" where
  "turn_token x auth =
     (let (ret, response) = http_request (ct_net x) auth ''POST'' ''/auth/token'' (Some auth_body) 8192 (ct_stack x)
      in if ret \<noteq> 0 then None else extract_token response)"

lemma do_authenticate_cases:
  "do_authenticate x st =
     (case turn_token x (cs_auth st) of
        None \<Rightarrow> st\<lparr>cs_clock := cs_clock st + ct_work x\<rparr>
      | Some tok \<Rightarrow>
          (let now = cs_clock st + ct_work x; auth = grant_token tok now (cs_auth st) in
           st\<lparr>cs_auth := auth, cs_files := snd (save_token (ct_writable x) auth (cs_files st)), cs_clock := now\<rparr>))"
  by (simp add: do_authenticate_def authenticate_def turn_token_def Let_def split: prod.split option.split)

lemma valid_kept: "is_valid (cs_auth st) \<Longrightarrow> is_valid (cs_auth (client_run xs st))"
proof (induction xs arbitrary: st)
  case (Cons x xs)
  have "is_valid (cs_auth (renew_turn x st))" using Cons.prems
    by (simp add: renew_turn_def do_authenticate_cases grant_token_def Let_def split: option.split)
  with Cons.IH show ?case by (simp add: client_run_def)
qed (simp add: client_run_def)

text \<open>
  Claim C19.  Renewal recovers: once the daemon holds a token, then after any history of turns, failed
  renewals and expired tokens included, the first turn in which the server answers leaves it with a token
  that is good for at least another minute, twice the time to the next turn.
\<close>

theorem renewal_recovers:
  assumes "is_valid (cs_auth st)" "\<forall>auth. turn_token x auth \<noteq> None"
  shows "is_valid (cs_auth (client_run (xs @ [x]) st)) \<and>
    cs_clock (client_run (xs @ [x]) st) + 60 \<le> expires_at (cs_auth (client_run (xs @ [x]) st))"
proof -
  let ?st = "client_run xs st"
  have run: "client_run (xs @ [x]) st = renew_turn x ?st" by (simp add: client_run_def)
  have valid: "is_valid (cs_auth ?st)" using assms(1) by (rule valid_kept)
  obtain tok where "turn_token x (cs_auth ?st) = Some tok" using assms(2) by auto
  with valid show ?thesis
    by (simp add: run renew_turn_def do_authenticate_cases grant_token_def Let_def)
qed

text \<open>
  Claim C20.  A daemon whose start ended without a token never asks for one again: whatever the network does
  later, its turns change nothing but the clock.
\<close>

theorem failed_start_is_final:
  assumes "\<not> is_valid (cs_auth st)"
  shows "client_run xs st = st\<lparr>cs_clock := cs_clock st + sum_list (map ct_sleep xs)\<rparr>"
  using assms
proof (induction xs arbitrary: st)
  case (Cons x xs)
  have "renew_turn x st = st\<lparr>cs_clock := cs_clock st + ct_sleep x\<rparr>"
    using Cons.prems by (simp add: renew_turn_def)
  with Cons.IH [of "st\<lparr>cs_clock := cs_clock st + ct_sleep x\<rparr>"] Cons.prems show ?case
    by (simp add: client_run_def add.assoc)
qed (simp add: client_run_def)

definition example_turn :: "string \<Rightarrow> client_turn" where
  "example_turn tok =
     \<lparr>ct_sleep = 30, ct_work = 1,
      ct_net = \<lparr>on_resolve = \<lambda>h. True, on_socket = True, on_connect = \<lambda>h p. True,
        on_answer = \<lambda>r. ''{'' @ quoted ''access_token'' @ '':'' @ quoted tok @ ''}''\<rparr>,
      ct_writable = True, ct_stack = []\<rparr>"

lemma example_turn_token: "turn_token (example_turn ''t1'') auth = Some ''t1''"
  by (simp add: turn_token_def example_turn_def http_request_def quoted_def extract_token_def token_key_def
      cstr_def OIPES_TOKEN_MAX_def Let_def)

theorem renewal_recovers_witness:
  "let st = client_run ([] @ [example_turn ''t1''])
         \<lparr>cs_auth = \<lparr>access_token = ''t0'', refresh_token = [], expires_at = 50, is_valid = True\<rparr>,
          cs_files = (\<lambda>p. None), cs_clock = 100\<rparr>
   in is_valid (cs_auth st) \<and> cs_clock st + 60 \<le> expires_at (cs_auth st)"
  using renewal_recovers [of "\<lparr>cs_auth = \<lparr>access_token = ''t0'', refresh_token = [], expires_at = 50, is_valid = True\<rparr>,
          cs_files = (\<lambda>p. None), cs_clock = 100\<rparr>" "example_turn ''t1''" "[]"]
  by (simp add: example_turn_token)

theorem failed_start_is_final_witness:
  "client_run [example_turn ''t1'', example_turn ''t1''] \<lparr>cs_auth = empty_token, cs_files = (\<lambda>p. None), cs_clock = 100\<rparr> =
   \<lparr>cs_auth = empty_token, cs_files = (\<lambda>p. None), cs_clock = 160\<rparr>"
  using failed_start_is_final [of "\<lparr>cs_auth = empty_token, cs_files = (\<lambda>p. None), cs_clock = 100\<rparr>"
      "[example_turn ''t1'', example_turn ''t1'']"]
  by (simp add: empty_token_def example_turn_def)

section \<open>Restarts\<close>

definition forward :: "client_turn \<Rightarrow> bool" where
  "forward x = (0 \<le> ct_sleep x \<and> 0 \<le> ct_work x)"

text \<open>Every token the server hands out is a word.\<close>

definition plain_server :: "client_turn \<Rightarrow> bool" where
  "plain_server x = (\<forall>auth tok. turn_token x auth = Some tok \<longrightarrow> plain_word tok)"

definition unloadable :: "file_store \<Rightarrow> bool" where
  "unloadable fs = (\<forall>s u. fs TOKEN_PATH = Some s \<longrightarrow> fst (scan_token s u) \<noteq> 3)"

lemma length_dec_time:
  assumes "0 \<le> i" "i < 2 ^ 63"
  shows "length (dec i) \<le> 4095"
proof -
  have "nat i < 10 ^ Suc 18" using assms by simp
  then have "length (dec_nat (nat i)) \<le> Suc 18" by (rule length_dec_nat)
  with assms show ?thesis by (simp add: dec_def)
qed

lemma do_authenticate_unloadable:
  assumes "unloadable (cs_files st)" "refresh_token (cs_auth st) = []" "plain_server x"
    "0 \<le> cs_clock st + ct_work x" "cs_clock st + ct_work x + 3600 < 2 ^ 63"
  shows "unloadable (cs_files (do_authenticate x st)) \<and> refresh_token (cs_auth (do_authenticate x st)) = []"
proof (cases "turn_token x (cs_auth st)")
  case None
  with assms show ?thesis by (simp add: do_authenticate_cases)
next
  case (Some tok)
  let ?a = "grant_token tok (cs_clock st + ct_work x) (cs_auth st)"
  have "plain_word tok" using Some assms(3) by (simp add: plain_server_def)
  moreover have "length (dec (cs_clock st + ct_work x + 3600)) \<le> 4095"
    using assms(4,5) by (intro length_dec_time) simp_all
  ultimately have "fst (scan_token (token_text ?a) u) = 2" for u
    using assms(2) by (intro scan_token_no_refresh) (simp_all add: grant_token_def)
  with assms(1,2) Some show ?thesis
    by (simp add: do_authenticate_cases Let_def save_token_def token_text_def unloadable_def grant_token_def)
qed

lemma clock_do_authenticate [simp]: "cs_clock (do_authenticate x st) = cs_clock st + ct_work x"
  by (simp add: do_authenticate_cases Let_def split: option.split)

lemma renew_turn_clock: "forward x \<Longrightarrow> cs_clock st \<le> cs_clock (renew_turn x st)"
  by (simp add: renew_turn_def Let_def forward_def)

lemma client_run_clock: "\<forall>x \<in> set xs. forward x \<Longrightarrow> cs_clock st \<le> cs_clock (client_run xs st)"
proof (induction xs arbitrary: st)
  case (Cons x xs)
  then show ?case using renew_turn_clock [of x st] by (force simp: client_run_def intro: order_trans)
qed (simp add: client_run_def)

lemma client_run_unloadable:
  assumes "unloadable (cs_files st)" "refresh_token (cs_auth st) = []" "0 \<le> cs_clock st"
    "\<forall>x \<in> set xs. forward x \<and> plain_server x" "cs_clock (client_run xs st) + 3600 < 2 ^ 63"
  shows "unloadable (cs_files (client_run xs st)) \<and> refresh_token (cs_auth (client_run xs st)) = []"
  using assms(4,5)
proof (induction xs rule: rev_induct)
  case Nil
  with assms(1,2) show ?case by (simp add: client_run_def)
next
  case (snoc x xs)
  let ?st = "client_run xs st"
  have run: "client_run (xs @ [x]) st = renew_turn x ?st" by (simp add: client_run_def)
  have x: "forward x" "plain_server x" and xs: "\<forall>x \<in> set xs. forward x" using snoc.prems by auto
  have c: "0 \<le> cs_clock ?st" using client_run_clock [OF xs, of st] assms(3) by simp
  have "cs_clock ?st + 3600 < 2 ^ 63" using snoc.prems(2) renew_turn_clock [OF x(1), of ?st] by (simp add: run)
  then have IH: "unloadable (cs_files ?st)" "refresh_token (cs_auth ?st) = []" using snoc by auto
  let ?st1 = "?st\<lparr>cs_clock := cs_clock ?st + ct_sleep x\<rparr>"
  show ?case
  proof (cases "is_valid (cs_auth ?st) \<and> expires_at (cs_auth ?st) - cs_clock ?st1 < 60")
    case True
    then have turn: "renew_turn x ?st = do_authenticate x ?st1" by (simp add: renew_turn_def)
    with snoc.prems(2) have "cs_clock ?st1 + ct_work x + 3600 < 2 ^ 63" by (simp add: run)
    with IH x c show ?thesis unfolding run turn
      by (intro do_authenticate_unloadable) (simp_all add: forward_def)
  next
    case False
    then have "renew_turn x ?st = ?st1" by (auto simp: renew_turn_def)
    with IH show ?thesis by (simp add: run)
  qed
qed

lemma load_unloadable: "unloadable fs \<Longrightarrow> load_token fs now empty_token = (-1, empty_token)"
  by (cases "fs TOKEN_PATH") (simp_all add: load_token_def unloadable_def case_prod_beta)

lemma client_life_unloadable:
  assumes "unloadable (cs_files st)" "0 \<le> cs_clock st" "\<forall>y \<in> set (x # xs). forward y \<and> plain_server y"
    "cs_clock (client_life (x, xs) st) + 3600 < 2 ^ 63"
  shows "unloadable (cs_files (client_life (x, xs) st))"
proof -
  let ?st1 = "st\<lparr>cs_auth := empty_token\<rparr>"
  have start: "client_start x st = do_authenticate x ?st1"
    using load_unloadable [OF assms(1)] by (simp add: client_start_def empty_token_def)
  have xs: "\<forall>y \<in> set xs. forward y" and x: "forward x" "plain_server x" using assms(3) by auto
  have life: "client_life (x, xs) st = client_run xs (do_authenticate x ?st1)" by (simp add: client_life_def start)
  have c: "cs_clock (do_authenticate x ?st1) = cs_clock st + ct_work x" by simp
  have "cs_clock st + ct_work x + 3600 < 2 ^ 63"
    using client_run_clock [OF xs, of "do_authenticate x ?st1"] assms(4) by (simp add: life)
  then have "unloadable (cs_files (do_authenticate x ?st1)) \<and> refresh_token (cs_auth (do_authenticate x ?st1)) = []"
    using assms(1,2) x by (intro do_authenticate_unloadable) (simp_all add: forward_def empty_token_def)
  then show ?thesis unfolding life
    using assms(2-4) x by (intro client_run_unloadable [THEN conjunct1]) (simp_all add: forward_def life)
qed

lemma client_life_clock:
  "\<forall>y \<in> set (x # xs). forward y \<Longrightarrow> cs_clock st \<le> cs_clock (client_life (x, xs) st)"
  using client_run_clock [of xs "client_start x st"]
  by (simp add: client_life_def client_start_def Let_def forward_def split: if_splits)

text \<open>
  Claim C21.  The stored token is never used: authentication stores no refresh token, and without one
  the file cannot be read back.  Starting without a token file, after any number of lives of the daemon, each with
  any number of turns, with any network whose server hands out words as tokens, the next start finds no
  token.
\<close>

theorem stored_token_never_loads:
  assumes "cs_files st TOKEN_PATH = None" "0 \<le> cs_clock st"
    "\<forall>(x, xs) \<in> set lives. \<forall>y \<in> set (x # xs). forward y \<and> plain_server y"
    "cs_clock (fold client_life lives st) + 3600 < 2 ^ 63"
  shows "fst (load_token (cs_files (fold client_life lives st)) now auth) = -1"
proof -
  have "unloadable (cs_files (fold client_life lives st)) \<and> 0 \<le> cs_clock (fold client_life lives st)"
    using assms(3,4)
  proof (induction lives rule: rev_induct)
    case Nil
    with assms(1,2) show ?case by (simp add: unloadable_def)
  next
    case (snoc l lives)
    obtain x xs where l: "l = (x, xs)" by force
    let ?st = "fold client_life lives st"
    have ys: "\<forall>y \<in> set (x # xs). forward y \<and> plain_server y" using snoc.prems(1) by (simp add: l)
    then have mono: "cs_clock ?st \<le> cs_clock (client_life (x, xs) ?st)" by (intro client_life_clock) simp
    with snoc.prems(2) have "cs_clock ?st + 3600 < 2 ^ 63" by (simp add: l)
    with snoc have IH: "unloadable (cs_files ?st)" "0 \<le> cs_clock ?st" by auto
    have "unloadable (cs_files (client_life (x, xs) ?st))"
      using IH ys snoc.prems(2) by (intro client_life_unloadable) (simp_all add: l)
    with IH(2) mono show ?case by (simp add: l)
  qed
  then show ?thesis
    by (cases "cs_files (fold client_life lives st) TOKEN_PATH")
      (simp_all add: load_token_def unloadable_def case_prod_beta)
qed

theorem stored_token_never_loads_witness:
  "fst (load_token (cs_files (fold client_life [(example_turn ''t1'', [example_turn ''t1''])]
     \<lparr>cs_auth = empty_token, cs_files = (\<lambda>p. None), cs_clock = 100\<rparr>)) 140 empty_token) = -1"
proof (rule stored_token_never_loads)
  have "plain_server (example_turn ''t1'')"
    by (simp add: plain_server_def example_turn_token plain_word_def is_space_def OIPES_TOKEN_MAX_def)
  then show "\<forall>(x, xs) \<in> set [(example_turn ''t1'', [example_turn ''t1''])]. \<forall>y \<in> set (x # xs). forward y \<and> plain_server y"
    by (simp add: forward_def example_turn_def)
  show "cs_clock (fold client_life [(example_turn ''t1'', [example_turn ''t1''])]
     \<lparr>cs_auth = empty_token, cs_files = (\<lambda>p. None), cs_clock = 100\<rparr>) + 3600 < 2 ^ 63"
    by (simp add: client_life_def client_run_def client_start_def load_token_def empty_token_def
        do_authenticate_cases example_turn_token renew_turn_def grant_token_def Let_def) (simp add: example_turn_def)
qed simp_all

text \<open>
  A request that got no answer counts as answered, and the response is then what the array held before: with a stale
  answer on the stack the daemon is authenticated although no byte came back.
\<close>

lemma authenticated_without_answer:
  assumes "on_resolve net ''api.oipes.io''" "on_socket net" "on_connect net ''api.oipes.io'' 443"
    "on_answer net = (\<lambda>r. [])" "extract_token stack = Some tok"
  shows "fst (authenticate net now w stack auth fs) = 0"
  using assms by (simp add: authenticate_def http_request_def Let_def)

end
