(* ===== verification/Btrfs_Utils.thy ===== *)
theory Btrfs_Utils
  imports Prelude
begin

text \<open>
  The snapshot library \<open>backend/deps/btrfs/btrfs_utils.c\<close>.  Every operation but the listing and the usage
  builds a command for \<open>system\<close>; the model returns what the operation did as a list of effects, and the
  exit status of a command is a parameter, as are the directory, \<open>stat\<close> and \<open>statvfs\<close>.  A null string is
  \<open>None\<close>.
\<close>

section \<open>Commands\<close>

definition BTRFS_MAX_SNAPSHOTS :: nat where "BTRFS_MAX_SNAPSHOTS = 64"
definition BTRFS_NAME_MAX :: nat where "BTRFS_NAME_MAX = 128"
definition BTRFS_PATH_MAX :: nat where "BTRFS_PATH_MAX = 512"

datatype bt_effect = Mkdir string nat | System string

definition shell_meta :: string where
  "shell_meta = '';&|$`<>()'' @ [LF, CR, BACKSLASH, CHR 0x27]"

definition btrfs_shell_safe :: "string option \<Rightarrow> bool" where
  "btrfs_shell_safe s =
     (case s of None \<Rightarrow> False
      | Some cs \<Rightarrow> cs \<noteq> [] \<and> list_all (\<lambda>m. strchr cs m = None) shell_meta)"

definition dquoted :: "string \<Rightarrow> string" where
  "dquoted s = DQUOTE # s @ [DQUOTE]"

definition quiet :: string where
  "quiet = '' >/dev/null 2>&1''"

definition run_system :: "(string \<Rightarrow> int) \<Rightarrow> bt_effect list \<Rightarrow> string \<Rightarrow> int \<times> bt_effect list" where
  "run_system sh effects cmd = (if sh cmd = 0 then 0 else -1, effects @ [System cmd])"

definition btrfs_detect :: "(string \<Rightarrow> int) \<Rightarrow> string option \<Rightarrow> int \<times> bt_effect list" where
  "btrfs_detect sh device =
     (case device of
        None \<Rightarrow> (-1, [])
      | Some dev \<Rightarrow>
          if \<not> btrfs_shell_safe device then (-1, [])
          else run_system sh [] (fit 512 (''blkid -t TYPE=btrfs '' @ dquoted dev @ quiet)))"

definition btrfs_mount_subvol ::
  "(string \<Rightarrow> int) \<Rightarrow> string option \<Rightarrow> string option \<Rightarrow> string option \<Rightarrow> bool \<Rightarrow> int \<times> bt_effect list" where
  "btrfs_mount_subvol sh device subvol mountpoint readonly =
     (case (device, mountpoint) of
        (Some dev, Some mp) \<Rightarrow>
          let sub = (case subvol of Some s \<Rightarrow> s | None \<Rightarrow> []) in
          if \<not> btrfs_shell_safe device \<or> \<not> btrfs_shell_safe mountpoint \<or>
             (sub \<noteq> [] \<and> \<not> btrfs_shell_safe subvol) then (-1, [])
          else run_system sh [Mkdir mp 493]
            (fit 1024
              (if sub \<noteq> []
               then ''mount -t btrfs -o subvol='' @ sub @ (if readonly then '',ro'' else []) @ '' '' @
                    dquoted dev @ '' '' @ dquoted mp @ quiet
               else ''mount -t btrfs'' @ (if readonly then '' -o ro'' else []) @ '' '' @
                    dquoted dev @ '' '' @ dquoted mp @ quiet))
      | _ \<Rightarrow> (-1, []))"

definition parent_of :: "string \<Rightarrow> string option" where
  "parent_of path =
     (let p = fit BTRFS_PATH_MAX path in
      map_option (\<lambda>r. take (length p - length r) p) (strrchr p (CHR ''/'')))"

definition btrfs_create_snapshot ::
  "(string \<Rightarrow> int) \<Rightarrow> string option \<Rightarrow> string option \<Rightarrow> bool \<Rightarrow> int \<times> bt_effect list" where
  "btrfs_create_snapshot sh source dest readonly =
     (case (source, dest) of
        (Some src, Some dst) \<Rightarrow>
          if \<not> btrfs_shell_safe source \<or> \<not> btrfs_shell_safe dest then (-1, [])
          else run_system sh (case parent_of dst of Some p \<Rightarrow> [Mkdir p 493] | None \<Rightarrow> [])
            (fit 1024 (''btrfs subvolume snapshot'' @ (if readonly then '' -r'' else []) @ '' '' @
               dquoted src @ '' '' @ dquoted dst @ quiet))
      | _ \<Rightarrow> (-1, []))"

definition btrfs_delete_snapshot :: "(string \<Rightarrow> int) \<Rightarrow> string option \<Rightarrow> int \<times> bt_effect list" where
  "btrfs_delete_snapshot sh path =
     (case path of
        None \<Rightarrow> (-1, [])
      | Some p \<Rightarrow>
          if \<not> btrfs_shell_safe path then (-1, [])
          else run_system sh [] (fit 1024 (''btrfs subvolume delete '' @ dquoted p @ quiet)))"

definition btrfs_rollback :: "(string \<Rightarrow> int) \<Rightarrow> string \<Rightarrow> string option \<Rightarrow> string option \<Rightarrow> int \<times> bt_effect list" where
  "btrfs_rollback sh timestamp snapshot_path target =
     (case (snapshot_path, target) of
        (Some sp, Some tg) \<Rightarrow>
          if \<not> btrfs_shell_safe snapshot_path \<or> \<not> btrfs_shell_safe target then (-1, [])
          else let backup = fit BTRFS_PATH_MAX (tg @ ''/.snapshots/pre_rollback_'' @ timestamp) in
            run_system sh []
              (fit 2048 (''btrfs subvolume snapshot '' @ dquoted tg @ '' '' @ dquoted backup @ quiet @ '' && '' @
                 ''btrfs subvolume delete '' @ dquoted tg @ quiet @ '' && '' @
                 ''btrfs subvolume snapshot '' @ dquoted sp @ '' '' @ dquoted tg @ quiet))
      | _ \<Rightarrow> (-1, []))"

section \<open>Listing and usage\<close>

record btrfs_snapshot_t =
  bs_name :: string
  bs_created_at :: string
  bs_path :: string
  bs_is_boot :: int

record btrfs_snaplist_t =
  sl_snapshots :: "btrfs_snapshot_t list"
  sl_count :: nat

text \<open>One directory entry: the name written into the next slot when it is a visible directory.\<close>

definition visible_dir :: "(string \<Rightarrow> bool) \<Rightarrow> string \<Rightarrow> string \<Rightarrow> bool" where
  "visible_dir is_dir dir name =
     (\<not> (name \<noteq> [] \<and> hd name = CHR ''.'') \<and> is_dir (fit BTRFS_PATH_MAX (dir @ ''/'' @ name)))"

fun list_loop :: "(string \<Rightarrow> bool) \<Rightarrow> string \<Rightarrow> string list \<Rightarrow> btrfs_snaplist_t \<Rightarrow> btrfs_snaplist_t" where
  "list_loop is_dir dir [] l = l"
| "list_loop is_dir dir (name # ns) l =
     (if sl_count l \<ge> BTRFS_MAX_SNAPSHOTS then l
      else if \<not> visible_dir is_dir dir name then list_loop is_dir dir ns l
      else list_loop is_dir dir ns
        \<lparr>sl_snapshots = (sl_snapshots l)[sl_count l := (sl_snapshots l ! sl_count l)
            \<lparr>bs_name := fit BTRFS_NAME_MAX name,
             bs_path := fit BTRFS_PATH_MAX (fit BTRFS_PATH_MAX (dir @ ''/'' @ name)), bs_is_boot := 0\<rparr>],
         sl_count = sl_count l + 1\<rparr>)"

definition btrfs_list_snapshots ::
  "(string \<Rightarrow> string list option) \<Rightarrow> (string \<Rightarrow> bool) \<Rightarrow> string option \<Rightarrow> btrfs_snaplist_t \<Rightarrow> int \<times> btrfs_snaplist_t" where
  "btrfs_list_snapshots readdir is_dir dir l =
     (case dir of
        None \<Rightarrow> (-1, l)
      | Some d \<Rightarrow>
          (let l0 = l\<lparr>sl_count := 0\<rparr> in
           case readdir d of
             None \<Rightarrow> (-1, l0)
           | Some names \<Rightarrow> (let l1 = list_loop is_dir d names l0 in (int (sl_count l1), l1))))"

record statvfs_t =
  f_blocks :: u64
  f_bfree :: u64
  f_frsize :: u64

definition btrfs_get_usage :: "(string \<Rightarrow> statvfs_t option) \<Rightarrow> string option \<Rightarrow> (u64 \<times> u64) option" where
  "btrfs_get_usage statvfs mountpoint =
     (case mountpoint of
        None \<Rightarrow> None
      | Some mp \<Rightarrow>
          (case statvfs mp of
             None \<Rightarrow> None
           | Some v \<Rightarrow> Some (f_blocks v * f_frsize v, (f_blocks v - f_bfree v) * f_frsize v)))"

section \<open>What the shell reads\<close>

text \<open>
  The words and operators the shell sees in a command: blanks separate words, double quotes join them and
  keep everything but the dollar sign, the backquote and the backslash.  A command that uses an expansion,
  an escape or single quotes, or leaves a quote open, has no reading here.
\<close>

datatype sh_token = Word string | Op char

definition flush_word :: "string option \<Rightarrow> sh_token list" where
  "flush_word cur = (case cur of None \<Rightarrow> [] | Some w \<Rightarrow> [Word w])"

definition word_so_far :: "string option \<Rightarrow> string" where
  "word_so_far cur = (case cur of None \<Rightarrow> [] | Some w \<Rightarrow> w)"

fun sh_lex :: "string option \<Rightarrow> bool \<Rightarrow> string \<Rightarrow> sh_token list option" where
  "sh_lex cur q [] = (if q then None else Some (flush_word cur))"
| "sh_lex cur q (c # cs) =
     (if q then
        (if c = DQUOTE then sh_lex cur False cs
         else if c \<in> {CHR ''$'', CHR 0x60, BACKSLASH} then None
         else sh_lex (Some (word_so_far cur @ [c])) True cs)
      else if c = DQUOTE then sh_lex (Some (word_so_far cur)) True cs
      else if c = CHR '' '' \<or> c = TAB then map_option ((@) (flush_word cur)) (sh_lex None False cs)
      else if c \<in> {CHR '';'', CHR ''&'', CHR ''|'', CHR ''<'', CHR ''>'', CHR ''('', CHR '')'', LF}
        then map_option (\<lambda>ts. flush_word cur @ Op c # ts) (sh_lex None False cs)
      else if c \<in> {CHR ''$'', CHR 0x60, BACKSLASH, CHR 0x27, CHR ''*'', CHR ''?'', CHR ''['', CHR ''~'', CHR ''#''}
        then None
      else sh_lex (Some (word_so_far cur @ [c])) False cs)"

definition sh_words :: "string \<Rightarrow> sh_token list option" where
  "sh_words cmd = sh_lex None False cmd"

definition quiet_tokens :: "sh_token list" where
  "quiet_tokens = [Op (CHR ''>''), Word ''/dev/null'', Word ''2'', Op (CHR ''>''), Op (CHR ''&''), Word ''1'']"

lemma btrfs_shell_safe_iff:
  "btrfs_shell_safe (Some s) \<longleftrightarrow> s \<noteq> [] \<and> (\<forall>m \<in> set shell_meta. m \<notin> set s)"
  by (simp add: btrfs_shell_safe_def list_all_iff strchr_None)

lemma sh_lex_inside:
  "list_all (\<lambda>c. c \<notin> {DQUOTE, CHR ''$'', CHR 0x60, BACKSLASH}) s \<Longrightarrow>
   sh_lex (Some w) True (s @ DQUOTE # r) = sh_lex (Some (w @ s)) False r"
  by (induction s arbitrary: w) (simp_all add: word_so_far_def)

text \<open>An accepted argument without a double quote is one word between quotes, whatever blanks it has.\<close>

definition quotable :: "string \<Rightarrow> bool" where
  "quotable s = (btrfs_shell_safe (Some s) \<and> DQUOTE \<notin> set s)"

lemma sh_lex_dquoted:
  assumes "quotable s"
  shows "sh_lex None False (dquoted s @ CHR '' '' # r) = map_option ((#) (Word s)) (sh_lex None False r)"
proof -
  have "list_all (\<lambda>c. c \<notin> {DQUOTE, CHR ''$'', CHR 0x60, BACKSLASH}) s"
    using assms by (auto simp: list_all_iff quotable_def btrfs_shell_safe_iff shell_meta_def)
  from sh_lex_inside [OF this, of "[]" "CHR '' '' # r"] show ?thesis
    by (cases "sh_lex None False r") (simp_all add: dquoted_def word_so_far_def flush_word_def)
qed

lemma quiet_eq: "quiet = CHR '' '' # ''>/dev/null 2>&1''"
  by (simp add: quiet_def)

lemma sh_lex_quiet:
  "sh_lex None False (''>/dev/null 2>&1'' @ CHR '' '' # r) = map_option (\<lambda>ts. quiet_tokens @ ts) (sh_lex None False r)"
  by (cases "sh_lex None False r") (simp_all add: quiet_tokens_def flush_word_def word_so_far_def)

lemma sh_lex_quiet_end: "sh_lex None False ''>/dev/null 2>&1'' = Some quiet_tokens"
  by (simp add: quiet_tokens_def flush_word_def word_so_far_def)

lemma lex_snapshot:
  "sh_lex None False (''btrfs subvolume snapshot '' @ r) =
   map_option (\<lambda>ts. map Word [''btrfs'', ''subvolume'', ''snapshot''] @ ts) (sh_lex None False r)"
  by (cases "sh_lex None False r") (simp_all add: flush_word_def word_so_far_def)

lemma lex_delete:
  "sh_lex None False (''btrfs subvolume delete '' @ r) =
   map_option (\<lambda>ts. map Word [''btrfs'', ''subvolume'', ''delete''] @ ts) (sh_lex None False r)"
  by (cases "sh_lex None False r") (simp_all add: flush_word_def word_so_far_def)

lemma lex_blkid:
  "sh_lex None False (''blkid -t TYPE=btrfs '' @ r) =
   map_option (\<lambda>ts. map Word [''blkid'', ''-t'', ''TYPE=btrfs''] @ ts) (sh_lex None False r)"
  by (cases "sh_lex None False r") (simp_all add: flush_word_def word_so_far_def)

lemma lex_and:
  "sh_lex None False (''&& '' @ r) =
   map_option (\<lambda>ts. [Op (CHR ''&''), Op (CHR ''&'')] @ ts) (sh_lex None False r)"
  by (cases "sh_lex None False r") (simp_all add: flush_word_def)

lemma lex_minus_r:
  "sh_lex None False (''-r '' @ r) = map_option ((#) (Word ''-r'')) (sh_lex None False r)"
  by (cases "sh_lex None False r") (simp_all add: flush_word_def word_so_far_def)

lemmas lex_parts = sh_lex_dquoted quiet_eq sh_lex_quiet sh_lex_quiet_end lex_snapshot lex_delete lex_blkid
  lex_and lex_minus_r

definition commands :: "bt_effect list \<Rightarrow> string list" where
  "commands effects = concat (map (\<lambda>e. case e of System c \<Rightarrow> [c] | Mkdir p m \<Rightarrow> []) effects)"

lemma commands_run_system [simp]: "commands (snd (run_system sh effects cmd)) = commands effects @ [cmd]"
  by (simp add: commands_def run_system_def)

lemma quotable_safe [simp]: "quotable s \<Longrightarrow> btrfs_shell_safe (Some s)"
  by (simp add: quotable_def)

lemma quotable_append: "quotable a \<Longrightarrow> quotable b \<Longrightarrow> quotable (a @ b)"
  by (auto simp: quotable_def btrfs_shell_safe_iff)

lemma length_dquoted [simp]: "length (dquoted s) = length s + 2"
  by (simp add: dquoted_def)

lemma length_quiet [simp]: "length quiet = 16"
  by (simp add: quiet_def)

declare sh_lex.simps [simp del]

text \<open>Detection, deletion and a new snapshot: one command, whose arguments are the words asked for.\<close>

lemma detect_words:
  "quotable dev \<Longrightarrow> length dev < 470 \<Longrightarrow>
   map sh_words (commands (snd (btrfs_detect sh (Some dev)))) =
     [Some (map Word [''blkid'', ''-t'', ''TYPE=btrfs'', dev] @ quiet_tokens)]"
  unfolding sh_words_def btrfs_detect_def
  by (simp add: commands_def [of "[]"] lex_blkid [simplified] sh_lex_dquoted quiet_eq sh_lex_quiet_end [simplified] comp_def)

lemma delete_words:
  "quotable p \<Longrightarrow> length p < 980 \<Longrightarrow>
   map sh_words (commands (snd (btrfs_delete_snapshot sh (Some p)))) =
     [Some (map Word [''btrfs'', ''subvolume'', ''delete'', p] @ quiet_tokens)]"
  unfolding sh_words_def btrfs_delete_snapshot_def
  by (simp add: commands_def [of "[]"] lex_delete [simplified] sh_lex_dquoted quiet_eq sh_lex_quiet_end [simplified] comp_def)

lemma snapshot_words:
  assumes "quotable src" "quotable dst" "length src + length dst < 960"
  shows "map sh_words (commands (snd (btrfs_create_snapshot sh (Some src) (Some dst) readonly))) =
     [Some (map Word ([''btrfs'', ''subvolume'', ''snapshot''] @ (if readonly then [''-r''] else []) @ [src, dst])
        @ quiet_tokens)]"
proof -
  have mk: "commands (case parent_of dst of Some p \<Rightarrow> [Mkdir p 493] | None \<Rightarrow> []) = []"
    by (cases "parent_of dst") (simp_all add: commands_def)
  show ?thesis
    using assms mk unfolding sh_words_def btrfs_create_snapshot_def
    by (simp add: lex_snapshot [simplified] lex_minus_r [simplified] sh_lex_dquoted quiet_eq sh_lex_quiet_end [simplified] comp_def)
qed

text \<open>
  Claim C23.  The command of a rollback means what it says: for a snapshot path and a target that pass the
  library's filter, hold no double quote and fit the buffers, and a time stamp of such characters, the shell reads exactly three
  commands, joined so that each runs only after the previous one succeeded, and the paths are single words
  whatever blanks they have.
\<close>

theorem rollback_words:
  assumes "quotable sp" "quotable tg" "quotable ts" "length tg + length ts < 480" "4 * length tg + length ts + length sp < 1800"
  shows "map sh_words (commands (snd (btrfs_rollback sh ts (Some sp) (Some tg)))) =
     [Some (map Word [''btrfs'', ''subvolume'', ''snapshot'', tg, tg @ ''/.snapshots/pre_rollback_'' @ ts] @ quiet_tokens
        @ [Op (CHR ''&''), Op (CHR ''&'')]
        @ map Word [''btrfs'', ''subvolume'', ''delete'', tg] @ quiet_tokens
        @ [Op (CHR ''&''), Op (CHR ''&'')]
        @ map Word [''btrfs'', ''subvolume'', ''snapshot'', sp, tg] @ quiet_tokens)]"
proof -
  have "quotable ''/.snapshots/pre_rollback_''"
    by (simp add: quotable_def btrfs_shell_safe_def shell_meta_def)
  then have b: "quotable (tg @ ''/.snapshots/pre_rollback_'' @ ts)"
    using assms(2,3) by (intro quotable_append)
  have fb: "fit BTRFS_PATH_MAX (tg @ ''/.snapshots/pre_rollback_'' @ ts) = tg @ ''/.snapshots/pre_rollback_'' @ ts"
    using assms(4) by (intro fit_short) (simp add: BTRFS_PATH_MAX_def)
  have "btrfs_rollback sh ts (Some sp) (Some tg) = run_system sh []
      (''btrfs subvolume snapshot '' @ dquoted tg @ '' '' @ dquoted (tg @ ''/.snapshots/pre_rollback_'' @ ts) @ quiet @
       '' && '' @ ''btrfs subvolume delete '' @ dquoted tg @ quiet @ '' && '' @
       ''btrfs subvolume snapshot '' @ dquoted sp @ '' '' @ dquoted tg @ quiet)"
    using assms fb by (simp add: btrfs_rollback_def)
  then show ?thesis
    using assms b unfolding sh_words_def
    by (simp add: commands_def [of "[]"] lex_snapshot [simplified] lex_delete [simplified] lex_and [simplified]
        sh_lex_dquoted quiet_eq sh_lex_quiet [simplified] sh_lex_quiet_end [simplified] comp_def)
qed

theorem rollback_words_witness:
  "map sh_words (commands (snd (btrfs_rollback (\<lambda>c. 0) ''20250101'' (Some ''/snap/my copy'') (Some ''/root'')))) =
     [Some (map Word [''btrfs'', ''subvolume'', ''snapshot'', ''/root'', ''/root/.snapshots/pre_rollback_20250101'']
        @ quiet_tokens @ [Op (CHR ''&''), Op (CHR ''&'')]
        @ map Word [''btrfs'', ''subvolume'', ''delete'', ''/root''] @ quiet_tokens
        @ [Op (CHR ''&''), Op (CHR ''&'')]
        @ map Word [''btrfs'', ''subvolume'', ''snapshot'', ''/snap/my copy'', ''/root''] @ quiet_tokens)]"
  using rollback_words [of "''/snap/my copy''" "''/root''" "''20250101''" "\<lambda>c. 0"]
  by (simp add: quotable_def btrfs_shell_safe_def shell_meta_def)

text \<open>
  A refused argument has no effect: when one of its arguments is missing, is empty or holds one of the
  filtered characters, every operation that runs a command returns -1 and touches neither the file system nor the
  shell.
\<close>

lemma refused_arguments_do_nothing:
  assumes "\<not> btrfs_shell_safe a"
  shows "btrfs_detect sh a = (-1, []) \<and> btrfs_delete_snapshot sh a = (-1, []) \<and>
    btrfs_create_snapshot sh a b ro = (-1, []) \<and> btrfs_create_snapshot sh b a ro = (-1, []) \<and>
    btrfs_rollback sh ts a b = (-1, []) \<and> btrfs_rollback sh ts b a = (-1, []) \<and>
    btrfs_mount_subvol sh a sub b ro = (-1, []) \<and> btrfs_mount_subvol sh b sub a ro = (-1, [])"
  using assms
  by (cases a; cases b)
    (simp_all add: btrfs_detect_def btrfs_delete_snapshot_def btrfs_create_snapshot_def btrfs_rollback_def
      btrfs_mount_subvol_def Let_def)

lemma refused_arguments_do_nothing_witness:
  "btrfs_rollback (\<lambda>c. 0) ''t'' (Some ''/snap;reboot'') (Some ''/root'') = (-1, [])"
  using refused_arguments_do_nothing [of "Some ''/snap;reboot''" "\<lambda>c. 0" "Some ''/root''" True "''t''" None]
  by (simp add: btrfs_shell_safe_def shell_meta_def)

text \<open>The filter lets double quotes through, and with them an argument becomes several words.\<close>

lemma quote_adds_words:
  "btrfs_shell_safe (Some (''/a'' @ [DQUOTE] @ '' -o '' @ [DQUOTE] @ ''b'')) \<and>
   map sh_words (commands (snd (btrfs_detect sh (Some (''/a'' @ [DQUOTE] @ '' -o '' @ [DQUOTE] @ ''b''))))) =
     [Some (map Word [''blkid'', ''-t'', ''TYPE=btrfs'', ''/a'', ''-o'', ''b''] @ quiet_tokens)]"
  by (simp add: btrfs_detect_def btrfs_shell_safe_def shell_meta_def commands_def [of "[]"] sh_words_def dquoted_def
      quiet_def quiet_tokens_def sh_lex.simps word_so_far_def flush_word_def)

text \<open>The subvolume of a mount is not even quoted: a blank in it adds words.\<close>

lemma subvol_adds_words:
  "map sh_words (commands (snd (btrfs_mount_subvol sh (Some ''/d'') (Some ''x --bind'') (Some ''/m'') False))) =
     [Some (map Word [''mount'', ''-t'', ''btrfs'', ''-o'', ''subvol=x'', ''--bind'', ''/d'', ''/m''] @ quiet_tokens)]"
  by (simp add: btrfs_mount_subvol_def btrfs_shell_safe_def shell_meta_def commands_def [of "[Mkdir p m]" for p m]
      sh_words_def dquoted_def quiet_def quiet_tokens_def sh_lex.simps word_so_far_def flush_word_def)

section \<open>The listing\<close>

definition snap_names :: "btrfs_snaplist_t \<Rightarrow> string list" where
  "snap_names l = map bs_name (take (sl_count l) (sl_snapshots l))"

lemma list_loop_names:
  "length (sl_snapshots l) = 64 \<Longrightarrow> sl_count l \<le> 64 \<Longrightarrow>
   snap_names (list_loop is_dir d ns l) =
     snap_names l @ take (64 - sl_count l) (map (fit BTRFS_NAME_MAX) (filter (visible_dir is_dir d) ns)) \<and>
   sl_count (list_loop is_dir d ns l) \<le> 64"
proof (induction is_dir d ns l rule: list_loop.induct)
  case (2 is_dir d name ns l)
  show ?case
  proof (cases "sl_count l < 64 \<and> visible_dir is_dir d name")
    case True
    let ?l = "\<lparr>sl_snapshots = (sl_snapshots l)[sl_count l := (sl_snapshots l ! sl_count l)
            \<lparr>bs_name := fit BTRFS_NAME_MAX name,
             bs_path := fit BTRFS_PATH_MAX (fit BTRFS_PATH_MAX (d @ ''/'' @ name)), bs_is_boot := 0\<rparr>],
         sl_count = sl_count l + 1\<rparr>"
    have names: "snap_names ?l = snap_names l @ [fit BTRFS_NAME_MAX name]"
      using True 2(3) by (simp add: snap_names_def take_Suc_conv_app_nth)
    have "64 - sl_count l = Suc (64 - Suc (sl_count l))" using True by arith
    with 2(2) 2(3,4) True names show ?thesis by (simp add: BTRFS_MAX_SNAPSHOTS_def)
  next
    case False
    with 2 show ?thesis by (auto simp: BTRFS_MAX_SNAPSHOTS_def)
  qed
qed simp

text \<open>The listing holds the first 64 visible directories in order, and its count never exceeds the array.\<close>

lemma list_snapshots_exact:
  assumes "length (sl_snapshots l) = 64" "readdir d = Some names"
  shows "snap_names (snd (btrfs_list_snapshots readdir is_dir (Some d) l)) =
    take 64 (map (fit BTRFS_NAME_MAX) (filter (visible_dir is_dir d) names)) \<and>
    0 \<le> fst (btrfs_list_snapshots readdir is_dir (Some d) l) \<and> fst (btrfs_list_snapshots readdir is_dir (Some d) l) \<le> 64"
  using assms list_loop_names [of "l\<lparr>sl_count := 0\<rparr>" is_dir d names]
  by (simp add: btrfs_list_snapshots_def Let_def snap_names_def)

end
