(* ===== verification/Log_Lib.thy ===== *)
theory Log_Lib
  imports Number_Text
begin

text \<open>
  The logging libraries \<open>backend/deps/log/log.c\<close> and \<open>frontend/deps/log/log.c\<close>, which differ in the default
  application name.  A log file is its contents; the time of day and the formatted message are arguments of a
  call.  A descriptor opened for appending is the path it was opened with.
\<close>

section \<open>Operations\<close>

definition LOG_LEVEL_ERROR :: nat where "LOG_LEVEL_ERROR = 0"
definition LOG_LEVEL_WARN :: nat where "LOG_LEVEL_WARN = 1"
definition LOG_LEVEL_INFO :: nat where "LOG_LEVEL_INFO = 2"
definition LOG_LEVEL_DEBUG :: nat where "LOG_LEVEL_DEBUG = 3"

record log_state =
  lg_current_level :: nat
  lg_app_name :: string
  lg_file :: "string option"
  lg_use_file :: bool
  lg_files :: "string \<Rightarrow> string"
  lg_stdout :: string

definition level_str :: "nat \<Rightarrow> string" where
  "level_str level =
     (if level = LOG_LEVEL_ERROR then ''ERROR'' else if level = LOG_LEVEL_WARN then ''WARN''
      else if level = LOG_LEVEL_INFO then ''INFO'' else if level = LOG_LEVEL_DEBUG then ''DEBUG'' else ''?'')"

definition log_start :: "string \<Rightarrow> (string \<Rightarrow> string) \<Rightarrow> log_state" where
  "log_start name fs = \<lparr>lg_current_level = LOG_LEVEL_INFO, lg_app_name = name, lg_file = None,
     lg_use_file = False, lg_files = fs, lg_stdout = []\<rparr>"

definition log_init :: "string option \<Rightarrow> nat \<Rightarrow> log_state \<Rightarrow> log_state" where
  "log_init app level st =
     st\<lparr>lg_app_name := (case app of Some a \<Rightarrow> a | None \<Rightarrow> ''servecosys''), lg_current_level := level\<rparr>"

definition log_set_level :: "nat \<Rightarrow> log_state \<Rightarrow> log_state" where
  "log_set_level level st = st\<lparr>lg_current_level := level\<rparr>"

definition log_set_output :: "bool \<Rightarrow> string \<Rightarrow> log_state \<Rightarrow> log_state" where
  "log_set_output opens filepath st =
     (let f = (if opens then Some filepath else None) in st\<lparr>lg_file := f, lg_use_file := (f \<noteq> None)\<rparr>)"

record log_call =
  lc_level :: nat
  lc_file :: string
  lc_line :: int
  lc_message :: string
  lc_timebuf :: string
  lc_usec :: nat

definition log_prefix :: "string \<Rightarrow> log_call \<Rightarrow> string" where
  "log_prefix app c =
     fit 256 (''['' @ lc_timebuf c @ ''.'' @
       (let ms = dec_nat (lc_usec c div 1000) in replicate (3 - length ms) (CHR ''0'') @ ms) @ '']['' @
       app @ '']['' @ level_str (lc_level c) @ ''] '' @ lc_file c @ '':'' @ dec (lc_line c) @ '' '')"

definition log_text :: "string \<Rightarrow> log_call \<Rightarrow> string" where
  "log_text app c = log_prefix app c @ lc_message c @ [LF]"

definition log_write :: "log_call \<Rightarrow> log_state \<Rightarrow> log_state" where
  "log_write c st =
     (if lc_level c > lg_current_level st then st
      else if lg_use_file st \<and> lg_file st \<noteq> None
        then let p = the (lg_file st) in
          st\<lparr>lg_files := (lg_files st)(p := lg_files st p @ log_text (lg_app_name st) c)\<rparr>
      else st\<lparr>lg_stdout := lg_stdout st @ log_text (lg_app_name st) c\<rparr>)"

text \<open>The front end's copy.\<close>

definition fe_log_init :: "string option \<Rightarrow> nat \<Rightarrow> log_state \<Rightarrow> log_state" where
  "fe_log_init app level st =
     st\<lparr>lg_app_name := (case app of Some a \<Rightarrow> a | None \<Rightarrow> ''uid''), lg_current_level := level\<rparr>"

definition fe_log_set_output :: "bool \<Rightarrow> string \<Rightarrow> log_state \<Rightarrow> log_state" where
  "fe_log_set_output opens filepath st =
     (let f = (if opens then Some filepath else None) in st\<lparr>lg_file := f, lg_use_file := (f \<noteq> None)\<rparr>)"

definition fe_log_write :: "log_call \<Rightarrow> log_state \<Rightarrow> log_state" where
  "fe_log_write c st =
     (if lc_level c > lg_current_level st then st
      else let line = log_text (lg_app_name st) c in
        if lg_use_file st \<and> lg_file st \<noteq> None
        then let p = the (lg_file st) in st\<lparr>lg_files := (lg_files st)(p := lg_files st p @ line)\<rparr>
        else st\<lparr>lg_stdout := lg_stdout st @ line\<rparr>)"

section \<open>Where the lines go\<close>

text \<open>The place lines go to: the open file, or the standard output.\<close>

definition log_sink :: "log_state \<Rightarrow> string option" where
  "log_sink st = (if lg_use_file st then lg_file st else None)"

definition sink_text :: "log_state \<Rightarrow> string option \<Rightarrow> string" where
  "sink_text st sink = (case sink of None \<Rightarrow> lg_stdout st | Some p \<Rightarrow> lg_files st p)"

lemma log_write_sink:
  "sink_text (log_write c st) s =
     sink_text st s @ (if lc_level c \<le> lg_current_level st \<and> s = log_sink st then log_text (lg_app_name st) c else [])"
  by (auto simp: log_write_def log_sink_def sink_text_def Let_def split: option.split)

lemma log_write_settings [simp]:
  "lg_current_level (log_write c st) = lg_current_level st" "lg_app_name (log_write c st) = lg_app_name st"
  "log_sink (log_write c st) = log_sink st"
  by (simp_all add: log_write_def log_sink_def Let_def)

text \<open>
  Any sequence of calls adds to the current sink exactly the lines whose level does not exceed the current one, in the
  order of the calls, and nothing to any other sink.
\<close>

lemma log_run_exact:
  "sink_text (fold log_write cs st) s = sink_text st s @
     (if s = log_sink st
      then concat (map (log_text (lg_app_name st)) (filter (\<lambda>c. lc_level c \<le> lg_current_level st) cs)) else [])"
  by (induction cs arbitrary: st) (simp_all add: log_write_sink)

lemma fe_log_write_same: "fe_log_write = log_write"
  by (intro ext) (simp add: fe_log_write_def log_write_def Let_def)

text \<open>A log file that cannot be opened turns later lines to the standard output.\<close>

lemma log_set_output_sink: "log_sink (log_set_output opens p st) = (if opens then Some p else None)"
  by (simp add: log_set_output_def log_sink_def)

end
