(* ===== verification/Probe.thy ===== *)
theory Probe
  imports Prelude
begin

text \<open>
  The hardware probe \<open>kernel/modules/probe/probe_modules.c\<close>, the device counter
  \<open>kernel/modules/pc/pc_modules.c\<close> and the kernel core's initialisation \<open>kernel/core\<close>.  What the kernel provides
  is a parameter: the DMI strings, the PCI devices, the clock, the allocator and the hash of its crypto
  layer.  A \<open>memcpy\<close> that leaves its buffer is the outcome \<open>None\<close>.
\<close>

section \<open>Reference counts of PCI devices\<close>

record pci_dev =
  pd_vendor :: "16 word"
  pd_device :: "16 word"
  pd_subsystem_vendor :: "16 word"
  pd_subsystem_device :: "16 word"
  pd_refs :: int

definition pci_get :: "nat \<Rightarrow> pci_dev list \<Rightarrow> pci_dev list" where
  "pci_get i ds = ds[i := (ds ! i)\<lparr>pd_refs := pd_refs (ds ! i) + 1\<rparr>]"

definition pci_put :: "nat \<Rightarrow> pci_dev list \<Rightarrow> pci_dev list" where
  "pci_put i ds = ds[i := (ds ! i)\<lparr>pd_refs := pd_refs (ds ! i) - 1\<rparr>]"

text \<open>
  \<open>pci_get_device\<close> with wildcards: it takes a reference to the device after \<open>from\<close> and always drops the one
  to \<open>from\<close>.
\<close>

definition pci_get_device :: "nat option \<Rightarrow> pci_dev list \<Rightarrow> nat option \<times> pci_dev list" where
  "pci_get_device from_dev ds =
     (let i = (case from_dev of None \<Rightarrow> 0 | Some j \<Rightarrow> Suc j);
          ds1 = (if i < length ds then pci_get i ds else ds);
          ds2 = (case from_dev of None \<Rightarrow> ds1 | Some j \<Rightarrow> pci_put j ds1)
      in (if i < length ds then Some i else None, ds2))"

text \<open>The loop of \<open>pc_modules.c\<close>, which drops each device's reference itself as well.\<close>

fun probe_pci_loop :: "nat \<Rightarrow> nat option \<Rightarrow> int \<Rightarrow> pci_dev list \<Rightarrow> int \<times> pci_dev list" where
  "probe_pci_loop 0 from_dev count ds = (count, ds)"
| "probe_pci_loop (Suc k) from_dev count ds =
     (case pci_get_device from_dev ds of
        (None, ds1) \<Rightarrow> (count, ds1)
      | (Some j, ds1) \<Rightarrow> probe_pci_loop k (Some j) (count + 1) (pci_put j ds1))"

definition probe_pci_devices :: "pci_dev list \<Rightarrow> int \<times> pci_dev list" where
  "probe_pci_devices ds = probe_pci_loop (Suc (length ds)) None 0 ds"

definition servecosys_pc_modules_init :: "pci_dev list \<Rightarrow> int \<times> pci_dev list" where
  "servecosys_pc_modules_init ds = (0, snd (probe_pci_devices ds))"

definition servecosys_mobile_modules_init :: int where
  "servecosys_mobile_modules_init = 0"

section \<open>The kernel core\<close>

definition servecosys_mm_init :: int where "servecosys_mm_init = 0"
definition servecosys_sched_init :: int where "servecosys_sched_init = 0"
definition servecosys_net_init :: int where "servecosys_net_init = 0"

text \<open>The result, and whether the failure message was printed.\<close>

definition servecosys_early_init :: "int \<times> bool" where
  "servecosys_early_init =
     (let rc = 0 OR servecosys_mm_init; rc = rc OR servecosys_sched_init; rc = rc OR servecosys_net_init
      in (0, rc \<noteq> 0))"

section \<open>The fingerprint\<close>

definition FINGERPRINT_SIZE :: nat where "FINGERPRINT_SIZE = 32"
definition ENODATA :: int where "ENODATA = 61"
definition EINVAL :: int where "EINVAL = 22"
definition ENOMEM :: int where "ENOMEM = 12"

definition put_bytes :: "nat \<Rightarrow> u8 list \<Rightarrow> u8 list \<Rightarrow> u8 list option" where
  "put_bytes off bs buf =
     (if off + length bs \<le> length buf then Some (take off buf @ bs @ drop (off + length bs) buf) else None)"

definition string_bytes :: "string \<Rightarrow> u8 list" where
  "string_bytes s = map (\<lambda>c. of_nat (of_char c)) s @ [0]"

text \<open>The strings of \<open>collect_smbios_data\<close>, each with its terminator, cut where the buffer ends.\<close>

fun smbios_loop :: "nat \<Rightarrow> string option list \<Rightarrow> nat \<Rightarrow> u8 list \<Rightarrow> (nat \<times> u8 list) option" where
  "smbios_loop buf_size [] off buf = Some (off, buf)"
| "smbios_loop buf_size (d # ds) off buf =
     (case d of
        None \<Rightarrow> smbios_loop buf_size ds off buf
      | Some s \<Rightarrow>
          if off < buf_size then
            (let len = length s + 1; len = (if off + len > buf_size then buf_size - off else len) in
             case put_bytes off (take len (string_bytes s)) buf of
               None \<Rightarrow> None
             | Some buf' \<Rightarrow> smbios_loop buf_size ds (off + len) buf')
          else smbios_loop buf_size ds off buf)"

definition collect_smbios_data :: "string option list \<Rightarrow> u8 list \<Rightarrow> nat \<Rightarrow> (nat \<times> u8 list) option" where
  "collect_smbios_data dmi buf buf_size = smbios_loop buf_size dmi 0 buf"

definition le16 :: "16 word \<Rightarrow> u8 list" where
  "le16 w = [ucast w, ucast (drop_bit 8 w)]"

definition pci_ids :: "pci_dev \<Rightarrow> u8 list" where
  "pci_ids d = le16 (pd_vendor d) @ le16 (pd_device d) @ le16 (pd_subsystem_vendor d) @ le16 (pd_subsystem_device d)"

text \<open>
  \<open>for_each_pci_dev\<close> walks with \<open>pci_get_device\<close>; the loop breaks, holding a reference, when the next identifiers
  do not fit, and \<open>pci_dev_put\<close> then drops it.
\<close>

fun pci_ids_loop ::
  "nat \<Rightarrow> nat \<Rightarrow> nat option \<Rightarrow> nat \<Rightarrow> u8 list \<Rightarrow> pci_dev list \<Rightarrow> (nat \<times> u8 list \<times> pci_dev list \<times> nat option) option" where
  "pci_ids_loop 0 buf_size from_dev off buf ds = Some (off, buf, ds, from_dev)"
| "pci_ids_loop (Suc k) buf_size from_dev off buf ds =
     (case pci_get_device from_dev ds of
        (None, ds1) \<Rightarrow> Some (off, buf, ds1, None)
      | (Some j, ds1) \<Rightarrow>
          if off + 8 > buf_size then Some (off, buf, ds1, Some j)
          else (case put_bytes off (pci_ids (ds1 ! j)) buf of
                  None \<Rightarrow> None
                | Some buf' \<Rightarrow> pci_ids_loop k buf_size (Some j) (off + 8) buf' ds1))"

definition collect_pci_ids ::
  "pci_dev list \<Rightarrow> u8 list \<Rightarrow> nat \<Rightarrow> nat \<Rightarrow> (nat \<times> u8 list \<times> pci_dev list) option" where
  "collect_pci_ids ds buf off buf_size =
     (case pci_ids_loop (Suc (length ds)) buf_size None off buf ds of
        None \<Rightarrow> None
      | Some (off', buf', ds', last_dev) \<Rightarrow>
          Some (off', buf', case last_dev of None \<Rightarrow> ds' | Some j \<Rightarrow> pci_put j ds'))"

record probe_env =
  pe_dmi :: "string option list"
  pe_pci :: "pci_dev list"
  pe_kmalloc :: bool
  pe_clock_ns :: u64
  pe_alloc_shash :: int
  pe_desc :: bool
  pe_shash :: "u8 list \<Rightarrow> int \<times> u8 list"

text \<open>\<open>sha256_hash\<close>: the error, or 0, and what is in the output buffer.\<close>

definition probe_sha256_hash :: "probe_env \<Rightarrow> u8 list \<Rightarrow> u8 list \<Rightarrow> nat \<Rightarrow> int \<times> u8 list" where
  "probe_sha256_hash env data out hash_size =
     (if hash_size < FINGERPRINT_SIZE then (- EINVAL, out)
      else if pe_alloc_shash env \<noteq> 0 then (pe_alloc_shash env, out)
      else if \<not> pe_desc env then (- ENOMEM, out)
      else let (ret, digest) = pe_shash env data in
        if ret \<noteq> 0 then (ret, out) else (0, digest @ drop (length digest) out))"

record probe_state =
  pb_cached :: "u8 list"
  pb_fingerprint_cached :: bool

definition le32_bytes :: "u32 \<Rightarrow> u8 list" where
  "le32_bytes w = map (\<lambda>i. ucast (drop_bit (8 * i) w)) [0..<4]"

text \<open>The bytes that are hashed: the two collections, and the clock's low word when there is room.\<close>

definition fingerprint_data :: "probe_env \<Rightarrow> (u8 list \<times> pci_dev list) option" where
  "fingerprint_data env =
     (let data_size = 4096 in
      case collect_smbios_data (pe_dmi env) (replicate data_size 0) data_size of
        None \<Rightarrow> None
      | Some (off, buf) \<Rightarrow>
          (case collect_pci_ids (pe_pci env) buf off data_size of
             None \<Rightarrow> None
           | Some (off, buf, ds) \<Rightarrow>
               if off < data_size then
                 (case put_bytes off (le32_bytes (ucast (pe_clock_ns env AND 4294967295))) buf of
                    None \<Rightarrow> None
                  | Some buf \<Rightarrow> Some (take (off + 4) buf, ds))
               else Some (take off buf, ds)))"

definition servecosys_generate_fingerprint ::
  "probe_env \<Rightarrow> u8 list \<Rightarrow> nat \<Rightarrow> probe_state \<Rightarrow> (int \<times> u8 list \<times> probe_state) option" where
  "servecosys_generate_fingerprint env buffer sz st =
     (if sz < FINGERPRINT_SIZE then Some (- EINVAL, buffer, st)
      else if pb_fingerprint_cached st
        then Some (0, take FINGERPRINT_SIZE (pb_cached st) @ drop FINGERPRINT_SIZE buffer, st)
      else if \<not> pe_kmalloc env then Some (- ENOMEM, buffer, st)
      else case fingerprint_data env of
          None \<Rightarrow> None
        | Some (data, ds) \<Rightarrow>
            (let (ret, buffer') = probe_sha256_hash env data buffer sz in
             Some (ret, buffer',
               if ret = 0 then \<lparr>pb_cached = take FINGERPRINT_SIZE buffer', pb_fingerprint_cached = True\<rparr> else st)))"

definition hex_byte :: "u8 \<Rightarrow> string" where
  "hex_byte b = [hex_digit (unat b div 16), hex_digit (unat b mod 16)]"

definition fingerprint_show :: "probe_state \<Rightarrow> int \<times> string" where
  "fingerprint_show st =
     (if \<not> pb_fingerprint_cached st then (- ENODATA, [])
      else let text' = concat (map hex_byte (pb_cached st)) @ [LF] in (int (length text'), text'))"

text \<open>
  Loading and unloading: the kernel object below \<open>/sys/kernel\<close>, its reference count and its attribute group.  The object
  is put back when the group cannot be created; unloading follows a successful load.
\<close>

record probe_kobj =
  pk_kobj :: bool
  pk_refs :: int
  pk_group :: bool

definition servecosys_probe_init :: "bool \<Rightarrow> int \<Rightarrow> probe_kobj \<Rightarrow> int \<times> probe_kobj" where
  "servecosys_probe_init created ret k =
     (if \<not> created then (- ENOMEM, k\<lparr>pk_kobj := False\<rparr>)
      else let k = k\<lparr>pk_kobj := True, pk_refs := pk_refs k + 1\<rparr> in
        if ret \<noteq> 0 then (ret, k\<lparr>pk_refs := pk_refs k - 1\<rparr>) else (0, k\<lparr>pk_group := True\<rparr>))"

definition servecosys_probe_exit :: "probe_kobj \<Rightarrow> probe_kobj" where
  "servecosys_probe_exit k = (if pk_kobj k then k\<lparr>pk_group := False, pk_refs := pk_refs k - 1\<rparr> else k)"

section \<open>Reference counting\<close>

lemma length_pci_get [simp]: "length (pci_get i ds) = length ds"
  by (simp add: pci_get_def)

lemma length_pci_put [simp]: "length (pci_put i ds) = length ds"
  by (simp add: pci_put_def)

lemma pci_put_get [simp]: "i < length ds \<Longrightarrow> pci_put i (pci_get i ds) = ds"
  by (simp add: pci_put_def pci_get_def)

lemma pci_put_swap: "i \<noteq> j \<Longrightarrow> pci_put i (pci_put j ds) = pci_put j (pci_put i ds)"
  by (simp add: pci_put_def list_update_swap)

lemma pci_put_get_swap: "i \<noteq> j \<Longrightarrow> pci_put i (pci_get j ds) = pci_get j (pci_put i ds)"
  by (simp add: pci_put_def pci_get_def list_update_swap)

text \<open>Walking with the reference of the previous device held.\<close>

lemma pci_get_device_walk:
  "j < length ds \<Longrightarrow> pci_get_device (Some j) (pci_get j ds) =
     (if Suc j < length ds then (Some (Suc j), pci_get (Suc j) ds) else (None, ds))"
  by (simp add: pci_get_device_def pci_put_get_swap)

lemma pci_get_device_first:
  "pci_get_device None ds = (if ds = [] then (None, ds) else (Some 0, pci_get 0 ds))"
  by (simp add: pci_get_device_def)

text \<open>Walking with no reference held drops one the walker does not own.\<close>

lemma pci_get_device_drop:
  "pci_get_device (Some j) ds =
     (if Suc j < length ds then (Some (Suc j), pci_get (Suc j) (pci_put j ds)) else (None, pci_put j ds))"
  by (simp add: pci_get_device_def pci_put_get_swap)

definition drop_ref :: "pci_dev \<Rightarrow> pci_dev" where
  "drop_ref d = d\<lparr>pd_refs := pd_refs d - 1\<rparr>"

lemma pci_put_prefix:
  "j < length ds \<Longrightarrow> pci_put j (map drop_ref (take j ds) @ drop j ds) = map drop_ref (take (Suc j) ds) @ drop (Suc j) ds"
  by (simp add: pci_put_def drop_ref_def list_update_append nth_append take_Suc_conv_app_nth
      flip: Cons_nth_drop_Suc)

lemma probe_pci_loop_exact:
  "j < length ds \<Longrightarrow> length ds - j \<le> k \<Longrightarrow>
   probe_pci_loop k (Some j) count (map drop_ref (take j ds) @ drop j ds) =
     (count + int (length ds - Suc j), map drop_ref ds)"
proof (induction k arbitrary: j count)
  case (Suc k)
  let ?xs = "map drop_ref (take j ds) @ drop j ds"
  have len: "length ?xs = length ds" using Suc.prems(1) by simp
  show ?case
  proof (cases "Suc j < length ds")
    case True
    then have "pci_get_device (Some j) ?xs = (Some (Suc j), pci_get (Suc j) (pci_put j ?xs))"
      using len by (simp add: pci_get_device_drop)
    moreover have "pci_put (Suc j) (pci_get (Suc j) (pci_put j ?xs)) = map drop_ref (take (Suc j) ds) @ drop (Suc j) ds"
      using True len pci_put_prefix [OF Suc.prems(1)] by simp
    ultimately show ?thesis using Suc.IH [of "Suc j" "count + 1"] True Suc.prems(2) by simp
  next
    case False
    then have "pci_get_device (Some j) ?xs = (None, pci_put j ?xs)" "Suc j = length ds"
      using len Suc.prems(1) by (simp_all add: pci_get_device_drop)
    with pci_put_prefix [OF Suc.prems(1)] show ?thesis by simp
  qed
qed simp

text \<open>
  Counting the PCI devices is right about the number and wrong about the references: it returns
  how many devices there are, and leaves every one of them with one reference less than it had, because the
  walk already drops the reference that the loop drops again.
\<close>

lemma pci_count_drops_references:
  "probe_pci_devices ds = (int (length ds), map drop_ref ds)"
proof (cases ds)
  case Nil
  then show ?thesis by (simp add: probe_pci_devices_def pci_get_device_first)
next
  case (Cons d r)
  then show ?thesis using probe_pci_loop_exact [of 0 ds "length ds" 1]
    by (simp add: probe_pci_devices_def pci_get_device_first)
qed

section \<open>Collecting\<close>

lemma put_bytes_ok:
  "off + length bs \<le> length buf \<Longrightarrow> \<exists>buf'. put_bytes off bs buf = Some buf' \<and> length buf' = length buf"
  by (simp add: put_bytes_def)

definition smbios_size :: "string option list \<Rightarrow> nat" where
  "smbios_size dmi = sum_list (map (\<lambda>d. case d of None \<Rightarrow> 0 | Some s \<Rightarrow> length s + 1) dmi)"

lemma smbios_loop_exact:
  "length buf = n \<Longrightarrow> off \<le> n \<Longrightarrow>
   \<exists>buf'. smbios_loop n dmi off buf = Some (min n (off + smbios_size dmi), buf') \<and> length buf' = n"
proof (induction dmi arbitrary: off buf)
  case Nil
  then show ?case by (simp add: smbios_size_def)
next
  case (Cons d ds)
  show ?case
  proof (cases d)
    case None
    with Cons show ?thesis by (simp add: smbios_size_def)
  next
    case (Some s)
    show ?thesis
    proof (cases "off < n")
      case True
      define len where "len = (if off + (length s + 1) > n then n - off else length s + 1)"
      have len: "len \<le> length s + 1" "off + len \<le> n" "off + len = min n (off + (length s + 1))"
        using True by (auto simp: len_def)
      have "off + length (take len (string_bytes s)) \<le> length buf"
        using len(1,2) Cons.prems(1) by (simp add: string_bytes_def)
      then obtain buf' where buf': "put_bytes off (take len (string_bytes s)) buf = Some buf'" "length buf' = n"
        using put_bytes_ok Cons.prems(1) by blast
      have "min n (off + len + smbios_size ds) = min n (off + smbios_size (d # ds))"
        using len(3) Some by (auto simp: smbios_size_def)
      moreover have "smbios_loop n (d # ds) off buf = smbios_loop n ds (off + len) buf'"
        using True Some buf'(1) unfolding len_def by (auto simp: Let_def)
      ultimately show ?thesis using Cons.IH [OF buf'(2) len(2)] by simp
    next
      case False
      with Cons.prems(2) have "min n (off + smbios_size (d # ds)) = off" "off = n" by auto
      with Cons.IH [OF Cons.prems] Some False show ?thesis by simp
    qed
  qed
qed

lemma pci_ids_length [simp]: "length (pci_ids d) = 8"
  by (simp add: pci_ids_def le16_def)

text \<open>
  The walk over the devices: \<open>j\<close> is the device whose reference is held.  It stays in the buffer and gives
  back every reference.
\<close>

lemma pci_ids_loop_exact:
  assumes "length buf = n" "off \<le> n" "j < length ds" "length ds - j \<le> k" "0 < k"
  shows "\<exists>off' buf' ds' last_dev. pci_ids_loop k n (Some j) off buf (pci_get j ds) = Some (off', buf', ds', last_dev) \<and>
     length buf' = n \<and> off' = off + 8 * min (length ds - Suc j) ((n - off) div 8) \<and>
     (case last_dev of None \<Rightarrow> ds' | Some i \<Rightarrow> pci_put i ds') = ds"
  using assms
proof (induction k arbitrary: j off buf)
  case (Suc k)
  show ?case
  proof (cases "Suc j < length ds")
    case False
    then have "pci_get_device (Some j) (pci_get j ds) = (None, ds)" "Suc j = length ds"
      using Suc.prems(3) by (simp_all add: pci_get_device_walk)
    with Suc.prems show ?thesis by simp
  next
    case True
    then have get: "pci_get_device (Some j) (pci_get j ds) = (Some (Suc j), pci_get (Suc j) ds)"
      using Suc.prems(3) by (simp add: pci_get_device_walk)
    show ?thesis
    proof (cases "off + 8 > n")
      case full: True
      then have "(n - off) div 8 = 0" by simp
      with get full True Suc.prems(1) show ?thesis by simp
    next
      case False
      let ?ids = "pci_ids (pci_get (Suc j) ds ! Suc j)"
      obtain buf' where buf': "put_bytes off ?ids buf = Some buf'" "length buf' = n"
        using put_bytes_ok [of off ?ids buf] False Suc.prems(1) by auto
      have "(n - off) div 8 = Suc ((n - (off + 8)) div 8)" using False
        by (metis add.commute diff_diff_left div_add_self2 le_add_diff_inverse2 le_diff_conv2 not_less
            plus_1_eq_Suc Suc.prems(2) zero_neq_numeral)
      moreover have "length ds - Suc j = Suc (length ds - Suc (Suc j))" using True by simp
      ultimately have eq: "off + 8 + 8 * min (length ds - Suc (Suc j)) ((n - (off + 8)) div 8) =
          off + 8 * min (length ds - Suc j) ((n - off) div 8)" by simp
      have k: "length ds - Suc j \<le> k" "0 < k" using Suc.prems(4) True by linarith+
      have step: "pci_ids_loop (Suc k) n (Some j) off buf (pci_get j ds) =
          pci_ids_loop k n (Some (Suc j)) (off + 8) buf' (pci_get (Suc j) ds)"
        using get buf'(1) False by simp
      have le: "off + 8 \<le> n" using False by simp
      show ?thesis unfolding step by (rule Suc.IH [OF buf'(2) le True k, unfolded eq])
    qed
  qed
qed simp

lemma collect_pci_ids_exact:
  assumes "length buf = n" "off \<le> n"
  shows "\<exists>buf'. collect_pci_ids ds buf off n = Some (off + 8 * min (length ds) ((n - off) div 8), buf', ds) \<and>
     length buf' = n"
proof (cases ds)
  case Nil
  with assms show ?thesis by (simp add: collect_pci_ids_def pci_get_device_first)
next
  case (Cons d r)
  then have first: "pci_get_device None ds = (Some 0, pci_get 0 ds)" "0 < length ds" by (simp_all add: pci_get_device_first)
  show ?thesis
  proof (cases "off + 8 > n")
    case True
    then have "(n - off) div 8 = 0" by simp
    with True first assms show ?thesis by (simp add: collect_pci_ids_def)
  next
    case False
    let ?ids = "pci_ids (pci_get 0 ds ! 0)"
    obtain buf' where buf': "put_bytes off ?ids buf = Some buf'" "length buf' = n"
      using put_bytes_ok [of off ?ids buf] False assms(1) by auto
    from pci_ids_loop_exact [of buf' n "off + 8" 0 ds "length ds"] buf' False first(2)
    obtain b d' l where loop: "pci_ids_loop (length ds) n (Some 0) (off + 8) buf' (pci_get 0 ds) =
        Some (off + 8 + 8 * min (length ds - 1) ((n - (off + 8)) div 8), b, d', l)" "length b = n"
      "(case l of None \<Rightarrow> d' | Some i \<Rightarrow> pci_put i d') = ds" by auto
    have "(n - off) div 8 = Suc ((n - (off + 8)) div 8)" using False
      by (metis add.commute diff_diff_left div_add_self2 le_add_diff_inverse2 le_diff_conv2 not_less
          plus_1_eq_Suc assms(2) zero_neq_numeral)
    moreover obtain m where "length ds = Suc m" using first(2) by (cases "length ds") auto
    ultimately have "off + 8 + 8 * min (length ds - 1) ((n - (off + 8)) div 8) =
        off + 8 * min (length ds) ((n - off) div 8)" by simp
    with loop first(1) False buf'(1) show ?thesis by (simp add: collect_pci_ids_def)
  qed
qed

text \<open>Where the two collections end, from the strings and the number of devices.\<close>

definition collected_offset :: "probe_env \<Rightarrow> nat" where
  "collected_offset env =
     (let s = min 4096 (smbios_size (pe_dmi env)) in s + 8 * min (length (pe_pci env)) ((4096 - s) div 8))"

lemma collected_offset_le: "collected_offset env \<le> 4096"
proof -
  define s where "s = min 4096 (smbios_size (pe_dmi env))"
  define m where "m = min (length (pe_pci env)) ((4096 - s) div 8)"
  have "s \<le> 4096" by (simp add: s_def)
  moreover have "8 * m \<le> 4096 - s"
    by (rule order_trans [OF _ times_div_less_eq_dividend [of 8]]) (simp add: m_def)
  ultimately have "s + 8 * m \<le> 4096" by linarith
  then show ?thesis by (simp add: collected_offset_def Let_def s_def m_def)
qed

lemma fingerprint_data_exact:
  "\<exists>buf. length buf = 4096 \<and> fingerprint_data env =
     (if collected_offset env < 4096
      then map_option (\<lambda>b. (take (collected_offset env + 4) b, pe_pci env))
             (put_bytes (collected_offset env) (le32_bytes (ucast (pe_clock_ns env AND 4294967295))) buf)
      else Some (take (collected_offset env) buf, pe_pci env))"
proof -
  define s where "s = min 4096 (smbios_size (pe_dmi env))"
  have s: "s \<le> 4096" by (simp add: s_def)
  obtain b1 where b1: "collect_smbios_data (pe_dmi env) (replicate 4096 0) 4096 = Some (s, b1)" "length b1 = 4096"
    using smbios_loop_exact [where buf = "replicate 4096 0" and n = 4096 and off = 0 and dmi = "pe_dmi env",
        OF length_replicate le0] unfolding collect_smbios_data_def s_def add_0
    by blast
  obtain b2 where b2: "collect_pci_ids (pe_pci env) b1 s 4096 = Some (collected_offset env, b2, pe_pci env)" "length b2 = 4096"
    using collect_pci_ids_exact [of b1 4096 s "pe_pci env"] b1(2) s by (auto simp: collected_offset_def s_def Let_def)
  have "fingerprint_data env = (if collected_offset env < 4096
      then (case put_bytes (collected_offset env) (le32_bytes (ucast (pe_clock_ns env AND 4294967295))) b2 of
              None \<Rightarrow> None | Some buf \<Rightarrow> Some (take (collected_offset env + 4) buf, pe_pci env))
      else Some (take (collected_offset env) b2, pe_pci env))"
    unfolding fingerprint_data_def Let_def b1(1) option.case prod.case b2(1) by (rule refl)
  then show ?thesis using b2(2) by (intro exI [of _ b2]) (simp add: map_option_case)
qed

lemma fingerprint_data_bounds:
  "(fingerprint_data env = None \<longleftrightarrow> collected_offset env \<in> {4093, 4094, 4095}) \<and>
   collected_offset env \<le> 4096 \<and>
   (case fingerprint_data env of None \<Rightarrow> True | Some (data, ds) \<Rightarrow> length data \<le> 4096 \<and> ds = pe_pci env)"
proof -
  obtain buf where "length buf = 4096" and data: "fingerprint_data env =
     (if collected_offset env < 4096
      then map_option (\<lambda>b. (take (collected_offset env + 4) b, pe_pci env))
             (put_bytes (collected_offset env) (le32_bytes (ucast (pe_clock_ns env AND 4294967295))) buf)
      else Some (take (collected_offset env) buf, pe_pci env))"
    using fingerprint_data_exact by blast
  moreover have "length (le32_bytes w) = 4" for w by (simp add: le32_bytes_def)
  ultimately show ?thesis using collected_offset_le [of env]
    by (auto simp: put_bytes_def)
qed

text \<open>
  Claim C39.  The two collections of the probe never leave its buffer, and they return every
  reference they take; the clock word that follows leaves it exactly when they end one, two or three bytes before its
  end, so the collection succeeds exactly at all other offsets.
\<close>

theorem fingerprint_buffer_bounds:
  "(fingerprint_data env = None \<longleftrightarrow> collected_offset env \<in> {4093, 4094, 4095}) \<and>
   collected_offset env \<le> 4096 \<and>
   (case fingerprint_data env of None \<Rightarrow> True | Some (data, ds) \<Rightarrow> length data \<le> 4096 \<and> ds = pe_pci env)"
  by (rule fingerprint_data_bounds)

text \<open>A cached fingerprint has its 32 bytes.\<close>

definition probe_ok :: "probe_state \<Rightarrow> bool" where
  "probe_ok st = (pb_fingerprint_cached st \<longrightarrow> length (pb_cached st) = FINGERPRINT_SIZE)"

text \<open>
  The fingerprint is computed once: after a call that succeeded, every later call returns the same 32 bytes
  and changes nothing, whatever the strings, the devices, the clock or the allocator are then.
\<close>

lemma fingerprint_stable:
  assumes "probe_ok st" "servecosys_generate_fingerprint env buffer sz st = Some (0, buffer', st')" "length buffer' = sz"
    "FINGERPRINT_SIZE \<le> sz'"
  shows "servecosys_generate_fingerprint env' buf sz' st' =
    Some (0, take FINGERPRINT_SIZE buffer' @ drop FINGERPRINT_SIZE buf, st') \<and> probe_ok st'"
  using assms
  by (auto simp: servecosys_generate_fingerprint_def probe_ok_def FINGERPRINT_SIZE_def EINVAL_def ENOMEM_def Let_def
      split: if_splits option.splits prod.splits)

definition example_probe :: "u64 \<Rightarrow> probe_env" where
  "example_probe clock = \<lparr>pe_dmi = [Some ''ACME''], pe_pci = [], pe_kmalloc = True, pe_clock_ns = clock,
     pe_alloc_shash = 0, pe_desc = True, pe_shash = \<lambda>d. (0, replicate 32 7)\<rparr>"

definition empty_probe :: probe_state where
  "empty_probe = \<lparr>pb_cached = replicate 32 0, pb_fingerprint_cached = False\<rparr>"

lemma fingerprint_stable_witness:
  "servecosys_generate_fingerprint (example_probe 9) [] 32 \<lparr>pb_cached = replicate 32 7, pb_fingerprint_cached = True\<rparr> =
     Some (0, replicate 32 7, \<lparr>pb_cached = replicate 32 7, pb_fingerprint_cached = True\<rparr>)"
proof -
  have "collected_offset (example_probe 5) = 5"
    by (simp add: collected_offset_def example_probe_def smbios_size_def)
  then obtain data ds where "fingerprint_data (example_probe 5) = Some (data, ds)"
    using fingerprint_data_bounds [of "example_probe 5"] by (auto split: option.splits)
  then have "servecosys_generate_fingerprint (example_probe 5) (replicate 32 0) 32 empty_probe =
      Some (0, replicate 32 7, \<lparr>pb_cached = replicate 32 7, pb_fingerprint_cached = True\<rparr>)"
    by (simp add: servecosys_generate_fingerprint_def probe_sha256_hash_def FINGERPRINT_SIZE_def empty_probe_def)
      (simp add: example_probe_def FINGERPRINT_SIZE_def)
  from fingerprint_stable [OF _ this, of 32 "example_probe 9" "[]"] show ?thesis
    by (simp add: probe_ok_def empty_probe_def FINGERPRINT_SIZE_def)
qed

text \<open>
  What is hashed has the clock in it: two boots of the same machine hash different bytes as soon as the low words of
  the clocks differ and there is room for the word.
\<close>

lemma fingerprint_data_clock:
  assumes "fingerprint_data env = Some (d1, ds1)" "fingerprint_data (env\<lparr>pe_clock_ns := ns\<rparr>) = Some (d2, ds2)"
    "collected_offset env < 4093"
    "le32_bytes (ucast (pe_clock_ns env AND 4294967295)) \<noteq> le32_bytes (ucast (ns AND 4294967295))"
  shows "d1 \<noteq> d2"
proof -
  let ?o = "collected_offset env"
  have same: "collected_offset (env\<lparr>pe_clock_ns := ns\<rparr>) = ?o" by (simp add: collected_offset_def)
  have len: "length (le32_bytes w) = 4" for w by (simp add: le32_bytes_def)
  obtain b1 where b1: "length b1 = 4096" "d1 = take (?o + 4) (take ?o b1 @ le32_bytes (ucast (pe_clock_ns env AND 4294967295)) @ drop (?o + 4) b1)"
    using fingerprint_data_exact [of env] assms(1,3) by (auto simp: put_bytes_def len split: if_splits)
  obtain b2 where b2: "length b2 = 4096" "d2 = take (?o + 4) (take ?o b2 @ le32_bytes (ucast (ns AND 4294967295)) @ drop (?o + 4) b2)"
    using fingerprint_data_exact [of "env\<lparr>pe_clock_ns := ns\<rparr>"] assms(2,3) same
    by (auto simp: put_bytes_def len split: if_splits)
  have "drop ?o d1 = le32_bytes (ucast (pe_clock_ns env AND 4294967295))"
    "drop ?o d2 = le32_bytes (ucast (ns AND 4294967295))"
    using b1 b2 assms(3) len by simp_all
  with assms(4) show ?thesis by auto
qed

text \<open>The sysfs file: an error before the first fingerprint, then 64 hexadecimal digits and a newline.\<close>

lemma fingerprint_show_length:
  "probe_ok st \<Longrightarrow> fst (fingerprint_show st) = (if pb_fingerprint_cached st then 65 else - 61)"
proof -
  have "length (concat (map hex_byte bs)) = 2 * length bs" for bs by (induction bs) (simp_all add: hex_byte_def)
  then show "probe_ok st \<Longrightarrow> ?thesis"
    by (simp add: fingerprint_show_def probe_ok_def FINGERPRINT_SIZE_def ENODATA_def)
qed

text \<open>A failed load and a load followed by an unload both leave the kernel's object tree as it was.\<close>

lemma probe_load_unload:
  assumes "servecosys_probe_init created ret k = (rc, k')" "\<not> pk_group k"
  shows "pk_refs (if rc = 0 then servecosys_probe_exit k' else k') = pk_refs k \<and>
         \<not> pk_group (if rc = 0 then servecosys_probe_exit k' else k')"
  using assms by (auto simp: servecosys_probe_init_def servecosys_probe_exit_def ENOMEM_def Let_def split: if_splits)

end
