(* ===== verification/Base_System.thy ===== *)
theory Base_System
  imports Bootloader
begin

text \<open>
  The base system \<open>base/core/base.c\<close>: its global structure, memory-mapped accesses and the kernel loader, with the
  firmware of the boot loader's theory as a parameter.  Files that are open and pools that are allocated are
  recorded, so that the error paths can be checked for leaks.  A read that succeeds returns the whole file.
\<close>

section \<open>State and operations\<close>

record efi_systab =
  es_boot_services :: nat
  es_runtime_services :: nat
  es_conout_print :: nat

record base_system_t =
  bs_console_print :: nat
  bs_systab :: efi_systab
  bs_boot_services :: nat
  bs_runtime_services :: nat

definition base_system_init :: "efi_systab \<Rightarrow> base_system_t \<Rightarrow> efi_status \<times> base_system_t" where
  "base_system_init systab g =
     (EFI_SUCCESS, g\<lparr>bs_systab := systab, bs_boot_services := es_boot_services systab,
        bs_runtime_services := es_runtime_services systab, bs_console_print := es_conout_print systab\<rparr>)"

type_synonym mmio = "u64 \<Rightarrow> u64"

definition base_mmio_read :: "mmio \<Rightarrow> u64 \<Rightarrow> u64" where
  "base_mmio_read mem addr = mem addr"

definition base_mmio_write :: "u64 \<Rightarrow> u64 \<Rightarrow> mmio \<Rightarrow> mmio" where
  "base_mmio_write addr v mem = mem(addr := v)"

record efi_handles =
  eh_open :: "string list"
  eh_pools :: nat

definition efi_open :: "string \<Rightarrow> efi_handles \<Rightarrow> efi_handles" where
  "efi_open f h = h\<lparr>eh_open := f # eh_open h\<rparr>"

definition efi_close :: "string \<Rightarrow> efi_handles \<Rightarrow> efi_handles" where
  "efi_close f h = h\<lparr>eh_open := remove1 f (eh_open h)\<rparr>"

definition efi_alloc :: "efi_handles \<Rightarrow> efi_handles" where
  "efi_alloc h = h\<lparr>eh_pools := eh_pools h + 1\<rparr>"

definition efi_free :: "efi_handles \<Rightarrow> efi_handles" where
  "efi_free h = h\<lparr>eh_pools := eh_pools h - 1\<rparr>"

definition base_load_kernel ::
  "firmware \<Rightarrow> efi_handles \<Rightarrow> efi_status \<times> (u8 list \<times> nat) option \<times> efi_handles" where
  "base_load_kernel fw h =
     (if fw_open fw kernel_path \<noteq> EFI_SUCCESS then (fw_open fw kernel_path, None, h)
      else
        (let h = efi_open kernel_path h; file_size = length (fw_contents fw kernel_path) in
         if fw_alloc fw file_size \<noteq> EFI_SUCCESS then (fw_alloc fw file_size, None, efi_close kernel_path h)
         else
           (let h = efi_alloc h in
            if fw_read fw kernel_path \<noteq> EFI_SUCCESS
            then (fw_read fw kernel_path, None, efi_close kernel_path (efi_free h))
            else (EFI_SUCCESS, Some (fw_contents fw kernel_path, file_size), efi_close kernel_path h))))"

definition base_boot_system :: efi_status where "base_boot_system = EFI_SUCCESS"
definition base_restore_system :: efi_status where "base_restore_system = EFI_SUCCESS"

section \<open>Properties\<close>

lemma base_mmio_read_write: "base_mmio_read (base_mmio_write a v mem) b = (if b = a then v else base_mmio_read mem b)"
  by (simp add: base_mmio_read_def base_mmio_write_def)

text \<open>
  Loading the kernel leaks nothing on any path: the file is closed again in every case, one pool stays
  allocated exactly when the load succeeded, and it succeeds exactly when opening, allocating and reading do; the status
  of a failure is that of the first call that failed.
\<close>

lemma base_load_kernel_no_leak:
  "(case base_load_kernel fw h of
      (st, None, h') \<Rightarrow> st \<noteq> EFI_SUCCESS \<and> h' = h \<and>
        st = (if fw_open fw kernel_path \<noteq> EFI_SUCCESS then fw_open fw kernel_path
              else if fw_alloc fw (length (fw_contents fw kernel_path)) \<noteq> EFI_SUCCESS
                then fw_alloc fw (length (fw_contents fw kernel_path))
              else fw_read fw kernel_path)
    | (st, Some (img, n), h') \<Rightarrow> st = EFI_SUCCESS \<and> h' = efi_alloc h \<and> n = length img \<and>
        img = fw_contents fw kernel_path \<and> fw_open fw kernel_path = EFI_SUCCESS \<and>
        fw_alloc fw n = EFI_SUCCESS \<and> fw_read fw kernel_path = EFI_SUCCESS)"
  by (simp add: base_load_kernel_def efi_open_def efi_close_def efi_alloc_def efi_free_def Let_def)

text \<open>
  The loader of the boot loader and the one of the base system agree on status and image for the kernel.
\<close>

lemma base_load_kernel_agrees:
  "load_kernel_file fw kernel_path =
     (fst (base_load_kernel fw h), map_option fst (fst (snd (base_load_kernel fw h))))"
  by (simp add: base_load_kernel_def load_kernel_file_def Let_def)

text \<open>Booting and restoring are stubs that report success.\<close>

lemma base_stubs: "base_boot_system = EFI_SUCCESS \<and> base_restore_system = EFI_SUCCESS"
  by (simp add: base_boot_system_def base_restore_system_def)

end
