(* ===== verification/Spec2Isabelle.thy ===== *)
theory Spec2Isabelle
  imports Sub_Kernel Bootloader Ipc_Bus Compositor Hal App_Sandbox Guard_Module Daemon_Loops Bus_Wire Ui_Session Idle_Daemons
    Oipes_Client Btrfs_Utils Log_Lib Probe Base_System
begin

text \<open>
  ServEcosys: a verification development of its C code.  Paths are relative to \<open>src/root project/\<close>.

  The program.  ServEcosys is a boot chain and a set of daemons.  The UEFI loader \<open>boot/\<close> checks a signed kernel image
  and jumps to it; \<open>base/core\<close> is a second, smaller loader; \<open>kernel/\<close> holds a guard module, a hardware probe and a few
  initialisers.  In user space \<open>backend/sub_kernel\<close> has the privileged daemons and \<open>backend/deps\<close> their libraries;
  \<open>frontend/ui\<close> has the desktop and \<open>frontend/deps\<close>, \<open>frontend/apps\<close> its libraries and the package builder.  The centre is
  the permission arbiter: every process has a level from 0 to 11, one process, meant to be the system manager, is
  registered with the arbiter as the one who authorises, and a process may raise itself up to what was authorised.  The system UI asks the arbiter
  for its own level, the manager sends it the authorisations typed at its command line, the compositor draws through the
  display server, the input manager hands out key events, and packages made by the builder are read by the sandbox.

  Conventions.  C strings, integers and buffers are modelled as \<open>Prelude\<close> says.  A structure is a record, an enumeration a
  datatype (or the raw number where it is read from a wire), a fixed array with a counter the list of its used part, an
  error code the value the function returns, and a write outside a buffer the value \<open>None\<close>.  A function that changes
  globals takes the state and returns it.  What the code calls and does not contain is a parameter: firmware services,
  system calls on files, sockets and processes, the clock, the network, the shell, \<open>crc32_le\<close> and the kernel's hash
  interface.  Such a parameter is a function or a record of answers, so a theorem speaks about every behaviour of it.

  Theories and the code they model.

  \<^item> \<open>Prelude\<close>, \<open>Number_Text\<close>: vocabulary and lemmas shared by all: integer conversions, C strings, tables, decimal text.
  \<^item> \<open>Perm_Ladder\<close>: \<open>backend/deps/perm/perm.c\<close>.  \<open>Selinux\<close>: \<open>backend/deps/selinux/selinux_wrap.c\<close> and the daemon
    \<open>selinux_manager.c\<close> around it.
  \<^item> \<open>Arbiter\<close>: \<open>permission_arbiter.c\<close>, one definition per function, \<open>serve_client\<close> being the body of the accept loop.
    \<open>Arbiter_Facts\<close> shows the table as a map and what each operation does to it; \<open>Arbiter_Safety\<close> states the abstract
    ledger of levels and caps, proves that the served requests refine it and that levels are authorised;
    \<open>Arbiter_Server\<close> goes down to the socket: set-up, byte layout of the messages, the loops that read and write them in
    full, and \<open>arbiter_loop\<close>, with the safety property carried over to arbitrary bytes on the connections.
  \<^item> \<open>System_Manager\<close>: \<open>system_manager.c\<close> over the arbiter model; a request to the arbiter is a call of \<open>serve_client\<close> that
    may fail or lose its answer.  \<open>Sub_Kernel\<close>: arbiter and manager together, with any other clients of both.  \<open>Ipc_Bus\<close>: \<open>ipc_bus.c\<close>;
    \<open>Bus_Wire\<close>: its messages in bytes.  \<open>Daemon_Loops\<close>: socket set-up, accept loops and shutdown of
    manager, bus and display server, and the composition of compositor and display server.
  \<^item> \<open>Bignum\<close>, \<open>Bignum_Facts\<close>, \<open>Modexp\<close>, \<open>Byte_Codec\<close>, \<open>Sha256\<close>, \<open>Rsa\<close>: \<open>boot/crypto.c\<close>, from 32-bit limbs to the signature
    check; \<open>Backend_Crypto\<close>: \<open>backend/deps/crypto/crypto.c\<close>; \<open>Bootloader\<close>: \<open>boot/bootloader.c\<close>; \<open>Base_System\<close>:
    \<open>base/core/base.c\<close>.
  \<^item> \<open>Guard\<close>: the operations of \<open>kernel/modules/guard/guard.c\<close>; \<open>Guard_Module\<close>: its tables, loading, unloading and the
    kernel's calls.  \<open>Probe\<close>: \<open>kernel/modules/probe\<close>, \<open>pc\<close>, \<open>mobile\<close> and the initialisers of \<open>kernel/core\<close>.
  \<^item> \<open>Hal\<close>: \<open>hal_manager.c\<close> and \<open>backend/deps/hal/hal.c\<close>.  \<open>Btrfs_Utils\<close>: \<open>backend/deps/btrfs/btrfs_utils.c\<close>.
    \<open>Oipes_Lib\<close>, \<open>Oipes_Client\<close>: \<open>backend/deps/oipes-net/oipes.c\<close> and \<open>oipes_client.c\<close>.  \<open>Ipc_Lib\<close>, \<open>Log_Lib\<close>: the two
    copies each of \<open>ipc.c\<close> and \<open>log.c\<close>.
  \<^item> \<open>Display\<close>: \<open>frontend/deps/display/display.c\<close> and the drawing of \<open>display_server.c\<close>; \<open>Display_Protocol\<close>: its commands;
    \<open>Compositor\<close>: \<open>compositor.c\<close>; \<open>Input_Manager\<close>: the operations of \<open>input_manager.c\<close> and \<open>frontend/deps/input/input.c\<close>;
    \<open>Input_Threads\<close>: its two threads; \<open>Idle_Daemons\<close>: the programs that only wait.
  \<^item> \<open>Line_Editor\<close>: \<open>read_line\<close> of \<open>system_ui.c\<close>; \<open>System_Ui\<close>: its commands and one turn; \<open>Ui_Session\<close>: the whole run.
  \<^item> \<open>Ssle_Packer\<close>: \<open>frontend/apps/ssle_packer.c\<close>; \<open>App_Sandbox\<close>: \<open>frontend/deps/app/app_sandbox.c\<close>.

  Interfaces.  Each is a locale, interpreted on the code's own definitions: \<open>privilege_service\<close> (the arbiter as its
  clients see it, and arbiter with manager as the operator sees them), \<open>streaming_hash\<close> (both hash implementations), \<open>fresh_ids\<close> (bus sessions, windows, notifications),
  \<open>claimable\<close> (both device tables), \<open>bounded_fifo\<close> (the ring of the input manager) and \<open>server_socket\<close> (the four
  socket set-ups).  The client lemmas are proved once in the locale.

  What the lemmas show.  The arbiter: the table invariant, the effect of every request on every branch, the ledger it
  refines, and from this that no run raises a process beyond what the registered manager authorised; with the manager,
  that nobody rises without a console command of the manager's user.  The crypto: every
  limb loop computes its number, hence the signature check is the mathematical one, and both hashes are SHA-256.  The
  loader: it jumps exactly when magic and signature are right; the compiled-in key makes that check worthless, and the
  theorem that a signature can be forged says so.  The daemons: what an untrusted peer can do, that runs leave no
  descriptor, that registration and token renewal end or recover.  The UI: the buffer-level editor refines an editor on
  lines, and the whole program refines a session on keys.  The input manager: in every interleaving events stay in order
  and are lost only when more than 255 wait.  Drawing writes exactly the bytes of the rectangle; texts written by one
  component are read back by the other (arbiter messages, drawing commands, token files, package manifests).

  Bounds and fuel.  Loops are structural recursion or \<open>function\<close> with a measure: the reading and writing loops count the
  bytes still missing, the registration loop its 30 attempts, the reducing loop its exponent as a number.  The PCI loops
  take \<open>Suc (length ds)\<close> steps of fuel for \<open>length ds\<close> devices, enough since each turn passes to a later device; the
  reader of JSON members gets the length of the text, enough since a member consumes at least one character.  Loops that
  need not end are \<open>partial_function\<close>: \<open>ui_loop\<close>, where \<open>None\<close> is waiting for ever, and \<open>sleep_while\<close>.  Accept loops run over
  the list of what \<open>accept\<close> returns.  Threads are the step relation \<open>im_step\<close>; its runs are \<open>im_run\<close>.

  Not modelled.  Messages on the console, log lines of the kernel and time stamps in audit files; writing pid files (their
  removal is recorded); signals, in particular SIGPIPE, which no daemon handles; signal handlers that only clear a flag;
  usage texts; the console output of the loader; the byte layout of input events; null pointer
  guards where every caller passes an address; the mutexes of programs in which one thread uses the data; unloading of
  the pc and mobile modules, which prints a message.  \<open>system_manager.c\<close> and \<open>bootloader.c\<close> do not compile as they
  are (stray statements at file scope; assignment to an array); the models read them as the surrounding code means them.

  Plan.  Next: composition of packer, sandbox and arbiter levels; the effect of SIGPIPE on the
  daemons; the byte layout of input events.
\<close>

end
